(* ===== verification/Prelude.thy ===== *)
theory Prelude
  imports Main
begin

text \<open>
  Shared vocabulary of the development: the sum type \<open>'e + 'a\<close> as the result of a Go call that can
  fail (\<open>Inl\<close> the failure, \<open>Inr\<close> the value), its sequencing with and without a threaded state, the
  loops over lists the components use, and the collections of facts the proofs draw on.
\<close>

named_theorems go_string_simps \<open>evaluation facts for the string functions of the Go library\<close>
named_theorems fs_simps \<open>reading the file system after an operation on it\<close>
named_theorems ann_simps \<open>unfolding of the annotation accessors\<close>
named_theorems result_elims \<open>inversion of sequenced calls\<close>

section \<open>Sequencing calls that can fail\<close>

text \<open>\<open>ebind m f\<close> is Go's \<^verbatim>\<open>x, err := m; if err != nil { return err }; f(x)\<close>.\<close>

fun ebind :: "'e + 'a \<Rightarrow> ('a \<Rightarrow> 'e + 'b) \<Rightarrow> 'e + 'b" where
  "ebind (Inl e) f = Inl e"
| "ebind (Inr a) f = f a"

lemma ebind_cong [fundef_cong]:
  "m = m' \<Longrightarrow> (\<And>a. m' = Inr a \<Longrightarrow> f a = f' a) \<Longrightarrow> ebind m f = ebind m' f'"
  by (cases m') auto

lemma ebind_eq_Inr [result_elims]:
  "ebind m f = Inr b \<longleftrightarrow> (\<exists>a. m = Inr a \<and> f a = Inr b)"
  by (cases m) auto

lemma ebind_eq_Inl [result_elims]:
  "ebind m f = Inl e \<longleftrightarrow> m = Inl e \<or> (\<exists>a. m = Inr a \<and> f a = Inl e)"
  by (cases m) auto

text \<open>The same with a state that the calls thread through: the state reached is kept on failure.\<close>

fun sbind :: "('e + 'a) \<times> 's \<Rightarrow> ('a \<Rightarrow> 's \<Rightarrow> ('e + 'b) \<times> 's) \<Rightarrow> ('e + 'b) \<times> 's" where
  "sbind (Inl e, s) f = (Inl e, s)"
| "sbind (Inr a, s) f = f a s"

lemma sbind_cong [fundef_cong]:
  "m = m' \<Longrightarrow> (\<And>a s. m' = (Inr a, s) \<Longrightarrow> f a s = f' a s) \<Longrightarrow> sbind m f = sbind m' f'"
  by (cases "(m', f')" rule: sbind.cases) auto

lemma sbind_eq_Inr [result_elims]:
  "sbind m f = (Inr b, t) \<longleftrightarrow> (\<exists>a s. m = (Inr a, s) \<and> f a s = (Inr b, t))"
  by (cases "(m, f)" rule: sbind.cases) auto

lemma sbind_eq_Inl [result_elims]:
  "sbind m f = (Inl e, t) \<longleftrightarrow> m = (Inl e, t) \<or> (\<exists>a s. m = (Inr a, s) \<and> f a s = (Inl e, t))"
  by (cases "(m, f)" rule: sbind.cases) auto

lemma sbind_cases:
  assumes "sbind m f = (r, t)"
  obtains e where "m = (Inl e, t)" and "r = Inl e"
    | a s where "m = (Inr a, s)" and "f a s = (r, t)"
  using assms by (cases "(m, f)" rule: sbind.cases) auto

section \<open>Loops over lists\<close>

text \<open>A loop that computes one value per element and stops at the first failure.\<close>

fun emap :: "('a \<Rightarrow> 'e + 'b) \<Rightarrow> 'a list \<Rightarrow> 'e + 'b list" where
  "emap f [] = Inr []"
| "emap f (x # xs) = ebind (f x) (\<lambda>y. ebind (emap f xs) (\<lambda>ys. Inr (y # ys)))"

lemma emap_cong [fundef_cong]:
  "xs = ys \<Longrightarrow> (\<And>x. x \<in> set ys \<Longrightarrow> f x = g x) \<Longrightarrow> emap f xs = emap g ys"
  by (induction ys arbitrary: xs) auto

lemma emap_eq_Inr:
  "emap f xs = Inr ys \<longleftrightarrow> list_all2 (\<lambda>x y. f x = Inr y) xs ys"
  by (induction xs arbitrary: ys) (auto simp: ebind_eq_Inr list_all2_Cons1)

lemma emap_length: "emap f xs = Inr ys \<Longrightarrow> length ys = length xs"
  by (simp add: emap_eq_Inr list_all2_lengthD)

lemma emap_nth: "emap f xs = Inr ys \<Longrightarrow> i < length xs \<Longrightarrow> f (xs ! i) = Inr (ys ! i)"
  by (auto simp: emap_eq_Inr dest: list_all2_nthD)

lemma emap_Inl_ex: "emap f xs = Inl e \<Longrightarrow> \<exists>x\<in>set xs. f x = Inl e"
  by (induction xs) (auto simp: ebind_eq_Inl)

lemma emap_all_Inr: "(\<And>x. x \<in> set xs \<Longrightarrow> f x = Inr (g x)) \<Longrightarrow> emap f xs = Inr (map g xs)"
  by (induction xs) auto

text \<open>A loop that threads an accumulator and stops at the first failure.\<close>

fun efold :: "('a \<Rightarrow> 's \<Rightarrow> 'e + 's) \<Rightarrow> 'a list \<Rightarrow> 's \<Rightarrow> 'e + 's" where
  "efold f [] s = Inr s"
| "efold f (x # xs) s = ebind (f x s) (efold f xs)"

lemma efold_append: "efold f (xs @ ys) s = ebind (efold f xs s) (efold f ys)"
proof (induction xs arbitrary: s)
  case (Cons x xs)
  then show ?case by (cases "f x s") auto
qed simp

text \<open>A loop that threads a state which survives the failure.\<close>

fun sfold :: "('a \<Rightarrow> 'v \<Rightarrow> 's \<Rightarrow> ('e + 'v) \<times> 's) \<Rightarrow> 'a list \<Rightarrow> 'v \<Rightarrow> 's \<Rightarrow> ('e + 'v) \<times> 's" where
  "sfold f [] v s = (Inr v, s)"
| "sfold f (x # xs) v s = sbind (f x v s) (sfold f xs)"

text \<open>An invariant of the body is an invariant of the loop, whether it ends or fails.\<close>

lemma sfold_state_invariant:
  assumes "\<And>x v s r s'. x \<in> set xs \<Longrightarrow> I s \<Longrightarrow> f x v s = (r, s') \<Longrightarrow> I s'"
    and "I s" and "sfold f xs v s = (r, s')"
  shows "I s'"
  using assms
proof (induction xs arbitrary: v s)
  case Nil
  then show ?case by simp
next
  case (Cons x xs)
  obtain q t where step: "f x v s = (q, t)" by (cases "f x v s")
  then have "I t" using Cons.prems(1) [of x s v q t] Cons.prems(2) by simp
  show ?case
  proof (cases q)
    case (Inl e)
    with step \<open>I t\<close> Cons.prems(3) show ?thesis by simp
  next
    case (Inr u)
    with step Cons.prems(3) have "sfold f xs u t = (r, s')" by simp
    with \<open>I t\<close> show ?thesis using Cons.IH [of t u] Cons.prems(1) by (meson list.set_intros(2))
  qed
qed

section \<open>Association lists as Go maps\<close>

text \<open>
  A Go map is an association list with distinct keys. The order of the list stands for the order in
  which \<^verbatim>\<open>range\<close> happens to visit the entries: the runtime does not fix it, so facts
  about a loop over a map are proved for every list.
\<close>

abbreviation go_map :: "('k \<times> 'v) list \<Rightarrow> bool" where
  "go_map m \<equiv> distinct (map fst m)"

lemma go_map_same_entries:
  assumes "go_map m" and "go_map m'" and "set m = set m'"
  shows "map_of m = map_of m'"
proof
  fix k
  show "map_of m k = map_of m' k"
  proof (cases "map_of m k")
    case None
    then show ?thesis using assms(3) by (metis map_of_eq_None_iff)
  next
    case (Some v)
    then have "(k, v) \<in> set m'" using assms(3) map_of_SomeD by fastforce
    then show ?thesis using assms(2) Some by simp
  qed
qed

end
