(* ===== verification/GoStrings.thy ===== *)
theory GoStrings
  imports Prelude "HOL-Library.Char_ord" "HOL-Library.List_Lexorder"
begin

text \<open>
  The functions of the Go standard library that the controller applies to strings: packages
  \<^verbatim>\<open>strings\<close>, \<^verbatim>\<open>strconv\<close>, \<^verbatim>\<open>fmt\<close> (the \<^verbatim>\<open>%d\<close> verb) and
  \<^verbatim>\<open>path/filepath\<close> on Unix. A \<open>char\<close> stands for a Unicode code point below 256, so a
  \<open>string\<close> is a Go string over the Latin-1 range; comparing code points orders such strings as
  comparing their UTF-8 bytes does, which is what \<^verbatim>\<open>sort.Strings\<close> needs.
\<close>

section \<open>Package strings\<close>

definition has_prefix :: "string \<Rightarrow> string \<Rightarrow> bool" where
  "has_prefix s p \<longleftrightarrow> take (length p) s = p"

definition trim_prefix :: "string \<Rightarrow> string \<Rightarrow> string" where
  "trim_prefix s p = (if has_prefix s p then drop (length p) s else s)"

lemma trim_prefix_append [simp]: "trim_prefix (p @ s) p = s"
  by (simp add: trim_prefix_def has_prefix_def)

text \<open>\<^verbatim>\<open>strings.Split\<close> with a separator of one character: never the empty list.\<close>

fun split_on :: "char \<Rightarrow> string \<Rightarrow> string list" where
  "split_on c [] = [[]]"
| "split_on c (x # xs) =
     (if x = c then [] # split_on c xs
      else (case split_on c xs of [] \<Rightarrow> [[x]] | y # ys \<Rightarrow> (x # y) # ys))"

fun join_with :: "string \<Rightarrow> string list \<Rightarrow> string" where
  "join_with sep [] = []"
| "join_with sep [x] = x"
| "join_with sep (x # y # ys) = x @ sep @ join_with sep (y # ys)"

lemma split_on_not_Nil [simp]: "split_on c s \<noteq> []"
  by (induction s) (auto split: list.splits)

lemma split_on_absent: "c \<notin> set s \<Longrightarrow> split_on c s = [s]"
  by (induction s) auto

lemma split_on_append [go_string_simps]:
  "split_on c (xs @ c # ys) = split_on c xs @ split_on c ys"
  by (induction xs) (auto split: list.splits)

lemma split_on_parts: "p \<in> set (split_on c s) \<Longrightarrow> c \<notin> set p"
proof (induction s arbitrary: p)
  case Nil
  then show ?case by simp
next
  case (Cons x xs)
  obtain y ys where "split_on c xs = y # ys" by (cases "split_on c xs") auto
  with Cons show ?case by (auto split: if_splits)
qed

lemma split_on_chars: "p \<in> set (split_on c s) \<Longrightarrow> set p \<subseteq> set s"
proof (induction s arbitrary: p)
  case Nil
  then show ?case by simp
next
  case (Cons x xs)
  obtain y ys where "split_on c xs = y # ys" by (cases "split_on c xs") auto
  with Cons show ?case by (force split: if_splits)
qed

lemma join_with_Cons: "xs \<noteq> [] \<Longrightarrow> join_with sep (x # xs) = x @ sep @ join_with sep xs"
  by (cases xs) auto

lemma join_split: "join_with [c] (split_on c s) = s"
proof (induction s)
  case Nil
  then show ?case by simp
next
  case (Cons x xs)
  obtain y ys where s: "split_on c xs = y # ys" by (cases "split_on c xs") auto
  with Cons show ?case by (cases ys) (auto simp: join_with_Cons)
qed

lemma split_join:
  "xs \<noteq> [] \<Longrightarrow> \<forall>x\<in>set xs. c \<notin> set x \<Longrightarrow> split_on c (join_with [c] xs) = xs"
  by (induction "[c]" xs rule: join_with.induct) (auto simp: split_on_absent split_on_append)

text \<open>
  \<^verbatim>\<open>strings.TrimSpace\<close>: below code point 256 the Unicode white space is tab, line feed,
  vertical tab, form feed, carriage return, space, U+0085 and U+00A0.
\<close>

definition is_space :: "char \<Rightarrow> bool" where
  "is_space c \<longleftrightarrow> (let n = (of_char c :: nat) in (9 \<le> n \<and> n \<le> 13) \<or> n = 32 \<or> n = 133 \<or> n = 160)"

definition trim_space :: "string \<Rightarrow> string" where
  "trim_space s = rev (dropWhile is_space (rev (dropWhile is_space s)))"

lemma trim_space_no_space: "\<forall>c\<in>set s. \<not> is_space c \<Longrightarrow> trim_space s = s"
proof -
  have id: "dropWhile is_space xs = xs" if "\<forall>c\<in>set xs. \<not> is_space c" for xs
    using that by (cases xs) auto
  assume "\<forall>c\<in>set s. \<not> is_space c"
  then show ?thesis by (simp add: trim_space_def id)
qed

lemma trim_space_subset: "set (trim_space s) \<subseteq> set s"
  by (auto simp: trim_space_def dest!: set_dropWhileD)

section \<open>Package strconv and the verb \<open>%d\<close>\<close>

definition parse_bool :: "string \<Rightarrow> bool option" where
  "parse_bool s =
     (if s \<in> {''1'', ''t'', ''T'', ''TRUE'', ''true'', ''True''} then Some True
      else if s \<in> {''0'', ''f'', ''F'', ''FALSE'', ''false'', ''False''} then Some False
      else None)"

definition is_digit :: "char \<Rightarrow> bool" where
  "is_digit c \<longleftrightarrow> 48 \<le> (of_char c :: nat) \<and> (of_char c :: nat) \<le> 57"

definition digit_char :: "nat \<Rightarrow> char" where
  "digit_char d = char_of (48 + d)"

fun show_nat :: "nat \<Rightarrow> string" where
  "show_nat n = (if n < 10 then [digit_char n] else show_nat (n div 10) @ [digit_char (n mod 10)])"

declare show_nat.simps [simp del]

definition show_int :: "int \<Rightarrow> string" where
  "show_int i = (if i < 0 then CHR ''-'' # show_nat (nat (- i)) else show_nat (nat i))"

definition digits_value :: "string \<Rightarrow> nat" where
  "digits_value ds = foldl (\<lambda>v c. 10 * v + (of_char c - 48)) 0 ds"

text \<open>\<^verbatim>\<open>strconv.Atoi\<close> on a 64-bit platform: an optional sign, decimal digits, in range.\<close>

definition atoi :: "string \<Rightarrow> int option" where
  "atoi s =
     (let neg = (s \<noteq> [] \<and> hd s = CHR ''-'');
          ds = (if s \<noteq> [] \<and> hd s \<in> {CHR ''-'', CHR ''+''} then tl s else s);
          v = (if neg then - int (digits_value ds) else int (digits_value ds))
      in if ds = [] \<or> \<not> list_all is_digit ds then None
         else if - (2 ^ 63) \<le> v \<and> v < 2 ^ 63 then Some v else None)"

lemma of_digit_char: "d < 10 \<Longrightarrow> (of_char (digit_char d) :: nat) = 48 + d"
  by (simp add: digit_char_def of_char_of)

lemma is_digit_digit_char [simp]: "d < 10 \<Longrightarrow> is_digit (digit_char d)"
  by (simp add: is_digit_def of_digit_char)

lemma show_nat_digits: "list_all is_digit (show_nat n)"
  by (induction n rule: show_nat.induct) (subst show_nat.simps, auto)

lemma show_nat_not_Nil [simp]: "show_nat n \<noteq> []"
  by (subst show_nat.simps) auto

lemma digits_value_snoc: "digits_value (ds @ [c]) = 10 * digits_value ds + (of_char c - 48)"
  by (simp add: digits_value_def)

lemma digits_value_show_nat: "digits_value (show_nat n) = n"
proof (induction n rule: show_nat.induct)
  case (1 n)
  then show ?case
    by (cases "n < 10")
       (simp_all add: show_nat.simps [of n] digits_value_snoc of_digit_char digits_value_def)
qed

lemma hd_show_nat: "is_digit (hd (show_nat n))"
  using show_nat_digits [of n] by (cases "show_nat n") auto

lemma not_is_digit_sign [simp]: "\<not> is_digit CHR ''-''" "\<not> is_digit CHR ''+''"
  by (simp_all add: is_digit_def)

text \<open>Printing a number and reading it back gives the number.\<close>

lemma atoi_show_int:
  assumes "- (2 ^ 63) \<le> i" and "i < 2 ^ 63"
  shows "atoi (show_int i) = Some i"
proof -
  have sign: "hd (show_nat n) \<noteq> CHR ''-''" "hd (show_nat n) \<noteq> CHR ''+''" for n
    using hd_show_nat [of n] not_is_digit_sign by metis+
  show ?thesis
    using assms show_nat_digits
    by (cases "i < 0") (auto simp: atoi_def show_int_def Let_def sign digits_value_show_nat)
qed

section \<open>Package path/filepath\<close>

definition clean_step :: "bool \<Rightarrow> string \<Rightarrow> string list \<Rightarrow> string list" where
  "clean_step rooted e st =
     (if e = [] \<or> e = ''.'' then st
      else if e = ''..'' then
        (case st of
           [] \<Rightarrow> if rooted then [] else [''..'']
         | t # ts \<Rightarrow> if t = ''..'' then ''..'' # st else ts)
      else e # st)"

definition path_clean :: "string \<Rightarrow> string" where
  "path_clean p =
     (if p = [] then ''.''
      else let rooted = (hd p = CHR ''/'');
               st = rev (fold (clean_step rooted) (split_on CHR ''/'' p) [])
           in if rooted then CHR ''/'' # join_with ''/'' st
              else if st = [] then ''.'' else join_with ''/'' st)"

definition path_join :: "string list \<Rightarrow> string" where
  "path_join es =
     (let fs = dropWhile (\<lambda>e. e = []) es in if fs = [] then [] else path_clean (join_with ''/'' fs))"

definition path_base :: "string \<Rightarrow> string" where
  "path_base p =
     (if p = [] then ''.''
      else let q = rev (dropWhile (\<lambda>c. c = CHR ''/'') (rev p));
               b = last (split_on CHR ''/'' q)
           in if b = [] then ''/'' else b)"

text \<open>A file name that is one path element on its own.\<close>

definition plain_name :: "string \<Rightarrow> bool" where
  "plain_name f \<longleftrightarrow> f \<notin> {[], ''.'', ''..''} \<and> CHR ''/'' \<notin> set f"

lemma plain_nameI:
  "CHR ''/'' \<notin> set f \<Longrightarrow> 3 \<le> length f \<Longrightarrow> plain_name f"
  by (auto simp: plain_name_def)

lemma clean_step_plain [go_string_simps]: "plain_name e \<Longrightarrow> clean_step r e st = e # st"
  by (auto simp: clean_step_def plain_name_def)

lemma join_with_snoc: "xs \<noteq> [] \<Longrightarrow> join_with sep (xs @ [x]) = join_with sep xs @ sep @ x"
  by (induction sep xs rule: join_with.induct) (auto simp: join_with_Cons)

text \<open>Joining a clean rooted directory and a plain file name appends the name.\<close>

lemma fold_clean_plain:
  "\<forall>e\<in>set es. plain_name e \<Longrightarrow> fold (clean_step r) es st = rev es @ st"
  by (induction es arbitrary: st) (auto simp: clean_step_plain)

lemma path_join_plain:
  assumes "ds \<noteq> []" and "\<forall>d\<in>set ds. plain_name d" and "plain_name f"
  shows "path_join [CHR ''/'' # join_with ''/'' ds, f] = CHR ''/'' # join_with ''/'' ds @ CHR ''/'' # f"
proof -
  have sp: "split_on CHR ''/'' (CHR ''/'' # join_with ''/'' ds @ CHR ''/'' # f) = [] # ds @ [f]"
    using assms by (auto simp: split_on_append split_join split_on_absent plain_name_def)
  have "fold (clean_step True) ([] # ds @ [f]) [] = rev (ds @ [f])"
    using assms fold_clean_plain [of "ds @ [f]" True "[]"] by (auto simp: clean_step_def)
  then show ?thesis
    using assms sp by (simp add: path_join_def path_clean_def Let_def join_with_snoc)
qed

lemma path_base_plain:
  assumes "plain_name f"
  shows "path_base (d @ CHR ''/'' # f) = f"
proof -
  from assms obtain c cs where f: "rev f = c # cs" and "c \<noteq> CHR ''/''"
    by (cases "rev f") (auto simp: plain_name_def)
  then have "dropWhile (\<lambda>c. c = CHR ''/'') (rev (d @ CHR ''/'' # f)) = rev (d @ CHR ''/'' # f)"
    by simp
  then show ?thesis
    using assms by (simp add: path_base_def split_on_append split_on_absent plain_name_def)
qed

end
