(* ===== verification/KErrors.thy ===== *)
theory KErrors
  imports GoStrings
begin

text \<open>
  Package \<^verbatim>\<open>internal/errors\<close>: the controller's own error types, their constructors and
  their tests, together with the errors of the other packages the controller passes on (formatted
  errors, errors of the API client, of the file system and of a finished process). A call of the
  controller fails with a \<open>fault\<close>: a returned error, a run-time panic, or the end of the process
  that \<^verbatim>\<open>klog.Fatal\<close> brings about.
\<close>

datatype go_error =
    ErrMissingAnnotations
  | ErrInvalidAnnotationName
  | RiskyAnnotationError string
  | ValidationError string
  | InvalidContentError string
  | InvalidIngressContentError string
  | InvalidAnnotationContentError string
  | MissResourcesError string
  | OtherNotSatisfiableError string
  | Errorf string               \<comment> \<open>\<^verbatim>\<open>fmt.Errorf\<close> and \<^verbatim>\<open>errors.New\<close>\<close>
  | ApiNotFound string          \<comment> \<open>an API status error with reason NotFound\<close>
  | ApiError string             \<comment> \<open>any other error of the API client\<close>
  | PathError string            \<comment> \<open>an error of package os\<close>
  | ExitError string            \<comment> \<open>\<^verbatim>\<open>*exec.ExitError\<close>: the process ended with a failure status\<close>

text \<open>The method \<^verbatim>\<open>Error\<close>.\<close>

fun error_text :: "go_error \<Rightarrow> string" where
  "error_text ErrMissingAnnotations = ''ingress rule without annotations''"
| "error_text ErrInvalidAnnotationName = ''invalid annotation name''"
| "error_text (RiskyAnnotationError r) = r"
| "error_text (ValidationError r) = r"
| "error_text (InvalidContentError n) = n"
| "error_text (InvalidIngressContentError n) = n"
| "error_text (InvalidAnnotationContentError n) = n"
| "error_text (MissResourcesError n) = n"
| "error_text (OtherNotSatisfiableError m) = m"
| "error_text (Errorf m) = m"
| "error_text (ApiNotFound m) = m"
| "error_text (ApiError m) = m"
| "error_text (PathError m) = m"
| "error_text (ExitError m) = m"

definition NewRiskyAnnotations :: "string \<Rightarrow> go_error" where
  "NewRiskyAnnotations name =
     RiskyAnnotationError (''annotation group '' @ name @
       '' contains risky annotation based on ingress configuration'')"

definition NewValidationError :: "string \<Rightarrow> go_error" where
  "NewValidationError annotation =
     ValidationError (''annotation '' @ annotation @ '' contains invalid value'')"

definition NewInvalidContent :: "string \<Rightarrow> string \<Rightarrow> go_error" where
  "NewInvalidContent name v =
     InvalidContentError (''the annotation '' @ name @ '' does not contain a valid value ('' @ v @ '')'')"

definition NewInvalidIngressContent :: "string \<Rightarrow> string \<Rightarrow> go_error" where
  "NewInvalidIngressContent name v =
     InvalidIngressContentError (''the ingress '' @ name @ '' does not contain a valid value ('' @ v @ '')'')"

definition NewInvalidAnnotationsContentError :: "string \<Rightarrow> string \<Rightarrow> go_error" where
  "NewInvalidAnnotationsContentError name v =
     InvalidAnnotationContentError (''the annotation '' @ name @ '' does not contain a valid value ('' @ v @ '')'')"

definition NewIsMissResourcesError :: "string \<Rightarrow> go_error" where
  "NewIsMissResourcesError name = MissResourcesError (''service resouce '' @ name @ '' not found.'')"

definition NewNotSatisfiableError :: "string \<Rightarrow> go_error" where
  "NewNotSatisfiableError msg = OtherNotSatisfiableError msg"

fun IsMissingAnnotations :: "go_error \<Rightarrow> bool" where
  "IsMissingAnnotations ErrMissingAnnotations = True"
| "IsMissingAnnotations _ = False"

fun IsValidationError :: "go_error \<Rightarrow> bool" where
  "IsValidationError (ValidationError _) = True"
| "IsValidationError _ = False"

fun IsInvalidIngressContentError :: "go_error \<Rightarrow> bool" where
  "IsInvalidIngressContentError (InvalidIngressContentError _) = True"
| "IsInvalidIngressContentError _ = False"

fun IsInvalidAnnotationsContentError :: "go_error \<Rightarrow> bool" where
  "IsInvalidAnnotationsContentError (InvalidAnnotationContentError _) = True"
| "IsInvalidAnnotationsContentError _ = False"

fun IsMissResourcesError :: "go_error \<Rightarrow> bool" where
  "IsMissResourcesError (MissResourcesError _) = True"
| "IsMissResourcesError _ = False"

fun IsNotSatisfiableError :: "go_error \<Rightarrow> bool" where
  "IsNotSatisfiableError (OtherNotSatisfiableError _) = True"
| "IsNotSatisfiableError _ = False"

text \<open>\<^verbatim>\<open>errors.IsNotFound\<close> of the API machinery, on the errors above.\<close>

fun IsNotFound :: "go_error \<Rightarrow> bool" where
  "IsNotFound (ApiNotFound _) = True"
| "IsNotFound _ = False"

lemmas kerr_defs =
  NewRiskyAnnotations_def NewValidationError_def NewInvalidContent_def NewInvalidIngressContent_def
  NewInvalidAnnotationsContentError_def NewIsMissResourcesError_def NewNotSatisfiableError_def

section \<open>Faults\<close>

datatype panic = NilDereference | IndexOutOfRange

datatype fault =
    Err go_error
  | Panic panic
  | Exit        \<comment> \<open>\<^verbatim>\<open>klog.Fatal\<close>: the process ends, deferred calls do not run\<close>

type_synonym 'a result = "fault + 'a"

text \<open>Dereferencing a pointer and indexing a slice, with the panics of the run time.\<close>

fun deref :: "'a option \<Rightarrow> 'a result" where
  "deref None = Inl (Panic NilDereference)"
| "deref (Some a) = Inr a"

definition index :: "'a list \<Rightarrow> nat \<Rightarrow> 'a result" where
  "index xs i = (if i < length xs then Inr (xs ! i) else Inl (Panic IndexOutOfRange))"

lemma deref_eq_Inr [simp]: "deref p = Inr a \<longleftrightarrow> p = Some a"
  by (cases p) auto

lemma deref_eq_Inl [simp]: "deref p = Inl f \<longleftrightarrow> p = None \<and> f = Panic NilDereference"
  by (cases p) auto

lemma index_eq_Inr: "index xs i = Inr a \<longleftrightarrow> i < length xs \<and> a = xs ! i"
  by (auto simp: index_def)

lemma index_eq_Inl: "index xs i = Inl f \<longleftrightarrow> \<not> i < length xs \<and> f = Panic IndexOutOfRange"
  by (auto simp: index_def)

end
