(* ===== verification/ApiTypes.thy ===== *)
theory ApiTypes
  imports KErrors "HOL-Library.Word"
begin

text \<open>
  Package \<^verbatim>\<open>api/v1\<close>: the custom resource and the data the templates are rendered from. The
  Kubernetes types the resource is built of carry the fields the controller reads, under their own
  names; a pointer is an \<open>option\<close>. Package \<^verbatim>\<open>internal/config\<close>: the fixed paths.
\<close>

type_synonym int32 = "32 word"

section \<open>Kubernetes types, as far as the controller reads them\<close>

record object_key =
  ok_Name :: string
  ok_Namespace :: string

record backend_port =
  bp_Name :: string
  bp_Number :: int32

record service_backend =
  sb_Name :: string
  sb_Port :: backend_port

record ingress_backend =
  ib_Service :: "service_backend option"

record http_path =
  hp_Path :: string
  hp_PathType :: "string option"
  hp_Backend :: ingress_backend

record ingress_rule =
  ir_Host :: string
  ir_HTTP :: "http_path list option" \<comment> \<open>the pointer to the value that holds the paths\<close>

record ingress_tls =
  it_Hosts :: "string list"
  it_SecretName :: string

record service_port =
  sp_Name :: string
  sp_Port :: int32

record service =
  sv_Name :: string
  sv_Namespace :: string
  sv_Ports :: "service_port list"

type_synonym secret_data = "(string \<times> string) list"

section \<open>The custom resource\<close>

record ingress_spec =
  IngressClassName :: string
  DefaultBackend :: "ingress_backend option"
  TLS :: "ingress_tls list"
  Rules :: "ingress_rule list"

record ingress =
  ing_Name :: string
  ing_Namespace :: string
  ing_Annotations :: "(string \<times> string) list"
  ing_Spec :: ingress_spec

text \<open>Reading a key of the annotation map: the empty string when it is absent, as in Go.\<close>

definition annotation :: "ingress \<Rightarrow> string \<Rightarrow> string" where
  "annotation ing k = (case map_of (ing_Annotations ing) k of None \<Rightarrow> [] | Some v \<Rightarrow> v)"

section \<open>The data of the templates\<close>

record SSLCert =
  TlsKey :: string
  TlsCrt :: string
  TlsNoPass :: bool

text \<open>
  A back end refers to the annotations of its ingress through an interface; the type of the
  annotations is a parameter here, as the interface \<^verbatim>\<open>ParseAnnotations\<close> makes it one there.
\<close>

record 'ann backend =
  be_Name :: string
  be_IngName :: string
  be_NameSpace :: string
  be_Path :: string
  be_ServiceBackend :: "service_backend option"
  be_Port :: int32
  be_TargetPath :: string
  be_Annotations :: 'ann
  be_RewritePath :: string

record 'ann server =
  se_Name :: string
  se_NameSpace :: string
  se_HostName :: string
  se_Tls :: SSLCert
  se_Paths :: "'ann backend option list" \<comment> \<open>pointers\<close>

record 'ann configuration =
  Servers :: "'ann server option list" \<comment> \<open>pointers\<close>

definition empty_cert :: SSLCert where
  "empty_cert = \<lparr>TlsKey = [], TlsCrt = [], TlsNoPass = False\<rparr>"

section \<open>The fixed paths\<close>

definition ConfDir :: string where "ConfDir = ''/etc/nginx/conf.d''"
definition NginxTmpl :: string where "NginxTmpl = ''/rootfs/etc/nginx/template/nginx.tmpl''"
definition ServerTmpl :: string where "ServerTmpl = ''/rootfs/etc/nginx/template/server.tmpl''"
definition MainServerTmpl :: string where "MainServerTmpl = ''/rootfs/etc/nginx/template/mainServer.tmpl''"
definition DefaultTmpl :: string where "DefaultTmpl = ''/rootfs/etc/nginx/template/defaultBackend.tmpl''"
definition SslPath :: string where "SslPath = ''/etc/nginx/ssl''"
definition TlsCrtName :: string where "TlsCrtName = ''tls.crt''"
definition TlsKeyName :: string where "TlsKeyName = ''tls.key''"
definition Pid :: string where "Pid = ''/var/run/nginx.pid''"
definition Bin :: string where "Bin = ''/usr/sbin/nginx''"
definition MainConf :: string where "MainConf = ''/etc/nginx/nginx.conf''"

end
