(* ===== verification/GoRegex.thy ===== *)
theory GoRegex
  imports GoStrings
begin

text \<open>
  Package \<^verbatim>\<open>regexp\<close> as far as the controller's patterns need it: literals, character
  classes, \<open>.\<close> (any character but a line feed), the anchors \<open>^\<close> and \<open>$\<close> without the \<open>m\<close> flag,
  sequence, alternation and the greedy operators. \<open>pm\<close> enumerates every way to match, most preferred
  first, so its head is the leftmost-first match Go reports; \<open>rmatch\<close> is the declarative meaning,
  and \<open>pm_iff_rmatch\<close> relates the two. A position is the text still to be read and a flag that tells
  whether it is the beginning of the text.
\<close>

type_synonym pos = "bool \<times> string"

datatype re =
    Eps
  | Cls bool "(char \<times> char) list" \<comment> \<open>negated?, ranges\<close>
  | Bol
  | Eol
  | Seq re re
  | Alt re re
  | Star re

abbreviation Plus :: "re \<Rightarrow> re" where "Plus r \<equiv> Seq r (Star r)"
abbreviation One :: "char \<Rightarrow> re" where "One c \<equiv> Cls False [(c, c)]"
abbreviation Dot :: re where "Dot \<equiv> Cls True [(CHR 0x0A, CHR 0x0A)]"
abbreviation Digit :: re where "Digit \<equiv> Cls False [(CHR ''0'', CHR ''9'')]"
abbreviation Wordc :: re where
  "Wordc \<equiv> Cls False [(CHR ''0'', CHR ''9''), (CHR ''A'', CHR ''Z''), (CHR ''_'', CHR ''_''), (CHR ''a'', CHR ''z'')]"

fun Lit :: "string \<Rightarrow> re" where
  "Lit [] = Eps"
| "Lit (c # cs) = Seq (One c) (Lit cs)"

definition in_cls :: "bool \<Rightarrow> (char \<times> char) list \<Rightarrow> char \<Rightarrow> bool" where
  "in_cls neg rs c \<longleftrightarrow> neg \<noteq> list_ex (\<lambda>(a, b). a \<le> c \<and> c \<le> b) rs"

section \<open>The matcher\<close>

primrec star_pm :: "(pos \<Rightarrow> pos list) \<Rightarrow> nat \<Rightarrow> pos \<Rightarrow> pos list" where
  "star_pm f 0 x = [x]"
| "star_pm f (Suc n) x =
     concat (map (star_pm f n) (filter (\<lambda>y. length (snd y) < length (snd x)) (f x))) @ [x]"

primrec pm :: "re \<Rightarrow> pos \<Rightarrow> pos list" where
  "pm Eps x = [x]"
| "pm (Cls neg rs) x =
     (case snd x of [] \<Rightarrow> [] | c # s \<Rightarrow> if in_cls neg rs c then [(False, s)] else [])"
| "pm Bol x = (if fst x then [x] else [])"
| "pm Eol x = (if snd x = [] then [x] else [])"
| "pm (Seq r1 r2) x = concat (map (pm r2) (pm r1 x))"
| "pm (Alt r1 r2) x = pm r1 x @ pm r2 x"
| "pm (Star r) x = star_pm (pm r) (length (snd x)) x"

text \<open>The leftmost match: try each start position in turn.\<close>

fun find_from :: "re \<Rightarrow> bool \<Rightarrow> string \<Rightarrow> string option" where
  "find_from r b s =
     (case pm r (b, s) of
        y # _ \<Rightarrow> Some (take (length s - length (snd y)) s)
      | [] \<Rightarrow> (case s of [] \<Rightarrow> None | c # cs \<Rightarrow> find_from r False cs))"

declare find_from.simps [simp del]

definition find_string :: "re \<Rightarrow> string \<Rightarrow> string option" where
  "find_string r s = find_from r True s"

definition match_string :: "re \<Rightarrow> string \<Rightarrow> bool" where
  "match_string r s \<longleftrightarrow> find_string r s \<noteq> None"

section \<open>The declarative meaning\<close>

inductive rmatch :: "re \<Rightarrow> pos \<Rightarrow> pos \<Rightarrow> bool" where
  rm_eps: "rmatch Eps x x"
| rm_cls: "in_cls neg rs c \<Longrightarrow> rmatch (Cls neg rs) (b, c # s) (False, s)"
| rm_bol: "rmatch Bol (True, s) (True, s)"
| rm_eol: "rmatch Eol (b, []) (b, [])"
| rm_seq: "rmatch r1 x y \<Longrightarrow> rmatch r2 y z \<Longrightarrow> rmatch (Seq r1 r2) x z"
| rm_alt1: "rmatch r1 x y \<Longrightarrow> rmatch (Alt r1 r2) x y"
| rm_alt2: "rmatch r2 x y \<Longrightarrow> rmatch (Alt r1 r2) x y"
| rm_star0: "rmatch (Star r) x x"
| rm_star1: "rmatch r x y \<Longrightarrow> rmatch (Star r) y z \<Longrightarrow> rmatch (Star r) x z"

inductive_simps rmatch_Eps [simp]: "rmatch Eps x y"
inductive_simps rmatch_Cls: "rmatch (Cls neg rs) x y"
inductive_simps rmatch_Bol: "rmatch Bol x y"
inductive_simps rmatch_Eol: "rmatch Eol x y"
inductive_simps rmatch_Seq: "rmatch (Seq r1 r2) x y"
inductive_simps rmatch_Alt: "rmatch (Alt r1 r2) x y"
inductive_simps rmatch_Star: "rmatch (Star r) x y"

text \<open>A match either consumes nothing and keeps the position, or moves on past the beginning.\<close>

lemma rmatch_progress:
  "rmatch r x y \<Longrightarrow> y = x \<or> (\<not> fst y \<and> (\<exists>u. u \<noteq> [] \<and> snd x = u @ snd y))"
proof (induction rule: rmatch.induct)
  case (rm_seq r1 x y r2 z)
  then show ?case by (elim disjE) (force simp: append_assoc [symmetric] simp del: append_assoc)+
next
  case (rm_star1 r x y z)
  then show ?case by (elim disjE) (force simp: append_assoc [symmetric] simp del: append_assoc)+
qed auto

lemma rmatch_shorter: "rmatch r x y \<Longrightarrow> y = x \<or> length (snd y) < length (snd x)"
  using rmatch_progress by fastforce

lemma star_pm_complete:
  assumes f: "\<And>x y. y \<in> set (f x) \<longleftrightarrow> rmatch r x y"
    and m: "rmatch (Star r) x y" and n: "length (snd x) \<le> n"
  shows "y \<in> set (star_pm f n x)"
  using m n
proof (induction "Star r" x y arbitrary: n rule: rmatch.induct)
  case (rm_star0 x)
  then show ?case by (cases n) auto
next
  case (rm_star1 x y z)
  show ?case
  proof (cases "y = x")
    case True
    with rm_star1 show ?thesis by blast
  next
    case False
    with rm_star1.hyps(1) have lt: "length (snd y) < length (snd x)"
      using rmatch_shorter by blast
    with rm_star1.prems obtain k where k: "n = Suc k" "length (snd y) \<le> k"
      by (cases n) auto
    with rm_star1.hyps(3,4) have "z \<in> set (star_pm f k y)" by blast
    moreover have "y \<in> set (filter (\<lambda>y. length (snd y) < length (snd x)) (f x))"
      using f lt rm_star1.hyps(1) by simp
    ultimately show ?thesis using k(1) by (auto simp del: set_filter)
  qed
qed

lemma star_pm_sound:
  assumes f: "\<And>x y. y \<in> set (f x) \<longleftrightarrow> rmatch r x y"
  shows "y \<in> set (star_pm f n x) \<Longrightarrow> rmatch (Star r) x y"
proof (induction n arbitrary: x)
  case 0
  then show ?case by (simp add: rm_star0)
next
  case (Suc n)
  then show ?case using f by (auto intro: rm_star0 rm_star1)
qed

theorem pm_iff_rmatch: "y \<in> set (pm r x) \<longleftrightarrow> rmatch r x y"
proof (induction r arbitrary: x y)
  case (Star r)
  have "y \<in> set (star_pm (pm r) n x) \<Longrightarrow> rmatch (Star r) x y" for n
    by (rule star_pm_sound) (rule Star.IH)
  moreover have "rmatch (Star r) x y \<Longrightarrow> y \<in> set (star_pm (pm r) (length (snd x)) x)"
    by (rule star_pm_complete) (rule Star.IH, assumption, rule order_refl)
  ultimately show ?case by auto
next
  case (Cls neg rs)
  show ?case by (cases x; cases "snd x") (auto simp: rmatch_Cls)
next
  case (Seq r1 r2)
  have "y \<in> set (pm (Seq r1 r2) x) \<longleftrightarrow> (\<exists>z. z \<in> set (pm r1 x) \<and> y \<in> set (pm r2 z))"
    by (simp add: Bex_def)
  also have "\<dots> \<longleftrightarrow> rmatch (Seq r1 r2) x y"
    using Seq.IH by (simp add: rmatch_Seq)
  finally show ?case .
next
  case Bol
  show ?case by (cases x) (auto simp: rmatch_Bol)
next
  case Eol
  show ?case by (cases x) (auto simp: rmatch_Eol)
qed (auto simp: rmatch_Alt)

lemma ex_split_Cons:
  "(\<exists>pre suf. c # cs = pre @ suf \<and> P pre suf) \<longleftrightarrow>
   P [] (c # cs) \<or> (\<exists>pre suf. cs = pre @ suf \<and> P (c # pre) suf)"
  by (auto simp: Cons_eq_append_conv)

lemma find_from_Some_iff:
  "find_from r b s \<noteq> None \<longleftrightarrow>
   (\<exists>pre suf. s = pre @ suf \<and> (\<exists>y. rmatch r (b \<and> pre = [], suf) y))"
proof (induction s arbitrary: b)
  case Nil
  have "find_from r b [] \<noteq> None \<longleftrightarrow> pm r (b, []) \<noteq> []"
    by (simp add: find_from.simps [of r b "[]"] split: list.splits)
  also have "\<dots> \<longleftrightarrow> (\<exists>y. rmatch r (b, []) y)"
    unfolding pm_iff_rmatch [symmetric] by (metis last_in_set empty_iff empty_set)
  finally show ?case by simp
next
  case (Cons c cs)
  have "find_from r b (c # cs) \<noteq> None \<longleftrightarrow> pm r (b, c # cs) \<noteq> [] \<or> find_from r False cs \<noteq> None"
    by (simp add: find_from.simps [of r b "c # cs"] split: list.splits)
  also have "pm r (b, c # cs) \<noteq> [] \<longleftrightarrow> (\<exists>y. rmatch r (b, c # cs) y)"
    unfolding pm_iff_rmatch [symmetric] by (metis last_in_set empty_iff empty_set)
  finally show ?case
    unfolding Cons.IH ex_split_Cons by simp
qed

theorem match_string_iff:
  "match_string r s \<longleftrightarrow> (\<exists>pre suf. s = pre @ suf \<and> (\<exists>y. rmatch r (pre = [], suf) y))"
  using find_from_Some_iff [of r True s] by (simp add: match_string_def find_string_def)

text \<open>A pattern that starts with the anchor can only match at the beginning.\<close>

lemma match_string_anchored:
  "match_string (Seq Bol r) s \<longleftrightarrow> (\<exists>y. rmatch r (True, s) y)"
proof -
  have "rmatch (Seq Bol r) (b, t) y \<longleftrightarrow> b \<and> rmatch r (True, t) y" for b t y
    by (cases b) (auto simp: rmatch_Seq rmatch_Bol intro: exI [of _ True])
  then show ?thesis by (simp add: match_string_iff)
qed

section \<open>Composite patterns\<close>

lemma rmatch_Lit: "rmatch (Lit u) (b, s) y \<longleftrightarrow> (\<exists>t. s = u @ t \<and> y = (b \<and> u = [], t))"
proof (induction u arbitrary: b s)
  case (Cons c u)
  then show ?case by (cases s) (auto simp: rmatch_Seq rmatch_Cls in_cls_def)
qed auto

lemma rmatch_star_cls:
  "rmatch (Star (Cls neg rs)) (b, s) y \<longleftrightarrow>
   (\<exists>u t. s = u @ t \<and> list_all (in_cls neg rs) u \<and> y = (b \<and> u = [], t))"
  (is "?L b s \<longleftrightarrow> ?R b s")
proof
  assume "?L b s"
  then show "?R b s"
  proof (induction "Star (Cls neg rs)" "(b, s)" y arbitrary: b s rule: rmatch.induct)
    case rm_star0
    show ?case by (rule exI [of _ "[]"]) auto
  next
    case (rm_star1 y z)
    from rm_star1.hyps(1) obtain c s' where "s = c # s'" "in_cls neg rs c" "y = (False, s')"
      by (auto simp: rmatch_Cls)
    moreover from this rm_star1.hyps(3) [of False s'] obtain u t
      where "s' = u @ t" "list_all (in_cls neg rs) u" "z = (False, t)" by auto
    ultimately show ?case by (intro exI [of _ "c # u"] exI [of _ t]) simp
  qed
next
  have "rmatch (Star (Cls neg rs)) (b, u @ t) (b \<and> u = [], t)"
    if "list_all (in_cls neg rs) u" for u t
    using that
  proof (induction u arbitrary: b)
    case Nil
    then show ?case by (simp add: rm_star0)
  next
    case (Cons c u)
    then have "rmatch (Cls neg rs) (b, c # u @ t) (False, u @ t)" by (simp add: rm_cls)
    moreover have "rmatch (Star (Cls neg rs)) (False, u @ t) (False, t)"
      using Cons.IH [of False] Cons.prems by simp
    ultimately show ?case by (simp add: rm_star1)
  qed
  then show "?R b s \<Longrightarrow> ?L b s" by blast
qed

lemma rmatch_plus_cls:
  "rmatch (Plus (Cls neg rs)) (b, s) y \<longleftrightarrow>
   (\<exists>u t. s = u @ t \<and> u \<noteq> [] \<and> list_all (in_cls neg rs) u \<and> y = (False, t))"
  (is "?L \<longleftrightarrow> ?R")
proof
  assume ?L
  then obtain x where "rmatch (Cls neg rs) (b, s) x" and *: "rmatch (Star (Cls neg rs)) x y"
    unfolding rmatch_Seq by blast
  then obtain c s' where "s = c # s'" "in_cls neg rs c" "x = (False, s')"
    by (auto simp: rmatch_Cls)
  moreover from this * obtain u t where "s' = u @ t" "list_all (in_cls neg rs) u" "y = (False, t)"
    by (auto simp: rmatch_star_cls)
  ultimately show ?R by (intro exI [of _ "c # u"] exI [of _ t]) simp
next
  assume ?R
  then obtain v t where v: "s = v @ t" "v \<noteq> []" "list_all (in_cls neg rs) v" "y = (False, t)"
    by blast
  then obtain c u where "v = c # u" by (cases v) auto
  with v have s: "s = c # u @ t" "in_cls neg rs c" "list_all (in_cls neg rs) u" "y = (False, t)"
    by simp_all
  then have "rmatch (Star (Cls neg rs)) (False, u @ t) y"
    unfolding rmatch_star_cls by blast
  moreover have "rmatch (Cls neg rs) (b, s) (False, u @ t)"
    unfolding s(1) using s(2) by (rule rm_cls)
  ultimately show ?L by (rule rm_seq [rotated])
qed

lemma in_cls_One [simp]: "in_cls False [(c, c)] d \<longleftrightarrow> d = c"
  by (auto simp: in_cls_def)

lemma in_cls_Dot [simp]: "in_cls True [(c, c)] d \<longleftrightarrow> d \<noteq> c"
  by (auto simp: in_cls_def)

lemma char_le_code: "(c :: char) \<le> d \<longleftrightarrow> (of_char c :: nat) \<le> of_char d"
  by (simp add: less_eq_char_def)

lemma in_cls_Digit [simp]: "in_cls False [(CHR ''0'', CHR ''9'')] c \<longleftrightarrow> is_digit c"
  by (simp add: in_cls_def is_digit_def char_le_code)

section \<open>Accepting a text\<close>

text \<open>
  Whether a pattern matches from a position on. The equations read a pattern from left to right and
  turn it into a statement about the characters; they are what the characterisations of the
  controller's patterns are proved with.
\<close>

definition accepts :: "re \<Rightarrow> bool \<Rightarrow> string \<Rightarrow> bool" where
  "accepts r b s \<longleftrightarrow> (\<exists>y. rmatch r (b, s) y)"

lemma match_string_Bol: "match_string (Seq Bol r) s \<longleftrightarrow> accepts r True s"
  by (simp add: match_string_anchored accepts_def)

lemma match_string_accepts:
  "match_string r s \<longleftrightarrow> (\<exists>pre suf. s = pre @ suf \<and> accepts r (pre = []) suf)"
  by (simp add: match_string_iff accepts_def)

lemma accepts_Eps [simp]: "accepts Eps b s"
  and accepts_Eol [simp]: "accepts Eol b s \<longleftrightarrow> s = []"
  and accepts_Bol [simp]: "accepts Bol b s \<longleftrightarrow> b"
  and accepts_Star [simp]: "accepts (Star r) b s"
  and accepts_Alt: "accepts (Alt r1 r2) b s \<longleftrightarrow> accepts r1 b s \<or> accepts r2 b s"
  and accepts_Cls: "accepts (Cls neg rs) b s \<longleftrightarrow> (\<exists>c t. s = c # t \<and> in_cls neg rs c)"
  by (auto simp: accepts_def rmatch_Eol rmatch_Bol rmatch_Alt rmatch_Cls intro: rm_star0)

lemma accepts_Seq: "accepts (Seq r1 r2) b s \<longleftrightarrow> (\<exists>b' t. rmatch r1 (b, s) (b', t) \<and> accepts r2 b' t)"
  by (auto simp: accepts_def rmatch_Seq)

lemma accepts_Seq_Cls:
  "accepts (Seq (Cls neg rs) r) b s \<longleftrightarrow> (\<exists>c t. s = c # t \<and> in_cls neg rs c \<and> accepts r False t)"
  by (auto simp: accepts_Seq rmatch_Cls)

lemma accepts_Seq_Star:
  "accepts (Seq (Star (Cls neg rs)) r) b s \<longleftrightarrow>
   (\<exists>u t. s = u @ t \<and> list_all (in_cls neg rs) u \<and> accepts r (b \<and> u = []) t)"
  unfolding accepts_Seq rmatch_star_cls by auto

lemma accepts_Seq_Plus:
  "accepts (Seq (Plus (Cls neg rs)) r) b s \<longleftrightarrow>
   (\<exists>u t. s = u @ t \<and> u \<noteq> [] \<and> list_all (in_cls neg rs) u \<and> accepts r False t)"
  unfolding accepts_Seq rmatch_plus_cls prod.inject by blast

lemma accepts_Plus:
  "accepts (Plus (Cls neg rs)) b s \<longleftrightarrow> (\<exists>c t. s = c # t \<and> in_cls neg rs c)"
  by (simp add: accepts_Seq_Cls)

lemma accepts_Seq_Lit:
  "accepts (Seq (Lit u) r) b s \<longleftrightarrow> (\<exists>t. s = u @ t \<and> accepts r (b \<and> u = []) t)"
  unfolding accepts_Seq rmatch_Lit by auto

lemma accepts_Seq_assoc: "accepts (Seq (Seq r1 r2) r) b s \<longleftrightarrow> accepts (Seq r1 (Seq r2 r)) b s"
  unfolding accepts_def rmatch_Seq by blast

lemma accepts_Seq_Alt:
  "accepts (Seq (Alt r1 r2) r) b s \<longleftrightarrow> accepts (Seq r1 r) b s \<or> accepts (Seq r2 r) b s"
  unfolding accepts_def rmatch_Seq rmatch_Alt by blast

lemma accepts_Seq_Bol: "accepts (Seq Bol r) b s \<longleftrightarrow> b \<and> accepts r True s"
  by (cases b) (auto simp: accepts_Seq rmatch_Bol)

lemma list_all_in_cls_Digit [simp]:
  "list_all (in_cls False [(CHR ''0'', CHR ''9'')]) u \<longleftrightarrow> list_all is_digit u"
  by (simp add: list_all_iff)

text \<open>The last round of a repeated pattern, and a match that is never empty.\<close>

lemma rmatch_Star_last:
  "rmatch (Star r) x y \<Longrightarrow> y = x \<or> (\<exists>z u. snd x = u @ snd z \<and> rmatch r z y)"
proof (induction "Star r" x y rule: rmatch.induct)
  case (rm_star1 x y z)
  then obtain u where u: "snd x = u @ snd y" using rmatch_progress by (metis append_Nil)
  from rm_star1.hyps(4) show ?case
  proof (elim disjE exE conjE)
    assume "z = y"
    with rm_star1.hyps(1) show ?thesis by (metis append_Nil)
  next
    fix m v assume "snd y = v @ snd m" "rmatch r m z"
    with u show ?thesis by (metis append_assoc)
  qed
qed simp

lemma rmatch_Plus_last:
  assumes "rmatch (Plus r) x y"
  obtains z u where "snd x = u @ snd z" and "rmatch r z y"
proof -
  from assms obtain m where m: "rmatch r x m" "rmatch (Star r) m y" by (auto simp: rmatch_Seq)
  from m(1) obtain v where v: "snd x = v @ snd m" using rmatch_progress by (metis append_Nil)
  from rmatch_Star_last [OF m(2)] show ?thesis
  proof (elim disjE exE conjE)
    assume "y = m"
    with m(1) show ?thesis by (intro that [of "[]" x]) auto
  next
    fix z u assume "snd m = u @ snd z" "rmatch r z y"
    with v show ?thesis by (intro that [of "v @ u" z]) auto
  qed
qed

lemma find_from_nonempty:
  assumes "\<And>x. \<not> rmatch r x x" and "find_from r b s = Some t"
  shows "t \<noteq> []"
  using assms(2)
proof (induction s arbitrary: b)
  case Nil
  show ?case
  proof (cases "pm r (b, [])")
    case (Cons y ys)
    then have "rmatch r (b, []) y" by (metis list.set_intros(1) pm_iff_rmatch)
    with assms(1) rmatch_shorter show ?thesis by fastforce
  qed (use Nil in \<open>simp add: find_from.simps [of r b "[]"]\<close>)
next
  case (Cons c cs)
  show ?case
  proof (cases "pm r (b, c # cs)")
    case Nil
    with Cons show ?thesis by (simp add: find_from.simps [of r b "c # cs"])
  next
    case y: (Cons y ys)
    then have "rmatch r (b, c # cs) y" by (metis list.set_intros(1) pm_iff_rmatch)
    then have "length (snd y) < length (c # cs)"
      using assms(1) rmatch_shorter by fastforce
    moreover have "t = take (length (c # cs) - length (snd y)) (c # cs)"
      using Cons.prems y by (simp add: find_from.simps [of r b "c # cs"])
    ultimately show ?thesis by simp
  qed
qed

lemmas accepts_simps =
  accepts_Alt accepts_Cls accepts_Seq_Cls accepts_Seq_Star accepts_Seq_Lit accepts_Seq_Alt
  accepts_Seq_Bol

end
