(* ===== verification/AnnParser.thy ===== *)
theory AnnParser
  imports ApiTypes GoRegex
begin

text \<open>
  Package \<^verbatim>\<open>internal/annotations/parser\<close>: the accessors of the annotation map
  (\<^verbatim>\<open>main.go\<close>), the regular expressions and the checks (\<^verbatim>\<open>validators.go\<close>), and
  the interface \<^verbatim>\<open>IngressAnnotation\<close> as a locale that every annotation group interprets.
\<close>

section \<open>Names of annotations\<close>

definition AnnotationsPrefix :: string where
  "AnnotationsPrefix = ''ingress.nginx.kubebuilder.io''"

definition TrimAnnotationPrefix :: "string \<Rightarrow> string" where
  "TrimAnnotationPrefix ann = trim_prefix ann (AnnotationsPrefix @ ''/'')"

definition GetAnnotationWithPrefix :: "string \<Rightarrow> string" where
  "GetAnnotationWithPrefix suffix = AnnotationsPrefix @ ''/'' @ suffix"

lemma trim_with_prefix: "TrimAnnotationPrefix (GetAnnotationWithPrefix s) = s"
  using trim_prefix_append [of "AnnotationsPrefix @ ''/''" s]
  by (simp add: TrimAnnotationPrefix_def GetAnnotationWithPrefix_def)

lemma GetAnnotationWithPrefix_inject [simp]:
  "GetAnnotationWithPrefix a = GetAnnotationWithPrefix b \<longleftrightarrow> a = b"
  by (simp add: GetAnnotationWithPrefix_def)

text \<open>The fields of a group: the name of each annotation and its documentation.\<close>

type_synonym annotation_fields = "(string \<times> string) list"

section \<open>The patterns\<close>

definition regex_pattern :: re where
  "regex_pattern =
     Seq Bol (Seq (One CHR ''/'')
       (Alt (Seq (Star Dot) (Seq (One CHR ''('') (Seq (Plus Dot) (Seq (One CHR '')'') (Star Dot)))))
            (Seq (Star Dot) (Seq (One CHR ''['')
              (Seq (Plus (Cls True [(CHR ''['', CHR ''[''), (CHR '']'', CHR '']'')]))
                 (Seq (One CHR '']'') (Star Dot)))))))"

definition IsRegexPatternRegex :: "string \<Rightarrow> bool" where
  "IsRegexPatternRegex str = match_string regex_pattern str"

text \<open>The class \<^verbatim>\<open>[a0-z9]\<close>: the letter a, the range from 0 to z, the digit 9.\<close>

definition dns_pattern :: re where
  "dns_pattern =
     Seq (Plus (Seq (Plus (Cls False [(CHR ''a'', CHR ''a''), (CHR ''0'', CHR ''z''), (CHR ''9'', CHR ''9'')]))
                    (One CHR ''.'')))
         (Plus (Cls False [(CHR ''a'', CHR ''z'')]))"

definition GetDnsRegex :: "string \<Rightarrow> string" where
  "GetDnsRegex str = (case find_string dns_pattern str of None \<Rightarrow> [] | Some dns \<Rightarrow> dns)"

definition target_path_pattern :: re where
  "target_path_pattern =
     Alt (Seq Bol (Seq (One CHR ''/'') (Plus Wordc)))
       (Alt (Seq Bol (Seq (Lit ''/$'') (Seq Digit Eol)))
            (Seq Bol (Seq (One CHR ''$'') (Seq Digit Eol))))"

definition IsTargetPathRegex :: "string \<Rightarrow> bool" where
  "IsTargetPathRegex str = match_string target_path_pattern str"

definition parentheses_pattern :: re where
  "parentheses_pattern =
     Seq Bol (Seq (One CHR ''/'') (Seq (Star Dot) (Seq (One CHR ''('')
       (Seq (Plus Dot) (Seq (One CHR '')'') (Star Dot))))))"

definition IsNonEmptyParenthesesRegex :: "string \<Rightarrow> bool" where
  "IsNonEmptyParenthesesRegex str = match_string parentheses_pattern str"

definition ip_pattern :: re where
  "ip_pattern =
     Seq Bol (Seq (Plus Digit) (Seq Dot
       (Seq (Seq (Seq (Plus Digit) Dot) (Seq (Plus Digit) Dot)) (Seq (Plus Digit) Eol))))"

definition PassIsIp :: "string \<Rightarrow> bool" where
  "PassIsIp target = match_string ip_pattern target"

definition IsValidHost :: "string \<Rightarrow> bool" where
  "IsValidHost host = match_string dns_pattern host"

text \<open>The prefix is spliced into the pattern as it is, so each of its dots matches any character.\<close>

definition prefix_pattern :: re where
  "prefix_pattern =
     Seq Bol (foldr (\<lambda>c r. Seq (if c = CHR ''.'' then Dot else One c) r) AnnotationsPrefix (One CHR ''/''))"

definition IsAnnotationsPrefix :: "string \<Rightarrow> bool" where
  "IsAnnotationsPrefix ann = match_string prefix_pattern ann"

definition weight_pattern :: re where
  "weight_pattern =
     Seq Bol (Seq (Lit ''weight='')
       (Seq (Alt (One CHR ''0'') (Seq (Cls False [(CHR ''1'', CHR ''9'')]) (Star Digit))) Eol))"

definition IsWeightPrefix :: "string \<Rightarrow> bool" where
  "IsWeightPrefix ann = match_string weight_pattern ann"

section \<open>Reading an annotation\<close>

definition parseString :: "(string \<times> string) list \<Rightarrow> string \<Rightarrow> go_error + string" where
  "parseString a name =
     (case map_of a name of
        Some v \<Rightarrow> if v = [] then Inl (NewInvalidContent name v) else Inr v
      | None \<Rightarrow> Inl ErrMissingAnnotations)"

definition parseStringSlice :: "(string \<times> string) list \<Rightarrow> string \<Rightarrow> go_error + string list" where
  "parseStringSlice a name =
     (case map_of a name of
        Some v \<Rightarrow> if v = [] then Inl (NewInvalidContent name v) else Inr []
      | None \<Rightarrow> Inl ErrMissingAnnotations)"

definition parseBool :: "(string \<times> string) list \<Rightarrow> string \<Rightarrow> go_error + bool" where
  "parseBool a name =
     (case map_of a name of
        Some v \<Rightarrow> (case parse_bool v of None \<Rightarrow> Inl (NewInvalidContent name v) | Some b \<Rightarrow> Inr b)
      | None \<Rightarrow> Inl ErrMissingAnnotations)"

text \<open>The ingress is never nil where the code calls this.\<close>

definition CheckAnnotationsKey :: "string \<Rightarrow> ingress \<Rightarrow> annotation_fields \<Rightarrow> go_error + string" where
  "CheckAnnotationsKey name ing field =
     (if length (ing_Annotations ing) = 0 then Inl ErrMissingAnnotations
      else let annotationFullName = GetAnnotationWithPrefix name
           in if annotation ing annotationFullName = [] then Inl (NewValidationError annotationFullName)
              else Inr annotationFullName)"

definition GetStringAnnotation :: "string \<Rightarrow> ingress \<Rightarrow> annotation_fields \<Rightarrow> go_error + string" where
  "GetStringAnnotation name ing field =
     ebind (CheckAnnotationsKey name ing field) (\<lambda>key. parseString (ing_Annotations ing) key)"

definition GetBoolAnnotations :: "string \<Rightarrow> ingress \<Rightarrow> annotation_fields \<Rightarrow> go_error + bool" where
  "GetBoolAnnotations name ing field =
     ebind (CheckAnnotationsKey name ing field) (\<lambda>key. parseBool (ing_Annotations ing) key)"

text \<open>
  A group assigns the value and the error at once and goes on when there is an error; the value is
  then the zero value of its type.
\<close>

definition or_empty :: "go_error + string \<Rightarrow> string" where
  "or_empty r = (case r of Inl _ \<Rightarrow> [] | Inr v \<Rightarrow> v)"

definition or_false :: "go_error + bool \<Rightarrow> bool" where
  "or_false r = (case r of Inl _ \<Rightarrow> False | Inr b \<Rightarrow> b)"

definition errors_join :: "go_error option \<Rightarrow> go_error \<Rightarrow> go_error option" where
  "errors_join err e =
     Some (case err of None \<Rightarrow> e | Some d \<Rightarrow> Errorf (error_text d @ [CHR 0x0A] @ error_text e))"

definition CheckAnnotations :: "(string \<times> string) list \<Rightarrow> annotation_fields \<Rightarrow> go_error option" where
  "CheckAnnotations annotations config =
     fold (\<lambda>(ann, _) err.
             if \<not> IsAnnotationsPrefix ann then err
             else (case map_of config (TrimAnnotationPrefix ann) of
                     Some doc \<Rightarrow>
                       if doc = [] then errors_join err (Errorf (''annotation '' @ ann @ '' have no description''))
                       else err
                   | None \<Rightarrow> err))
       annotations None"

section \<open>What the patterns accept\<close>

lemma PassIsIp_iff:
  "PassIsIp s \<longleftrightarrow>
   (\<exists>a x b y c z d. s = a @ x # b @ y # c @ z # d \<and>
      (\<forall>u\<in>{a, b, c, d}. u \<noteq> [] \<and> list_all is_digit u) \<and> CHR 0x0A \<notin> {x, y, z})"
  (is "_ \<longleftrightarrow> ?R")
proof -
  have dot: "accepts (Seq (Plus Digit) Eol) b t \<longleftrightarrow> t \<noteq> [] \<and> list_all is_digit t" for b t
    by (auto simp: accepts_Seq_Plus)
  have "PassIsIp s \<longleftrightarrow>
      accepts (Seq (Plus Digit) (Seq Dot (Seq (Plus Digit) (Seq Dot (Seq (Plus Digit) (Seq Dot
        (Seq (Plus Digit) Eol))))))) True s"
    unfolding PassIsIp_def ip_pattern_def match_string_Bol
    by (simp only: accepts_Seq_Plus accepts_Seq_Cls accepts_Seq_assoc [of "Seq (Plus Digit) Dot"]
        accepts_Seq_assoc [of "Plus Digit" Dot])
  also have "\<dots> \<longleftrightarrow> ?R"
    by (simp only: accepts_Seq_Plus accepts_Seq_Cls accepts_Eol in_cls_Dot list_all_in_cls_Digit)
       (auto, (metis append.right_neutral)?, fastforce?)
  finally show ?thesis .
qed

text \<open>A weight is \<open>weight=\<close> and a decimal number without leading zeros.\<close>

lemma IsWeightPrefix_iff:
  "IsWeightPrefix s \<longleftrightarrow>
   (\<exists>v. s = ''weight='' @ v \<and>
      (v = ''0'' \<or> (\<exists>d ds. v = d # ds \<and> is_digit d \<and> d \<noteq> CHR ''0'' \<and> list_all is_digit ds)))"
proof -
  have nz: "in_cls False [(CHR ''1'', CHR ''9'')] d \<longleftrightarrow> is_digit d \<and> d \<noteq> CHR ''0''" for d
  proof -
    have "(of_char d :: nat) \<noteq> 48 \<longleftrightarrow> d \<noteq> CHR ''0''"
      using of_char_eq_iff [of d "CHR ''0''", where ?'a = nat] by simp
    then show ?thesis by (auto simp: in_cls_def is_digit_def char_le_code)
  qed
  show ?thesis
    unfolding IsWeightPrefix_def weight_pattern_def match_string_Bol accepts_Seq_Lit
    by (auto simp: accepts_simps accepts_Seq_assoc nz)
qed

text \<open>
  A path counts as a regular expression when, on the first line after the slash, something stands
  in parentheses, or a character class without brackets inside it follows.
\<close>

lemma IsRegexPatternRegex_iff:
  "IsRegexPatternRegex s \<longleftrightarrow>
   (\<exists>a m z. s = CHR ''/'' # a @ CHR ''('' # m @ CHR '')'' # z \<and> m \<noteq> [] \<and> CHR 0x0A \<notin> set (a @ m)) \<or>
   (\<exists>a m z. s = CHR ''/'' # a @ CHR ''['' # m @ CHR '']'' # z \<and> m \<noteq> [] \<and> CHR 0x0A \<notin> set a \<and>
      set m \<inter> {CHR ''['', CHR '']''} = {})"
proof -
  have ndot: "list_all (in_cls True [(c, c)]) u \<longleftrightarrow> c \<notin> set u" for c u
    by (auto simp: list_all_iff)
  have nbr: "list_all (in_cls True [(c, c), (d, d)]) u \<longleftrightarrow> set u \<inter> {c, d} = {}" for c d u
    by (auto simp: list_all_iff in_cls_def)
  have par: "accepts (Seq (Star Dot) (Seq (One CHR ''('') (Seq (Plus Dot) (Seq (One CHR '')'') (Star Dot))))) b t
      \<longleftrightarrow> (\<exists>a m z. t = a @ CHR ''('' # m @ CHR '')'' # z \<and> m \<noteq> [] \<and> CHR 0x0A \<notin> set (a @ m))" for b t
    by (simp add: accepts_Seq_Star accepts_Seq_Cls accepts_Seq_Plus ndot) blast
  have bra: "accepts (Seq (Star Dot) (Seq (One CHR ''['')
        (Seq (Plus (Cls True [(CHR ''['', CHR ''[''), (CHR '']'', CHR '']'')])) (Seq (One CHR '']'') (Star Dot))))) b t
      \<longleftrightarrow> (\<exists>a m z. t = a @ CHR ''['' # m @ CHR '']'' # z \<and> m \<noteq> [] \<and> CHR 0x0A \<notin> set a \<and>
            set m \<inter> {CHR ''['', CHR '']''} = {})" for b t
    by (simp add: accepts_Seq_Star accepts_Seq_Cls accepts_Seq_Plus ndot nbr) blast
  show ?thesis
    unfolding IsRegexPatternRegex_def regex_pattern_def match_string_Bol
      accepts_Seq_Cls [of False "[(CHR ''/'', CHR ''/'')]"] accepts_Alt par bra in_cls_One
    by (cases s) (simp_all, blast)
qed

text \<open>A rewrite target starts with a word after the slash, or is one capture group.\<close>

definition is_word_char :: "char \<Rightarrow> bool" where
  "is_word_char c \<longleftrightarrow> in_cls False [(CHR ''0'', CHR ''9''), (CHR ''A'', CHR ''Z''),
     (CHR ''_'', CHR ''_''), (CHR ''a'', CHR ''z'')] c"

lemma IsTargetPathRegex_iff:
  "IsTargetPathRegex s \<longleftrightarrow>
   (\<exists>c t. s = CHR ''/'' # c # t \<and> is_word_char c) \<or>
   (\<exists>d. is_digit d \<and> s \<in> {''/$'' @ [d], CHR ''$'' # [d]})"
  (is "_ \<longleftrightarrow> ?R")
proof -
  have "IsTargetPathRegex s \<longleftrightarrow> accepts target_path_pattern True s"
    unfolding IsTargetPathRegex_def match_string_accepts target_path_pattern_def accepts_Alt
      accepts_Seq_Bol by auto
  also have "\<dots> \<longleftrightarrow> ?R"
    unfolding target_path_pattern_def accepts_Alt accepts_Seq_Bol accepts_Seq_Lit accepts_Seq_Cls accepts_Eol
      is_word_char_def
    by (simp only: accepts_Plus accepts_Seq_Cls accepts_Eol in_cls_One in_cls_Digit) auto
  finally show ?thesis .
qed

text \<open>
  The host pattern is not anchored: a host passes as soon as a character of the range from 0 to z, a
  dot and a lower-case letter stand next to each other in it.
\<close>

lemma in_cls_dns: "in_cls False [(CHR ''a'', CHR ''a''), (CHR ''0'', CHR ''z''), (CHR ''9'', CHR ''9'')] c
    \<longleftrightarrow> CHR ''0'' \<le> c \<and> c \<le> CHR ''z''"
  by (auto simp: in_cls_def char_le_code)

lemma ex_snoc: "(\<exists>v. v \<noteq> [] \<and> P v) \<longleftrightarrow> (\<exists>u c. P (u @ [c]))"
  by (metis append_is_Nil_conv list.distinct(1) rev_exhaust)

lemma rmatch_label:
  "rmatch (Seq (Plus (Cls neg rs)) (One d)) (b, s) y \<longleftrightarrow>
   (\<exists>u c t. s = u @ c # d # t \<and> list_all (in_cls neg rs) (u @ [c]) \<and> y = (False, t))" (is "?L \<longleftrightarrow> ?R")
proof -
  have "?L \<longleftrightarrow> (\<exists>v. v \<noteq> [] \<and> (\<exists>t. s = v @ d # t \<and> list_all (in_cls neg rs) v \<and> y = (False, t)))"
    unfolding rmatch_Seq [of "Plus (Cls neg rs)"] rmatch_plus_cls
    by (auto simp: rmatch_Cls)
  then show ?thesis by (simp add: ex_snoc)
qed

lemma IsValidHost_iff:
  "IsValidHost h \<longleftrightarrow>
   (\<exists>pre c l suf. h = pre @ c # CHR ''.'' # l # suf \<and>
      CHR ''0'' \<le> c \<and> c \<le> CHR ''z'' \<and> CHR ''a'' \<le> l \<and> l \<le> CHR ''z'')"
  (is "_ \<longleftrightarrow> ?R")
proof
  let ?C = "Cls False [(CHR ''a'', CHR ''a''), (CHR ''0'', CHR ''z''), (CHR ''9'', CHR ''9'')]"
  let ?L = "Seq (Plus ?C) (One CHR ''.'')"
  assume "IsValidHost h"
  then obtain pre suf b y m where h: "h = pre @ suf" and "rmatch (Plus ?L) (b, suf) m"
      and tld: "rmatch (Plus (Cls False [(CHR ''a'', CHR ''z'')])) m y"
    unfolding IsValidHost_def dns_pattern_def match_string_iff rmatch_Seq [of "Plus ?L"] by blast
  obtain x v where v: "suf = v @ snd x" and x: "rmatch ?L x m"
    using rmatch_Plus_last [OF \<open>rmatch (Plus ?L) (b, suf) m\<close>] unfolding snd_conv by blast
  from x obtain u c t where "snd x = u @ c # CHR ''.'' # t" "m = (False, t)"
      "CHR ''0'' \<le> c \<and> c \<le> CHR ''z''"
    by (cases x) (auto simp: rmatch_label in_cls_dns)
  with v have s: "suf = v @ u @ c # CHR ''.'' # t" "m = (False, t)" "CHR ''0'' \<le> c \<and> c \<le> CHR ''z''"
    by simp_all
  from tld s(2) obtain l t' where "t = l # t'" "CHR ''a'' \<le> l" "l \<le> CHR ''z''"
    by (auto simp: rmatch_Seq rmatch_Cls in_cls_def)
  with h s show ?R by (intro exI [of _ "pre @ v @ u"] exI [of _ c] exI [of _ l] exI [of _ t']) simp
next
  assume ?R
  then obtain pre c l suf where h: "h = pre @ c # CHR ''.'' # l # suf"
    and c: "CHR ''0'' \<le> c" "c \<le> CHR ''z''" and l: "CHR ''a'' \<le> l" "l \<le> CHR ''z''" by blast
  let ?C = "Cls False [(CHR ''a'', CHR ''a''), (CHR ''0'', CHR ''z''), (CHR ''9'', CHR ''9'')]"
  let ?L = "Seq (Plus ?C) (One CHR ''.'')"
  let ?t = "(False, l # suf)"
  have "rmatch ?L (pre = [], c # CHR ''.'' # l # suf) ?t"
    unfolding rmatch_label using c by (intro exI [of _ "[]"]) (simp add: in_cls_dns)
  then have "rmatch (Plus ?L) (pre = [], c # CHR ''.'' # l # suf) ?t"
    by (rule rm_seq) (rule rm_star0)
  moreover have "rmatch (Plus (Cls False [(CHR ''a'', CHR ''z'')])) ?t (False, suf)"
    using l by (intro rm_seq [OF rm_cls rm_star0]) (simp add: in_cls_def)
  ultimately have "rmatch dns_pattern (pre = [], c # CHR ''.'' # l # suf) (False, suf)"
    unfolding dns_pattern_def by (rule rm_seq)
  with h show "IsValidHost h" unfolding IsValidHost_def match_string_iff by blast
qed

lemma dns_pattern_nonempty: "\<not> rmatch dns_pattern x x"
proof
  assume "rmatch dns_pattern x x"
  then obtain m where "rmatch (Plus (Seq (Plus (Cls False [(CHR ''a'', CHR ''a''), (CHR ''0'', CHR ''z''),
      (CHR ''9'', CHR ''9'')])) (One CHR ''.''))) x m"
    and "rmatch (Plus (Cls False [(CHR ''a'', CHR ''z'')])) m x"
    unfolding dns_pattern_def by (subst (asm) rmatch_Seq) blast
  then show False
    using rmatch_shorter [of _ x m] by (cases m; cases x) (auto simp: rmatch_plus_cls dest: rmatch_shorter)
qed

text \<open>The two functions that use the host pattern agree.\<close>

lemma GetDnsRegex_iff: "GetDnsRegex h \<noteq> [] \<longleftrightarrow> IsValidHost h"
  using find_from_nonempty [OF dns_pattern_nonempty, of True h]
  by (auto simp: GetDnsRegex_def IsValidHost_def match_string_def find_string_def split: option.splits)

section \<open>What the accessors return\<close>

lemma map_of_annotation:
  "annotation ing k \<noteq> [] \<Longrightarrow> map_of (ing_Annotations ing) k = Some (annotation ing k)"
  by (auto simp: annotation_def split: option.splits)

text \<open>
  Once the key has been checked the value is there and not empty, so \<^verbatim>\<open>parseString\<close>
  cannot fail any more: a missing and an empty annotation both are validation errors.
\<close>

lemma GetStringAnnotation_eq:
  "GetStringAnnotation name ing field =
     (if ing_Annotations ing = [] then Inl ErrMissingAnnotations
      else if annotation ing (GetAnnotationWithPrefix name) = []
        then Inl (NewValidationError (GetAnnotationWithPrefix name))
      else Inr (annotation ing (GetAnnotationWithPrefix name)))"
  by (simp add: GetStringAnnotation_def CheckAnnotationsKey_def Let_def parseString_def map_of_annotation)

lemma GetBoolAnnotations_eq:
  "GetBoolAnnotations name ing field =
     (if ing_Annotations ing = [] then Inl ErrMissingAnnotations
      else let v = annotation ing (GetAnnotationWithPrefix name)
           in if v = [] then Inl (NewValidationError (GetAnnotationWithPrefix name))
              else (case parse_bool v of
                      None \<Rightarrow> Inl (NewInvalidContent (GetAnnotationWithPrefix name) v)
                    | Some b \<Rightarrow> Inr b))"
  by (simp add: GetBoolAnnotations_def CheckAnnotationsKey_def Let_def parseBool_def map_of_annotation)

lemma or_empty_annotation [ann_simps]:
  "or_empty (GetStringAnnotation name ing field) = annotation ing (GetAnnotationWithPrefix name)"
  by (auto simp: GetStringAnnotation_eq or_empty_def annotation_def)

lemma or_false_annotation [ann_simps]:
  "or_false (GetBoolAnnotations name ing field) \<longleftrightarrow>
   parse_bool (annotation ing (GetAnnotationWithPrefix name)) = Some True"
  by (auto simp: GetBoolAnnotations_eq or_false_def annotation_def Let_def parse_bool_def
      split: option.splits)

text \<open>A group all of whose annotations are documented passes the check of the annotation map.\<close>

lemma CheckAnnotations_documented:
  assumes "\<forall>(k, doc)\<in>set config. doc \<noteq> []"
  shows "CheckAnnotations annotations config = None"
proof -
  have doc: "map_of config k = Some d \<Longrightarrow> d \<noteq> []" for k d
    using assms by (auto dest: map_of_SomeD)
  have "fold (\<lambda>(ann, _) err. if \<not> IsAnnotationsPrefix ann then err
      else case map_of config (TrimAnnotationPrefix ann) of
             Some doc \<Rightarrow> if doc = [] then errors_join err (Errorf (''annotation '' @ ann @ '' have no description'')) else err
           | None \<Rightarrow> err) annotations e = e" for e
    by (induction annotations arbitrary: e) (auto split: option.splits dest: doc)
  then show ?thesis unfolding CheckAnnotations_def .
qed

section \<open>The interface of an annotation group\<close>

text \<open>The errors that make \<^verbatim>\<open>Extract\<close> give up.\<close>

definition aborting :: "go_error \<Rightarrow> bool" where
  "aborting e \<longleftrightarrow>
     IsValidationError e \<or> IsInvalidIngressContentError e \<or> IsInvalidAnnotationsContentError e \<or>
     IsMissResourcesError e \<or> IsNotSatisfiableError e"

lemma aborting_constructors [simp]:
  "aborting (NewValidationError n)" "aborting (NewInvalidAnnotationsContentError n v)"
  "aborting (NewIsMissResourcesError n)" "aborting (NewNotSatisfiableError n)"
  by (simp_all add: aborting_def kerr_defs)

text \<open>Two ingresses that differ in nothing but annotations outside a list of names.\<close>

definition same_but :: "string list \<Rightarrow> ingress \<Rightarrow> ingress \<Rightarrow> bool" where
  "same_but keys i j \<longleftrightarrow>
     ing_Name i = ing_Name j \<and> ing_Namespace i = ing_Namespace j \<and> ing_Spec i = ing_Spec j \<and>
     (\<forall>k\<in>set keys. annotation i (GetAnnotationWithPrefix k) = annotation j (GetAnnotationWithPrefix k))"

text \<open>
  \<^verbatim>\<open>IngressAnnotation\<close>: \<^verbatim>\<open>Parse\<close> and \<^verbatim>\<open>Validate\<close>. A group promises that
  its own annotations are documented, that it reads no annotation but its own, and that whenever it
  returns an error it is one that makes the extraction give up.
\<close>

locale annotation_group =
  fixes parse :: "ingress \<Rightarrow> 'v result"
    and validate :: "(string \<times> string) list \<Rightarrow> go_error option"
    and keys :: "string list"
  assumes validate_ok: "validate anns = None"
    and parse_frame: "same_but keys i j \<Longrightarrow> parse i = parse j"
    and parse_errors: "parse i = Inl (Err e) \<Longrightarrow> aborting e"
begin

text \<open>Setting an annotation of another group does not change what a group reads.\<close>

lemma parse_other_key:
  assumes "k \<notin> set keys"
  shows "parse (i\<lparr>ing_Annotations := (GetAnnotationWithPrefix k, v) # ing_Annotations i\<rparr>) = parse i"
proof -
  have "GetAnnotationWithPrefix k' \<noteq> GetAnnotationWithPrefix k" if "k' \<in> set keys" for k'
    using that assms by auto
  then show ?thesis
    by (intro parse_frame) (auto simp: same_but_def annotation_def)
qed

text \<open>A value put under a constructor keeps the contract.\<close>

lemma wrapped: "annotation_group (\<lambda>i. map_sum id c (parse i)) validate keys"
proof
  show "validate anns = None" for anns by (rule validate_ok)
  show "map_sum id c (parse i) = map_sum id c (parse j)" if "same_but keys i j" for i j
    using parse_frame [OF that] by simp
  show "aborting e" if "map_sum id c (parse i) = Inl (Err e)" for i e
    using that parse_errors by (cases "parse i") auto
qed

end

end
