(* ===== verification/AllowCos.thy ===== *)
theory AllowCos
  imports AnnParser
begin

text \<open>Package \<^verbatim>\<open>internal/annotations/allowcos\<close>: the annotation \<^verbatim>\<open>use-cos\<close>.\<close>

definition allowCosAnnotation :: string where "allowCosAnnotation = ''use-cos''"

definition cosAnnotation :: annotation_fields where
  "cosAnnotation = [(allowCosAnnotation, ''allow cos, e.g: `true or false`, required'')]"

record cos_config =
  AllowCosFlag :: bool

definition cos_parse :: "ingress \<Rightarrow> cos_config result" where
  "cos_parse ing =
     Inr \<lparr>AllowCosFlag = or_false (GetBoolAnnotations allowCosAnnotation ing cosAnnotation)\<rparr>"

definition cos_validate :: "(string \<times> string) list \<Rightarrow> go_error option" where
  "cos_validate anns = CheckAnnotations anns cosAnnotation"

interpretation cos: annotation_group cos_parse cos_validate "[allowCosAnnotation]"
  by unfold_locales
     (auto simp: cos_validate_def cosAnnotation_def CheckAnnotations_documented cos_parse_def ann_simps
       same_but_def)

end
