(* ===== verification/IpRanges.thy ===== *)
theory IpRanges
  imports AnnParser
begin

text \<open>
  The contract that the allow list and the deny list share: a group reads one annotation, a list of
  addresses separated by commas, drops the white space and the empty entries, rejects the first
  entry that is no address, and returns the entries in order without repetition. The set type of the
  API machinery that collects them is the set of strings, its listing the sorted list.
\<close>

definition ip_entries :: "string \<Rightarrow> string list" where
  "ip_entries v = filter (\<lambda>a. a \<noteq> []) (map trim_space (split_on CHR '','' v))"

locale ip_source_range =
  fixes parse :: "ingress \<Rightarrow> 'v result"
    and validate :: "(string \<times> string) list \<Rightarrow> go_error option"
    and name :: string
    and mk :: "string list \<Rightarrow> 'v"
  assumes parse_spec:
      "parse ing =
         (let as = ip_entries (annotation ing (GetAnnotationWithPrefix name))
          in case find (\<lambda>a. \<not> PassIsIp a) as of
               Some bad \<Rightarrow> Inl (Err (NewInvalidAnnotationsContentError name bad))
             | None \<Rightarrow> Inr (mk (sorted_list_of_set (set as))))"
    and no_undocumented: "validate anns = None"
begin

text \<open>Such a group is an annotation group.\<close>

lemma group: "annotation_group parse validate [name]"
proof
  show "validate anns = None" for anns by (rule no_undocumented)
  show "parse i = parse j" if "same_but [name] i j" for i j
    using that by (simp add: parse_spec same_but_def)
  show "aborting e" if "parse i = Inl (Err e)" for i e
    using that by (auto simp: parse_spec Let_def split: option.splits)
qed

lemma parse_ok_iff:
  "parse ing = Inr v \<longleftrightarrow>
   (\<forall>a\<in>set (ip_entries (annotation ing (GetAnnotationWithPrefix name))). PassIsIp a) \<and>
   v = mk (sorted_list_of_set (set (ip_entries (annotation ing (GetAnnotationWithPrefix name)))))"
  by (auto simp: parse_spec Let_def find_None_iff find_Some_iff split: option.splits)

text \<open>The list is sorted, has no repetition and holds exactly the entries, each an address.\<close>

lemma parse_ok:
  assumes "parse ing = Inr v"
  obtains as where "v = mk as" and "sorted as" and "distinct as"
    and "set as = set (ip_entries (annotation ing (GetAnnotationWithPrefix name)))"
    and "\<forall>a\<in>set as. PassIsIp a"
  using assms
  by (intro that [of "sorted_list_of_set
        (set (ip_entries (annotation ing (GetAnnotationWithPrefix name))))"])
     (auto simp: parse_ok_iff)

lemma parse_error:
  assumes "parse ing = Inl f"
  shows "\<exists>us bad vs. ip_entries (annotation ing (GetAnnotationWithPrefix name)) = us @ bad # vs \<and>
           (\<forall>a\<in>set us. PassIsIp a) \<and> \<not> PassIsIp bad \<and>
           f = Err (NewInvalidAnnotationsContentError name bad)"
proof -
  let ?as = "ip_entries (annotation ing (GetAnnotationWithPrefix name))"
  from assms obtain bad where "find (\<lambda>a. \<not> PassIsIp a) ?as = Some bad"
    and f: "f = Err (NewInvalidAnnotationsContentError name bad)"
    by (auto simp: parse_spec Let_def split: option.splits)
  then obtain i where i: "i < length ?as" "\<not> PassIsIp (?as ! i)" "bad = ?as ! i"
      "\<forall>j<i. PassIsIp (?as ! j)"
    by (auto simp: find_Some_iff)
  then have "?as = take i ?as @ bad # drop (Suc i) ?as"
    by (simp add: id_take_nth_drop)
  moreover have "\<forall>a\<in>set (take i ?as). PassIsIp a"
    using i by (auto simp: in_set_conv_nth)
  ultimately show ?thesis using i(2,3) f by blast
qed

end

sublocale ip_source_range \<subseteq> annotation_group parse validate "[name]"
  by (rule group)

text \<open>The loop of both packages, in the shape the contract states it.\<close>

lemma ip_loop_spec:
  assumes nil: "\<And>s. loop [] s = Inr s"
    and cons: "\<And>a as s. loop (a # as) s =
      (let a' = trim_space a
       in if a' = [] then loop as s
          else if \<not> PassIsIp a' then Inl (Err (NewInvalidAnnotationsContentError name a'))
          else loop as (if a' \<notin> s then insert a' s else s))"
  shows "loop as s =
     (case find (\<lambda>a. \<not> PassIsIp a) (filter (\<lambda>a. a \<noteq> []) (map trim_space as)) of
        Some bad \<Rightarrow> Inl (Err (NewInvalidAnnotationsContentError name bad))
      | None \<Rightarrow> Inr (s \<union> set (filter (\<lambda>a. a \<noteq> []) (map trim_space as))))"
proof (induction as arbitrary: s)
  case Nil
  show ?case by (simp add: nil)
next
  case (Cons a as)
  show ?case
    by (cases "trim_space a = []"; cases "PassIsIp (trim_space a)")
       (auto simp: cons Cons.IH Let_def insert_absorb split: option.splits)
qed

end
