(* ===== verification/IpAllowList.thy ===== *)
theory IpAllowList
  imports IpRanges
begin

text \<open>Package \<^verbatim>\<open>internal/annotations/ipallowlist\<close>: the annotation \<^verbatim>\<open>allowList\<close>.\<close>

definition allowListAnnotation :: string where "allowListAnnotation = ''allowList''"

definition ipAllowListAnnotations :: annotation_fields where
  "ipAllowListAnnotations = [(allowListAnnotation, ''allow ip, e.g: `allow 1.1.1.1` , required'')]"

record allow_range =
  allow_CIDR :: "string list"

fun allow_aliases :: "string list \<Rightarrow> string set \<Rightarrow> string set result" where
  "allow_aliases [] aliases = Inr aliases"
| "allow_aliases (alias # rest) aliases =
     (let alias' = trim_space alias
      in if alias' = [] then allow_aliases rest aliases
         else if \<not> PassIsIp alias'
           then Inl (Err (NewInvalidAnnotationsContentError allowListAnnotation alias'))
         else allow_aliases rest (if alias' \<notin> aliases then insert alias' aliases else aliases))"

definition allow_parse :: "ingress \<Rightarrow> allow_range result" where
  "allow_parse ing =
     (let v = or_empty (GetStringAnnotation allowListAnnotation ing ipAllowListAnnotations)
      in ebind (allow_aliases (split_on CHR '','' v) {}) (\<lambda>aliases.
           Inr \<lparr>allow_CIDR = sorted_list_of_set aliases\<rparr>))"

definition allow_validate :: "(string \<times> string) list \<Rightarrow> go_error option" where
  "allow_validate anns = CheckAnnotations anns ipAllowListAnnotations"

interpretation ip_allow: ip_source_range allow_parse allow_validate allowListAnnotation
    "\<lambda>as. \<lparr>allow_CIDR = as\<rparr>"
proof
  show "allow_parse ing =
         (let as = ip_entries (annotation ing (GetAnnotationWithPrefix allowListAnnotation))
          in case find (\<lambda>a. \<not> PassIsIp a) as of
               Some bad \<Rightarrow> Inl (Err (NewInvalidAnnotationsContentError allowListAnnotation bad))
             | None \<Rightarrow> Inr \<lparr>allow_CIDR = sorted_list_of_set (set as)\<rparr>)" for ing
    by (simp add: allow_parse_def ann_simps Let_def ip_entries_def
        ip_loop_spec [of allow_aliases allowListAnnotation] split: option.splits)
  show "allow_validate anns = None" for anns
    by (simp add: allow_validate_def CheckAnnotations_documented ipAllowListAnnotations_def)
qed

end
