(* ===== verification/IpDenyList.thy ===== *)
theory IpDenyList
  imports IpRanges
begin

text \<open>Package \<^verbatim>\<open>internal/annotations/ipdenylist\<close>: the annotation \<^verbatim>\<open>denyList\<close>.\<close>

definition denyListAnnotation :: string where "denyListAnnotation = ''denyList''"

definition ipDenyListAnnotations :: annotation_fields where
  "ipDenyListAnnotations = [(denyListAnnotation, ''deny ip, e.g: `2.2.2.2`, required'')]"

record deny_range =
  deny_CIDR :: "string list"

fun deny_aliases :: "string list \<Rightarrow> string set \<Rightarrow> string set result" where
  "deny_aliases [] aliases = Inr aliases"
| "deny_aliases (alias # rest) aliases =
     (let alias' = trim_space alias
      in if alias' = [] then deny_aliases rest aliases
         else if \<not> PassIsIp alias'
           then Inl (Err (NewInvalidAnnotationsContentError denyListAnnotation alias'))
         else deny_aliases rest (if alias' \<notin> aliases then insert alias' aliases else aliases))"

definition deny_parse :: "ingress \<Rightarrow> deny_range result" where
  "deny_parse ing =
     (let v = or_empty (GetStringAnnotation denyListAnnotation ing ipDenyListAnnotations)
      in ebind (deny_aliases (split_on CHR '','' v) {}) (\<lambda>aliases.
           Inr \<lparr>deny_CIDR = sorted_list_of_set aliases\<rparr>))"

definition deny_validate :: "(string \<times> string) list \<Rightarrow> go_error option" where
  "deny_validate anns = CheckAnnotations anns ipDenyListAnnotations"

interpretation ip_deny: ip_source_range deny_parse deny_validate denyListAnnotation
    "\<lambda>as. \<lparr>deny_CIDR = as\<rparr>"
proof
  show "deny_parse ing =
         (let as = ip_entries (annotation ing (GetAnnotationWithPrefix denyListAnnotation))
          in case find (\<lambda>a. \<not> PassIsIp a) as of
               Some bad \<Rightarrow> Inl (Err (NewInvalidAnnotationsContentError denyListAnnotation bad))
             | None \<Rightarrow> Inr \<lparr>deny_CIDR = sorted_list_of_set (set as)\<rparr>)" for ing
    by (simp add: deny_parse_def ann_simps Let_def ip_entries_def
        ip_loop_spec [of deny_aliases denyListAnnotation] split: option.splits)
  show "deny_validate anns = None" for anns
    by (simp add: deny_validate_def CheckAnnotations_documented ipDenyListAnnotations_def)
qed

end
