(* ===== verification/Redirect.thy ===== *)
theory Redirect
  imports AnnParser
begin

text \<open>
  Package \<^verbatim>\<open>internal/annotations/redirect\<close>: the annotations \<^verbatim>\<open>redirect-host\<close> and
  \<^verbatim>\<open>redirect-path\<close>.
\<close>

definition serverRedirectHostAnnotation :: string where
  "serverRedirectHostAnnotation = ''redirect-host''"
definition serverRedirectPathAnnotation :: string where
  "serverRedirectPathAnnotation = ''redirect-path''"

definition redirectAnnotation :: annotation_fields where
  "redirectAnnotation =
     [(serverRedirectHostAnnotation, ''return 301 e.g: `http://*`, required''),
      (serverRedirectPathAnnotation, ''match path redirect, e.g: `/aaa`, optional'')]"

record redirect_config =
  rd_Host :: string
  rd_Path :: string

definition redirect_check :: "redirect_config \<Rightarrow> bool" where
  "redirect_check cfg = (if rd_Path cfg \<noteq> [] \<and> \<not> IsValidHost (rd_Host cfg) then False else True)"

definition redirect_parse :: "ingress \<Rightarrow> redirect_config result" where
  "redirect_parse ing =
     (let config = \<lparr>rd_Host = or_empty (GetStringAnnotation serverRedirectHostAnnotation ing redirectAnnotation),
                    rd_Path = or_empty (GetStringAnnotation serverRedirectPathAnnotation ing redirectAnnotation)\<rparr>
      in if \<not> redirect_check config
         then Inl (Err (NewInvalidAnnotationsContentError serverRedirectHostAnnotation (rd_Host config)))
         else Inr config)"

definition redirect_validate :: "(string \<times> string) list \<Rightarrow> go_error option" where
  "redirect_validate anns = CheckAnnotations anns redirectAnnotation"

interpretation redirect: annotation_group redirect_parse redirect_validate
    "[serverRedirectHostAnnotation, serverRedirectPathAnnotation]"
  by unfold_locales
     (auto simp: redirect_validate_def redirectAnnotation_def CheckAnnotations_documented
       redirect_parse_def ann_simps same_but_def Let_def split: if_splits)

lemma redirect_parse_ok:
  "redirect_parse ing = Inr cfg \<Longrightarrow> rd_Path cfg \<noteq> [] \<Longrightarrow> IsValidHost (rd_Host cfg)"
  by (auto simp: redirect_parse_def redirect_check_def Let_def split: if_splits)

end
