(* ===== verification/Rewrite.thy ===== *)
theory Rewrite
  imports AnnParser
begin

text \<open>
  Package \<^verbatim>\<open>internal/annotations/rewrite\<close>: the annotations \<^verbatim>\<open>rewrite-target\<close> and
  \<^verbatim>\<open>enable-regex\<close>. The code returns the configuration beside the error; the extraction
  looks at the error first and drops the value, so a failing parse has none here.
\<close>

definition rewriteTargetAnnotation :: string where
  "rewriteTargetAnnotation = ''rewrite-target''"
definition rewriteEnableRegexAnnotation :: string where
  "rewriteEnableRegexAnnotation = ''enable-regex''"

definition rewriteAnnotation :: annotation_fields where
  "rewriteAnnotation =
     [(rewriteTargetAnnotation, ''It can contain regular characters and captured '' @ [CHR 0x0A, CHR 0x09, CHR 0x09, CHR 0x09] @
         ''groups specified as '' @ [CHR 0x27] @ ''$1'' @ [CHR 0x27] @ '', '' @ [CHR 0x27] @ ''$2'' @ [CHR 0x27] @
         '', '' @ [CHR 0x27] @ ''/asd'' @ [CHR 0x27] @ '', optional''),
      (rewriteEnableRegexAnnotation, ''This annotation defines if the paths defined on an Ingress use regular expressions. To use regex on path'' @
         [CHR 0x0A, CHR 0x09, CHR 0x09, CHR 0x09] @ ''the pathType should also be defined as '' @ [CHR 0x27] @
         ''ImplementationSpecific'' @ [CHR 0x27] @ '', required'')]"

record rewrite_config =
  rw_RewriteTarget :: string
  rw_EnableRegex :: bool

definition rewrite_parse :: "ingress \<Rightarrow> rewrite_config result" where
  "rewrite_parse ing =
     (let config = \<lparr>rw_RewriteTarget = or_empty (GetStringAnnotation rewriteTargetAnnotation ing rewriteAnnotation),
                    rw_EnableRegex = or_false (GetBoolAnnotations rewriteEnableRegexAnnotation ing rewriteAnnotation)\<rparr>
      in if rw_RewriteTarget config \<noteq> [] \<and> \<not> IsTargetPathRegex (rw_RewriteTarget config)
         then Inl (Err (NewValidationError rewriteTargetAnnotation))
         else Inr config)"

definition rewrite_validate :: "(string \<times> string) list \<Rightarrow> go_error option" where
  "rewrite_validate anns = CheckAnnotations anns rewriteAnnotation"

interpretation rewrite: annotation_group rewrite_parse rewrite_validate
    "[rewriteTargetAnnotation, rewriteEnableRegexAnnotation]"
  by unfold_locales
     (auto simp: rewrite_validate_def rewriteAnnotation_def CheckAnnotations_documented
       rewrite_parse_def ann_simps same_but_def Let_def split: if_splits)

lemma rewrite_parse_ok:
  "rewrite_parse ing = Inr cfg \<Longrightarrow> rw_RewriteTarget cfg \<noteq> [] \<Longrightarrow> IsTargetPathRegex (rw_RewriteTarget cfg)"
  by (auto simp: rewrite_parse_def Let_def split: if_splits)

end
