(* ===== verification/SslStapling.thy ===== *)
theory SslStapling
  imports AnnParser
begin

text \<open>
  Package \<^verbatim>\<open>internal/annotations/sslstapling\<close>: the annotations
  \<^verbatim>\<open>ssl-stapling\<close> and \<^verbatim>\<open>ssl-stapling-verify\<close>.
\<close>

definition sslStaplingVerify :: string where "sslStaplingVerify = ''ssl-stapling-verify''"
definition sslStapling :: string where "sslStapling = ''ssl-stapling''"

definition sslAnnotations :: annotation_fields where
  "sslAnnotations =
     [(sslStaplingVerify, ''switch ssl stapling verify, optional''),
      (sslStapling, ''switch ssl stapling, optional'')]"

record ssl_config =
  ss_SSllStaplingVerify :: bool
  ss_SSlStapling :: bool

definition ssl_parse :: "ingress \<Rightarrow> ssl_config result" where
  "ssl_parse ing =
     Inr \<lparr>ss_SSllStaplingVerify = or_false (GetBoolAnnotations sslStaplingVerify ing sslAnnotations),
          ss_SSlStapling = or_false (GetBoolAnnotations sslStapling ing sslAnnotations)\<rparr>"

definition ssl_validate :: "(string \<times> string) list \<Rightarrow> go_error option" where
  "ssl_validate anns = CheckAnnotations anns sslAnnotations"

interpretation ssl: annotation_group ssl_parse ssl_validate "[sslStaplingVerify, sslStapling]"
  by unfold_locales
     (auto simp: ssl_validate_def sslAnnotations_def CheckAnnotations_documented ssl_parse_def
       ann_simps same_but_def)

end
