(* ===== verification/Proxy.thy ===== *)
theory Proxy
  imports AnnParser
begin

text \<open>
  Package \<^verbatim>\<open>internal/annotations/proxy\<close>: forwarding to a server outside the cluster,
  the annotations \<^verbatim>\<open>proxy-path\<close>, \<^verbatim>\<open>proxy-host\<close>, \<^verbatim>\<open>proxy-target\<close>,
  \<^verbatim>\<open>proxy-sslstapling\<close> and \<^verbatim>\<open>proxy-enable-regex\<close>, and their consistency check.
\<close>

definition proxyPathAnnotation :: string where "proxyPathAnnotation = ''proxy-path''"
definition proxyHostAnnotation :: string where "proxyHostAnnotation = ''proxy-host''"
definition proxyTargetAnnotation :: string where "proxyTargetAnnotation = ''proxy-target''"
definition proxySSLAnnotation :: string where "proxySSLAnnotation = ''proxy-sslstapling''"
definition proxyEnableRegex :: string where "proxyEnableRegex = ''proxy-enable-regex''"

definition proxyAnnotation :: annotation_fields where
  "proxyAnnotation =
     [(proxyPathAnnotation, ''matching target path, e.g: /aaa/bbb or regex: /aaa/bbb(/|$)(.*), required''),
      (proxyHostAnnotation, ''url link outside the cluster, e.g: ccc.com or 1.1.1.1, required''),
      (proxySSLAnnotation, ''if true, the proxy_pass will be https, optional''),
      (proxyTargetAnnotation, ''when the ProxyEnableRewrite is true, choose it, e.g: /$1,$2..., optional''),
      (proxyEnableRegex, ''This annotation defines if the paths defined on an Ingress use regular expressions. To use regex on path'' @
         [CHR 0x0A, CHR 0x09, CHR 0x09, CHR 0x09] @ ''the pathType should also be defined as '' @ [CHR 0x27] @
         ''ImplementationSpecific'' @ [CHR 0x27] @ ''., optional'')]"

record proxy_config =
  px_ProxyPath :: string
  px_ProxyHost :: string
  px_ProxyTarget :: string
  px_ProxyTargetPath :: string
  px_ProxySSL :: bool
  px_ProxyEnableRegex :: bool

definition proxy_check :: "proxy_config \<Rightarrow> go_error option" where
  "proxy_check config =
     (if px_ProxyTarget config \<noteq> [] \<and> \<not> IsTargetPathRegex (px_ProxyTarget config)
        then Some (NewValidationError proxyTargetAnnotation)
      else if IsRegexPatternRegex (px_ProxyPath config) \<and> \<not> px_ProxyEnableRegex config \<and> px_ProxyTarget config = []
        then Some (NewValidationError proxyPathAnnotation)
      else if px_ProxyEnableRegex config \<and> \<not> IsRegexPatternRegex (px_ProxyPath config)
        then Some (NewValidationError proxyPathAnnotation)
      else if px_ProxyTarget config \<noteq> [] \<and> \<not> IsRegexPatternRegex (px_ProxyPath config)
        then Some (NewValidationError proxyPathAnnotation)
      else if PassIsIp (px_ProxyHost config) \<and> px_ProxySSL config
        then Some (NewValidationError proxyHostAnnotation)
      else None)"

definition formatProxyPath :: "string \<Rightarrow> proxy_config \<Rightarrow> string" where
  "formatProxyPath path proxyConfig =
     (if px_ProxyTarget proxyConfig \<noteq> [] \<or> px_ProxyEnableRegex proxyConfig
      then ''~ ^'' @ px_ProxyPath proxyConfig else path)"

definition proxy_read :: "ingress \<Rightarrow> proxy_config" where
  "proxy_read ing =
     \<lparr>px_ProxyPath = or_empty (GetStringAnnotation proxyPathAnnotation ing proxyAnnotation),
      px_ProxyHost = or_empty (GetStringAnnotation proxyHostAnnotation ing proxyAnnotation),
      px_ProxyTarget = or_empty (GetStringAnnotation proxyTargetAnnotation ing proxyAnnotation),
      px_ProxyTargetPath = [],
      px_ProxySSL = or_false (GetBoolAnnotations proxySSLAnnotation ing proxyAnnotation),
      px_ProxyEnableRegex = or_false (GetBoolAnnotations proxyEnableRegex ing proxyAnnotation)\<rparr>"

definition proxy_parse :: "ingress \<Rightarrow> proxy_config result" where
  "proxy_parse ing =
     (let config = proxy_read ing
      in case proxy_check config of
           Some e \<Rightarrow> Inl (Err e)
         | None \<Rightarrow>
             (let config' = config\<lparr>px_ProxyTargetPath := px_ProxyPath config\<rparr>
              in Inr (config'\<lparr>px_ProxyPath := formatProxyPath (px_ProxyPath config') config'\<rparr>)))"

definition proxy_validate :: "(string \<times> string) list \<Rightarrow> go_error option" where
  "proxy_validate anns = CheckAnnotations anns proxyAnnotation"

text \<open>The check accepts exactly the consistent configurations, and it rejects with a validation error.\<close>

lemma proxy_check_None:
  "proxy_check c = None \<longleftrightarrow>
   (px_ProxyTarget c \<noteq> [] \<longrightarrow> IsTargetPathRegex (px_ProxyTarget c)) \<and>
   (IsRegexPatternRegex (px_ProxyPath c) \<longleftrightarrow> px_ProxyEnableRegex c \<or> px_ProxyTarget c \<noteq> []) \<and>
   \<not> (PassIsIp (px_ProxyHost c) \<and> px_ProxySSL c)"
  by (auto simp: proxy_check_def)

lemma proxy_check_aborting: "proxy_check c = Some e \<Longrightarrow> aborting e"
  by (auto simp: proxy_check_def split: if_splits)

interpretation proxy: annotation_group proxy_parse proxy_validate
    "[proxyPathAnnotation, proxyHostAnnotation, proxyTargetAnnotation, proxySSLAnnotation, proxyEnableRegex]"
proof
  show "proxy_validate anns = None" for anns
    by (simp add: proxy_validate_def CheckAnnotations_documented proxyAnnotation_def)
  show "proxy_parse i = proxy_parse j"
    if "same_but [proxyPathAnnotation, proxyHostAnnotation, proxyTargetAnnotation, proxySSLAnnotation,
          proxyEnableRegex] i j" for i j
  proof -
    from that have "proxy_read i = proxy_read j"
      by (simp add: proxy_read_def ann_simps same_but_def)
    then show ?thesis by (simp add: proxy_parse_def)
  qed
  show "aborting e" if "proxy_parse i = Inl (Err e)" for i e
    using that proxy_check_aborting by (auto simp: proxy_parse_def Let_def split: option.splits)
qed

text \<open>
  The location of an accepted proxy is marked as a regular expression exactly when its path is one,
  and the path as written is kept for the rewrite rule.
\<close>

lemma proxy_parse_ok:
  assumes "proxy_parse ing = Inr c"
  shows "px_ProxyTargetPath c = px_ProxyPath (proxy_read ing)"
    and "px_ProxyPath c =
      (if IsRegexPatternRegex (px_ProxyTargetPath c) then ''~ ^'' @ px_ProxyTargetPath c
       else px_ProxyTargetPath c)"
  using assms
  by (auto simp: proxy_parse_def Let_def formatProxyPath_def proxy_check_None split: option.splits)

end
