(* ===== verification/Store.thy ===== *)
theory Store
  imports ApiTypes
begin

text \<open>
  Package \<^verbatim>\<open>internal/controller/store\<close> and the interface \<^verbatim>\<open>Resolver\<close> of
  \<^verbatim>\<open>internal/annotations/resolver\<close>. The client of the API server is a service outside the
  program: a record of the answers to the reads the controller makes, a parameter of everything that
  reads. \<^verbatim>\<open>IngressInfo\<close> answers the questions of the annotation groups and of the
  configuration generator from it; the interface it implements is a record of functions, and what
  its clients rely on is the locale \<open>port_resolver\<close>.
\<close>

text \<open>
  A certificate object is unstructured: reading the list of its names can fail, find nothing, or
  give the list.
\<close>

record certificate =
  ce_Name :: string
  ce_dnsNames :: "go_error + string list option"

record client =
  cl_Ingress :: "object_key \<Rightarrow> go_error + ingress"
  cl_Service :: "object_key \<Rightarrow> go_error + service"
  cl_Secret :: "object_key \<Rightarrow> go_error + secret_data"
  cl_IngressClass :: "object_key \<Rightarrow> go_error + string" \<comment> \<open>its controller\<close>
  cl_Issuer :: "object_key \<Rightarrow> go_error + unit"
  cl_Certificate :: "object_key \<Rightarrow> go_error + certificate"

text \<open>The argument of \<^verbatim>\<open>GetSvcPort\<close> is an interface value that the code switches on.\<close>

datatype port_query = QBackend ingress_backend | QName string | QOther

record resolver =
  rs_GetSecret :: "object_key \<Rightarrow> secret_data result"
  rs_GetDefaultService :: "service result"
  rs_GetService :: "string \<Rightarrow> service result"
  rs_GetHostName :: "string list"
  rs_GetSvcPort :: "port_query \<Rightarrow> int32 result"
  rs_GetTlsData :: "object_key \<Rightarrow> secret_data result"

section \<open>IngressInfo\<close>

record IngressInfo =
  ii_ingress :: ingress
  ii_r :: client

definition GetHostName :: "IngressInfo \<Rightarrow> string list" where
  "GetHostName t = map ir_Host (Rules (ing_Spec (ii_ingress t)))"

definition GetDefaultService :: "IngressInfo \<Rightarrow> service result" where
  "GetDefaultService t =
     ebind (deref (DefaultBackend (ing_Spec (ii_ingress t)))) (\<lambda>db.
     ebind (deref (ib_Service db)) (\<lambda>sb.
       map_sum Err id
         (cl_Service (ii_r t) \<lparr>ok_Name = sb_Name sb, ok_Namespace = ing_Namespace (ii_ingress t)\<rparr>)))"

definition GetService :: "IngressInfo \<Rightarrow> string \<Rightarrow> service result" where
  "GetService t name =
     (let ns = ing_Namespace (ii_ingress t)
      in case cl_Service (ii_r t) \<lparr>ok_Name = name, ok_Namespace = ns\<rparr> of
           Inl err \<Rightarrow>
             if IsNotFound err
             then Inl (Err (Errorf (''service: '' @ name @ '' not fount in namespace: '' @ ns)))
             else Inl (Err (Errorf (''unexpected error searching service with name '' @ name @
                    '' in namespace '' @ ns @ '': '' @ error_text err)))
         | Inr svc \<Rightarrow> Inr svc)"

fun backend_in_paths :: "string \<Rightarrow> http_path list \<Rightarrow> ingress_backend \<Rightarrow> ingress_backend result" where
  "backend_in_paths svc [] backend = Inr backend"
| "backend_in_paths svc (b # bs) backend =
     ebind (deref (ib_Service (hp_Backend b))) (\<lambda>sb.
       if sb_Name sb = svc then Inr (hp_Backend b) else backend_in_paths svc bs backend)"

text \<open>The \<^verbatim>\<open>break\<close> leaves the inner loop only: a later rule overrides an earlier one.\<close>

definition GetBackend :: "IngressInfo \<Rightarrow> string \<Rightarrow> ingress_backend result" where
  "GetBackend t svc =
     efold (\<lambda>r backend. ebind (deref (ir_HTTP r)) (\<lambda>paths. backend_in_paths svc paths backend))
       (Rules (ing_Spec (ii_ingress t))) \<lparr>ib_Service = None\<rparr>"

fun match_port :: "service_port list \<Rightarrow> backend_port \<Rightarrow> int32" where
  "match_port [] bp = 0"
| "match_port (sp # sps) bp =
     (if sp_Port sp = bp_Number bp \<or> sp_Name sp = bp_Name bp then bp_Number bp else match_port sps bp)"

definition port_of_backend :: "IngressInfo \<Rightarrow> ingress_backend \<Rightarrow> int32 result" where
  "port_of_backend t backend =
     ebind (deref (ib_Service backend)) (\<lambda>sb.
       case GetService t (sb_Name sb) of
         Inl (Err _) \<Rightarrow> Inr 0
       | Inl f \<Rightarrow> Inl f
       | Inr svc \<Rightarrow> Inr (match_port (sv_Ports svc) (sb_Port sb)))"

definition GetSvcPort :: "IngressInfo \<Rightarrow> port_query \<Rightarrow> int32 result" where
  "GetSvcPort t data =
     (case data of
        QBackend backend \<Rightarrow> port_of_backend t backend
      | QName svcName \<Rightarrow> ebind (GetBackend t svcName) (\<lambda>backend. port_of_backend t backend)
      | QOther \<Rightarrow> Inr 0)"

definition GetSecret :: "IngressInfo \<Rightarrow> object_key \<Rightarrow> secret_data result" where
  "GetSecret t key =
     (let name = ing_Name (ii_ingress t) @ ''-secret''; ns = ing_Namespace (ii_ingress t)
      in case cl_Secret (ii_r t) key of
           Inl err \<Rightarrow>
             if IsNotFound err
             then Inl (Err (Errorf (''secret: '' @ name @ '' not fount in namespace: '' @ ns)))
             else Inl (Err (Errorf (''unexpected error searching service with name '' @ name @
                    '' in namespace '' @ ns @ '': '' @ error_text err)))
         | Inr sc \<Rightarrow> Inr sc)"

text \<open>\<^verbatim>\<open>pkg/utils/cert\<close>: the function copies the map entry by entry.\<close>

fun copy_entries :: "secret_data \<Rightarrow> secret_data \<Rightarrow> secret_data" where
  "copy_entries [] parsed = parsed"
| "copy_entries ((k, v) # rest) parsed = copy_entries rest (parsed @ [(k, v)])"

definition DecodeBase64 :: "secret_data \<Rightarrow> go_error + secret_data" where
  "DecodeBase64 data = Inr (copy_entries data [])"

definition GetTlsData :: "IngressInfo \<Rightarrow> object_key \<Rightarrow> secret_data result" where
  "GetTlsData t key = ebind (GetSecret t key) (\<lambda>secret. map_sum Err id (DecodeBase64 secret))"

definition NewIngressInfo :: "client \<Rightarrow> ingress \<Rightarrow> IngressInfo" where
  "NewIngressInfo cl ing = \<lparr>ii_ingress = ing, ii_r = cl\<rparr>"

text \<open>The value of the interface type.\<close>

definition info_resolver :: "IngressInfo \<Rightarrow> resolver" where
  "info_resolver t =
     \<lparr>rs_GetSecret = GetSecret t, rs_GetDefaultService = GetDefaultService t,
      rs_GetService = GetService t, rs_GetHostName = GetHostName t,
      rs_GetSvcPort = GetSvcPort t, rs_GetTlsData = GetTlsData t\<rparr>"

section \<open>Facts about the lookups\<close>

lemma copy_entries_append: "copy_entries data parsed = parsed @ data"
  by (induction data parsed rule: copy_entries.induct) auto

lemma DecodeBase64_id: "DecodeBase64 data = Inr data"
  by (simp add: DecodeBase64_def copy_entries_append)

lemma GetTlsData_GetSecret: "GetTlsData t key = GetSecret t key"
  by (cases "GetSecret t key") (simp_all add: GetTlsData_def DecodeBase64_id)

lemma GetService_error: "GetService t n = Inl f \<Longrightarrow> \<exists>e. f = Err e"
  by (auto simp: GetService_def Let_def split: sum.splits if_splits)

lemma GetService_ok: "GetService t n = Inr svc \<longleftrightarrow>
    cl_Service (ii_r t) \<lparr>ok_Name = n, ok_Namespace = ing_Namespace (ii_ingress t)\<rparr> = Inr svc"
  by (auto simp: GetService_def Let_def split: sum.splits)

lemma match_port_nonzero:
  "match_port sps bp \<noteq> 0 \<longleftrightarrow>
   bp_Number bp \<noteq> 0 \<and> (\<exists>sp\<in>set sps. sp_Port sp = bp_Number bp \<or> sp_Name sp = bp_Name bp)"
  by (induction sps) auto

lemma match_port_value: "match_port sps bp \<in> {0, bp_Number bp}"
  by (induction sps) auto

lemma port_of_backend_ok:
  assumes "port_of_backend t b = Inr p" and "p \<noteq> 0"
  obtains sb svc where "ib_Service b = Some sb" and "GetService t (sb_Name sb) = Inr svc"
    and "p = bp_Number (sb_Port sb)"
    and "\<exists>sp\<in>set (sv_Ports svc). sp_Port sp = p \<or> sp_Name sp = bp_Name (sb_Port sb)"
proof -
  from assms(1) obtain sb where sb: "ib_Service b = Some sb"
    by (auto simp: port_of_backend_def ebind_eq_Inr)
  moreover obtain svc where svc: "GetService t (sb_Name sb) = Inr svc"
    and p: "p = match_port (sv_Ports svc) (sb_Port sb)"
    using assms sb
    by (cases "GetService t (sb_Name sb)") (auto simp: port_of_backend_def split: fault.splits)
  moreover have "p = bp_Number (sb_Port sb)"
    using match_port_value [of "sv_Ports svc" "sb_Port sb"] p assms(2) by auto
  moreover have "\<exists>sp\<in>set (sv_Ports svc). sp_Port sp = p \<or> sp_Name sp = bp_Name (sb_Port sb)"
    using match_port_nonzero [of "sv_Ports svc" "sb_Port sb"] p calculation(4) assms(2) by metis
  ultimately show ?thesis using that by blast
qed

text \<open>The back end found for a name, where there is one, is a back end of the ingress with that name.\<close>

lemma backend_in_paths_ok:
  "backend_in_paths svc bs b0 = Inr b \<Longrightarrow>
   b = b0 \<or> (\<exists>p\<in>set bs. hp_Backend p = b \<and> (\<exists>sb. ib_Service b = Some sb \<and> sb_Name sb = svc))"
  by (induction bs) (auto simp: ebind_eq_Inr split: if_splits)

lemma GetBackend_service:
  assumes "GetBackend t svc = Inr b"
  shows "b = \<lparr>ib_Service = None\<rparr> \<or> (\<exists>sb. ib_Service b = Some sb \<and> sb_Name sb = svc)"
proof -
  have "efold (\<lambda>r backend. ebind (deref (ir_HTTP r)) (\<lambda>paths. backend_in_paths svc paths backend)) rs b0 = Inr b
      \<Longrightarrow> b = b0 \<or> (\<exists>sb. ib_Service b = Some sb \<and> sb_Name sb = svc)" for rs b0
    by (induction rs arbitrary: b0) (fastforce simp: ebind_eq_Inr dest: backend_in_paths_ok)+
  with assms show ?thesis by (simp add: GetBackend_def)
qed

text \<open>The function has no error result: it can panic, but it never fails with an error.\<close>

lemma backend_in_paths_no_error: "backend_in_paths svc bs b \<noteq> Inl (Err e)"
  by (induction bs) (auto simp: ebind_eq_Inl)

lemma port_of_backend_no_error: "port_of_backend t b \<noteq> Inl (Err e)"
  by (auto simp: port_of_backend_def ebind_eq_Inl split: sum.splits fault.splits)

lemma GetBackend_no_error: "GetBackend t n \<noteq> Inl (Err e)"
proof -
  have "efold (\<lambda>r b. ebind (deref (ir_HTTP r)) (\<lambda>paths. backend_in_paths n paths b)) rs b0 \<noteq> Inl (Err e)" for rs b0
    by (induction rs arbitrary: b0) (auto simp: ebind_eq_Inl backend_in_paths_no_error)
  then show ?thesis by (simp add: GetBackend_def)
qed

lemma GetSvcPort_no_error: "GetSvcPort t q \<noteq> Inl (Err e)"
  by (auto simp: GetSvcPort_def ebind_eq_Inl GetBackend_no_error port_of_backend_no_error
      split: port_query.splits)

section \<open>What the clients of the interface rely on\<close>

locale service_resolver =
  fixes rr :: resolver
  assumes service_error: "rs_GetService rr n = Inl f \<Longrightarrow> \<exists>e. f = Err e"
    and tls_is_secret: "rs_GetTlsData rr key = rs_GetSecret rr key"

text \<open>
  A port that is not zero is the number the ingress asks for, of a service that can be fetched and
  has a port with that number or with the name the ingress gives.
\<close>

locale port_resolver = service_resolver +
  assumes backend_port: "rs_GetSvcPort rr (QBackend b) = Inr p \<Longrightarrow> p \<noteq> 0 \<Longrightarrow>
      \<exists>sb svc. ib_Service b = Some sb \<and> rs_GetService rr (sb_Name sb) = Inr svc \<and>
        p = bp_Number (sb_Port sb) \<and>
        (\<exists>sp\<in>set (sv_Ports svc). sp_Port sp = p \<or> sp_Name sp = bp_Name (sb_Port sb))"
    and port_no_error: "rs_GetSvcPort rr q \<noteq> Inl (Err e)"
    and name_port: "rs_GetSvcPort rr (QName n) = Inr p \<Longrightarrow> p \<noteq> 0 \<Longrightarrow>
      \<exists>svc. rs_GetService rr n = Inr svc"

interpretation info: port_resolver "info_resolver t" for t
proof
  show "\<exists>e. f = Err e" if "rs_GetService (info_resolver t) n = Inl f" for n f
    using that GetService_error by (simp add: info_resolver_def)
  show "rs_GetTlsData (info_resolver t) key = rs_GetSecret (info_resolver t) key" for key
    by (simp add: info_resolver_def GetTlsData_GetSecret)
  show "\<exists>sb svc. ib_Service b = Some sb \<and> rs_GetService (info_resolver t) (sb_Name sb) = Inr svc \<and>
      p = bp_Number (sb_Port sb) \<and>
      (\<exists>sp\<in>set (sv_Ports svc). sp_Port sp = p \<or> sp_Name sp = bp_Name (sb_Port sb))"
    if "rs_GetSvcPort (info_resolver t) (QBackend b) = Inr p" and "p \<noteq> 0" for b p
    using that by (simp add: info_resolver_def GetSvcPort_def) (metis port_of_backend_ok)
  show "rs_GetSvcPort (info_resolver t) q \<noteq> Inl (Err e)" for q e
    by (simp add: info_resolver_def GetSvcPort_no_error)
  show "\<exists>svc. rs_GetService (info_resolver t) n = Inr svc"
    if port: "rs_GetSvcPort (info_resolver t) (QName n) = Inr p" and p: "p \<noteq> 0" for n p
  proof -
    from port obtain b where b: "GetBackend t n = Inr b" and pb: "port_of_backend t b = Inr p"
      by (auto simp: info_resolver_def GetSvcPort_def ebind_eq_Inr)
    from pb p obtain sb svc where sb: "ib_Service b = Some sb" "GetService t (sb_Name sb) = Inr svc"
      by (rule port_of_backend_ok)
    with GetBackend_service [OF b] have "sb_Name sb = n" by auto
    with sb show ?thesis by (auto simp: info_resolver_def)
  qed
qed

end
