(* ===== verification/Weight.thy ===== *)
theory Weight
  imports AnnParser Store
begin

text \<open>
  Package \<^verbatim>\<open>internal/annotations/weight\<close>: distributing the traffic of one path over
  several services, the annotations \<^verbatim>\<open>use-weight\<close> and \<^verbatim>\<open>set-weight\<close>. The value of the
  second is a list such as \<^verbatim>\<open>a:weight=80,b:weight=20\<close>; every entry is resolved through
  the interface \<^verbatim>\<open>Resolver\<close>.
\<close>

definition useWeightAnnotation :: string where "useWeightAnnotation = ''use-weight''"
definition setWeightAnnotation :: string where "setWeightAnnotation = ''set-weight''"

definition weightAnnotation :: annotation_fields where
  "weightAnnotation =
     [(useWeightAnnotation, ''use weight, e.g: ` true or false`, required''),
      (setWeightAnnotation, ''target backend, e.g: `svc-name1:weight=80,svc-name2:weight=20...`, required'')]"

record BackendWeight =
  bw_SvcList :: "string list"
  bw_Upstream :: string
  bw_UseWeight :: bool
  bw_SetWeight :: string

fun same_paths :: "string \<Rightarrow> http_path list \<Rightarrow> bool" where
  "same_paths path [] = True"
| "same_paths path (p # ps) =
     (let path' = (if path = [] then hp_Path p else path)
      in if path' \<noteq> hp_Path p then False else same_paths path' ps)"

definition inspectWeightVal :: "string \<Rightarrow> string result" where
  "inspectWeightVal data =
     ebind (index (split_on CHR ''='' data) 1) (\<lambda>v.
       Inr (if v = ''0'' then ''down'' else []))"

text \<open>One round of the loop over the entries: the name of the upstream so far and the list so far.\<close>

definition weight_entry ::
    "resolver \<Rightarrow> string \<Rightarrow> string \<Rightarrow> string \<times> string list \<Rightarrow> (string \<times> string list) result" where
  "weight_entry rr setWeight alias0 st =
     (let alias' = trim_space alias0
      in if alias' = [] then Inr st
         else let val = split_on CHR '':'' alias'
         in ebind (index val 0) (\<lambda>val0.
            ebind (case rs_GetService rr val0 of
                     Inl (Err _) \<Rightarrow> Inl (Err (NewIsMissResourcesError val0))
                   | r \<Rightarrow> r) (\<lambda>svc.
            ebind (rs_GetSvcPort rr (QName val0)) (\<lambda>svcPort.
            if svcPort = 0 then Inl (Err (NewIsMissResourcesError val0))
            else ebind (index val 1) (\<lambda>val1.
            if \<not> IsWeightPrefix val1
            then Inl (Err (NewInvalidAnnotationsContentError setWeightAnnotation setWeight))
            else ebind (inspectWeightVal val1) (\<lambda>data.
              let val1' = (if data \<noteq> [] then data else val1);
                  upstreamName = (if fst st = [] then sv_Name svc else fst st @ ''-'' @ sv_Name svc)
              in Inr (upstreamName,
                   snd st @ [sv_Name svc @ ''.'' @ sv_Namespace svc @ ''.svc:'' @
                             show_int (sint svcPort) @ '' '' @ val1'])))))))"

definition weight_check :: "resolver \<Rightarrow> ingress \<Rightarrow> BackendWeight \<Rightarrow> BackendWeight result" where
  "weight_check rr ing config =
     (if bw_UseWeight config then
        ebind (efold (\<lambda>r _. ebind (deref (ir_HTTP r)) (\<lambda>paths.
                 if same_paths [] paths then Inr ()
                 else Inl (Err (NewNotSatisfiableError
                   (''when annotation '' @ useWeightAnnotation @
                    '' is true, the path field of ingress must be the same, ingress name '' @ ing_Name ing)))))
               (Rules (ing_Spec ing)) ()) (\<lambda>_.
        let svcList = split_on CHR '','' (bw_SetWeight config)
        in if length svcList < 1
           then Inl (Err (NewNotSatisfiableError
                  (''at least two services are required to use the traffic allocation function, ingress name '' @
                   ing_Name ing)))
           else ebind (efold (weight_entry rr (bw_SetWeight config)) svcList ([], bw_SvcList config))
             (\<lambda>(upstreamName, l).
                let config' = config\<lparr>bw_SvcList := l\<rparr>
                in Inr (if bw_Upstream config' = []
                        then config'\<lparr>bw_Upstream := upstreamName @ ''-'' @ ing_Name ing @ ''-'' @ ing_Namespace ing\<rparr>
                        else config')))
      else Inr config)"

definition weight_parse :: "resolver \<Rightarrow> ingress \<Rightarrow> BackendWeight result" where
  "weight_parse rr ing =
     weight_check rr ing
       \<lparr>bw_SvcList = [], bw_Upstream = [],
        bw_UseWeight = or_false (GetBoolAnnotations useWeightAnnotation ing weightAnnotation),
        bw_SetWeight = or_empty (GetStringAnnotation setWeightAnnotation ing weightAnnotation)\<rparr>"

definition weight_validate :: "(string \<times> string) list \<Rightarrow> go_error option" where
  "weight_validate anns = CheckAnnotations anns weightAnnotation"

section \<open>Entries\<close>

text \<open>
  What a successful entry contributes: its service is fetched and has a port, its weight is well
  formed, a weight of zero takes the server out of service.
\<close>

definition entry_item :: "resolver \<Rightarrow> string \<Rightarrow> service \<Rightarrow> string \<Rightarrow> bool" where
  "entry_item rr entry svc item \<longleftrightarrow>
     (\<exists>v0 v1 rest port. split_on CHR '':'' entry = v0 # v1 # rest \<and>
        rs_GetService rr v0 = Inr svc \<and> rs_GetSvcPort rr (QName v0) = Inr port \<and> port \<noteq> 0 \<and>
        IsWeightPrefix v1 \<and>
        item = sv_Name svc @ ''.'' @ sv_Namespace svc @ ''.svc:'' @ show_int (sint port) @ '' '' @
               (if v1 = ''weight=0'' then ''down'' else v1))"

lemma weight_split:
  assumes "IsWeightPrefix v"
  shows "\<exists>w. split_on CHR ''='' v = [''weight'', w] \<and> v = ''weight='' @ w"
proof -
  from assms obtain w where v: "v = ''weight='' @ w" and "list_all is_digit w"
    by (auto simp: IsWeightPrefix_iff is_digit_def)
  then have "CHR ''='' \<notin> set w" by (auto simp: list_all_iff is_digit_def)
  then have "split_on CHR ''='' (''weight'' @ CHR ''='' # w) = [''weight'', w]"
    by (simp only: split_on_append) (simp add: split_on_absent)
  with v show ?thesis by simp
qed

lemma inspectWeightVal_ok:
  "IsWeightPrefix v \<Longrightarrow> inspectWeightVal v = Inr (if v = ''weight=0'' then ''down'' else [])"
  using weight_split [of v] by (auto simp: inspectWeightVal_def index_def)

lemma weight_entry_Nil: "trim_space a = [] \<Longrightarrow> weight_entry rr s a st = Inr st"
  by (simp add: weight_entry_def)

lemma weight_entry_ok:
  assumes "weight_entry rr s a (up, l) = Inr st" and "trim_space a \<noteq> []"
  shows "\<exists>svc item. entry_item rr (trim_space a) svc item \<and>
     st = (if up = [] then sv_Name svc else up @ ''-'' @ sv_Name svc, l @ [item])"
proof -
  let ?v = "split_on CHR '':'' (trim_space a)"
  from assms obtain svc port where v: "1 < length ?v" "IsWeightPrefix (?v ! 1)"
      and s: "rs_GetService rr (?v ! 0) = Inr svc" "rs_GetSvcPort rr (QName (?v ! 0)) = Inr port" "port \<noteq> 0"
      and st: "st = (if up = [] then sv_Name svc else up @ ''-'' @ sv_Name svc,
        l @ [sv_Name svc @ ''.'' @ sv_Namespace svc @ ''.svc:'' @ show_int (sint port) @ '' '' @
             (if ?v ! 1 = ''weight=0'' then ''down'' else ?v ! 1)])"
    by (auto simp: weight_entry_def Let_def ebind_eq_Inr index_eq_Inr inspectWeightVal_ok
        split: if_splits sum.splits fault.splits)
  from v(1) obtain v0 v1 rest where "?v = v0 # v1 # rest"
    by (cases ?v; cases "tl ?v") auto
  with v s st show ?thesis unfolding entry_item_def by auto
qed

definition entries :: "string \<Rightarrow> string list" where
  "entries v = filter (\<lambda>a. a \<noteq> []) (map trim_space (split_on CHR '','' v))"

definition add_name :: "service \<Rightarrow> string \<Rightarrow> string" where
  "add_name svc up = (if up = [] then sv_Name svc else up @ ''-'' @ sv_Name svc)"

lemma weight_entries_ok:
  "efold (weight_entry rr s) as (up, l) = Inr (up', l') \<Longrightarrow>
   \<exists>ps. list_all2 (\<lambda>e (svc, item). entry_item rr e svc item) (filter (\<lambda>a. a \<noteq> []) (map trim_space as)) ps \<and>
     l' = l @ map snd ps \<and> up' = fold (add_name \<circ> fst) ps up"
proof (induction as arbitrary: up l)
  case Nil
  then show ?case by simp
next
  case (Cons a as)
  show ?case
  proof (cases "trim_space a = []")
    case True
    with Cons show ?thesis by (simp add: weight_entry_Nil)
  next
    case False
    from Cons.prems obtain st where st: "weight_entry rr s a (up, l) = Inr st"
      and rest: "efold (weight_entry rr s) as st = Inr (up', l')"
      by (auto simp: ebind_eq_Inr)
    from weight_entry_ok [OF st False] obtain svc item where
      e: "entry_item rr (trim_space a) svc item" and "st = (add_name svc up, l @ [item])"
      by (auto simp: add_name_def)
    with rest have "efold (weight_entry rr s) as (add_name svc up, l @ [item]) = Inr (up', l')"
      by simp
    from Cons.IH [OF this] obtain ps where
      ps: "list_all2 (\<lambda>e (svc, item). entry_item rr e svc item) (filter (\<lambda>a. a \<noteq> []) (map trim_space as)) ps"
        "l' = (l @ [item]) @ map snd ps" "up' = fold (add_name \<circ> fst) ps (add_name svc up)"
      by blast
    with e False show ?thesis by (intro exI [of _ "(svc, item) # ps"]) (simp add: comp_def)
  qed
qed

section \<open>The group\<close>

text \<open>What a successful parse with the weights switched on returns.\<close>

lemma weight_parse_weighted:
  assumes "weight_parse rr ing = Inr bw" and "bw_UseWeight bw"
  shows "\<exists>ps. list_all2 (\<lambda>e (svc, item). entry_item rr e svc item) (entries (bw_SetWeight bw)) ps \<and>
     bw_SvcList bw = map snd ps \<and>
     bw_Upstream bw = fold (add_name \<circ> fst) ps [] @ ''-'' @ ing_Name ing @ ''-'' @ ing_Namespace ing"
proof -
  let ?s = "annotation ing (GetAnnotationWithPrefix setWeightAnnotation)"
  from assms obtain up l where
      e: "efold (weight_entry rr ?s) (split_on CHR '','' ?s) ([], []) = Inr (up, l)"
    and bw: "bw_SetWeight bw = ?s" "bw_SvcList bw = l"
      "bw_Upstream bw = up @ ''-'' @ ing_Name ing @ ''-'' @ ing_Namespace ing"
    by (auto simp: weight_parse_def weight_check_def ann_simps ebind_eq_Inr Let_def split: if_splits)
  from weight_entries_ok [OF e] bw show ?thesis unfolding entries_def by auto
qed

lemma weight_parse_plain:
  "weight_parse rr ing = Inr bw \<Longrightarrow> \<not> bw_UseWeight bw \<Longrightarrow> bw_SvcList bw = [] \<and> bw_Upstream bw = []"
  by (auto simp: weight_parse_def weight_check_def ebind_eq_Inr Let_def split: if_splits)

text \<open>With the weights on, all paths of a rule are one path.\<close>

lemma same_paths_fixed: "path \<noteq> [] \<Longrightarrow> same_paths path ps \<longleftrightarrow> (\<forall>p\<in>set ps. hp_Path p = path)"
  by (induction ps) (auto simp: Let_def)

lemma same_paths_iff:
  "same_paths [] ps \<longleftrightarrow>
   (let qs = dropWhile (\<lambda>p. hp_Path p = []) ps in \<forall>p\<in>set qs. hp_Path p = hp_Path (hd qs))"
  by (induction ps) (auto simp: Let_def same_paths_fixed)

text \<open>An entry without a colon brings the controller down once its service is resolved.\<close>

lemma weight_entry_panics:
  assumes "trim_space a \<noteq> []" and "CHR '':'' \<notin> set (trim_space a)"
    and "rs_GetService rr (trim_space a) = Inr svc"
    and "rs_GetSvcPort rr (QName (trim_space a)) = Inr port" and "port \<noteq> 0"
  shows "weight_entry rr s a st = Inl (Panic IndexOutOfRange)"
  using assms by (simp add: weight_entry_def split_on_absent index_def)

lemma weight_validate_ok: "weight_validate anns = None"
  by (simp add: weight_validate_def CheckAnnotations_documented weightAnnotation_def)

lemma weight_check_cong:
  "ing_Name i = ing_Name j \<Longrightarrow> ing_Namespace i = ing_Namespace j \<Longrightarrow> ing_Spec i = ing_Spec j \<Longrightarrow>
   weight_check rr i c = weight_check rr j c"
  unfolding weight_check_def by (erule ssubst)+ (rule refl)

context port_resolver
begin

lemma weight_entry_errors: "weight_entry rr s a st = Inl (Err e) \<Longrightarrow> aborting e"
  using service_error port_no_error
  by (auto simp: weight_entry_def Let_def ebind_eq_Inl index_eq_Inl inspectWeightVal_def
      split: if_splits sum.splits fault.splits)

lemma weight_entries_errors: "efold (weight_entry rr s) as st = Inl (Err e) \<Longrightarrow> aborting e"
  by (induction as arbitrary: st) (auto simp: ebind_eq_Inl dest: weight_entry_errors)

lemma weight_group:
  "annotation_group (weight_parse rr) weight_validate [useWeightAnnotation, setWeightAnnotation]"
proof
  show "weight_validate anns = None" for anns by (rule weight_validate_ok)
  show "weight_parse rr i = weight_parse rr j"
    if "same_but [useWeightAnnotation, setWeightAnnotation] i j" for i j
    using that weight_check_cong [of i j]
    by (simp add: weight_parse_def ann_simps same_but_def)
  show "aborting e" if "weight_parse rr i = Inl (Err e)" for i e
  proof -
    have paths: "efold (\<lambda>r _. ebind (deref (ir_HTTP r)) (\<lambda>paths. if same_paths [] paths then Inr ()
        else Inl (Err (NewNotSatisfiableError m)))) rs () = Inl (Err e) \<Longrightarrow> aborting e" for rs m
      by (induction rs) (auto simp: ebind_eq_Inl split: if_splits)
    from that paths weight_entries_errors show ?thesis
      by (auto simp: weight_parse_def weight_check_def ebind_eq_Inl Let_def split: if_splits)
  qed
qed

text \<open>Every server a successful parse lists belongs to a service that can be fetched.\<close>

lemma weight_entry_service:
  "entry_item rr e svc item \<Longrightarrow> rs_GetService rr (hd (split_on CHR '':'' e)) = Inr svc"
  by (auto simp: entry_item_def)

end

interpretation weight: annotation_group "weight_parse (info_resolver t)" weight_validate
    "[useWeightAnnotation, setWeightAnnotation]" for t
  by (rule info.weight_group)

end
