(* ===== verification/Extractor.thy ===== *)
theory Extractor
  imports AllowCos IpAllowList IpDenyList Redirect Rewrite SslStapling Proxy Weight
    "HOL-Library.AList" "HOL-Library.Multiset"
begin

text \<open>
  Package \<^verbatim>\<open>internal/annotations\<close>: all annotation groups run over an ingress, their values
  merged into one structure. The groups are the values of a Go map, so the order in which they run is
  not fixed: the extractor is a list and the facts hold for every order of its entries. The merge is
  done by a library outside the repository: a parameter \<open>mg\<close>, with what the code relies on in
  \<open>mergo_fills\<close>.
\<close>

datatype ann_value =
    VProxy proxy_config
  | VRedirect redirect_config
  | VAllowList allow_range
  | VDenyList deny_range
  | VRewrite rewrite_config
  | VSSLStapling ssl_config
  | VAllowCos cos_config
  | VWeight BackendWeight

record IngressAnnotation =
  ap_Parse :: "ingress \<Rightarrow> ann_value result"
  ap_Validate :: "(string \<times> string) list \<Rightarrow> go_error option"

type_synonym Extractor = "(string \<times> IngressAnnotation) list"

record ing_annotations =
  ia_Name :: string
  ia_Namespace :: string
  ia_Annotations :: "(string \<times> string) list"
  ia_Proxy :: proxy_config
  ia_Rewrite :: rewrite_config
  ia_Redirect :: redirect_config
  ia_SSLStapling :: ssl_config
  ia_AllowList :: allow_range
  ia_DenyList :: deny_range
  ia_AllowCos :: cos_config
  ia_Weight :: BackendWeight

definition group_value :: "('v \<Rightarrow> ann_value) \<Rightarrow> (ingress \<Rightarrow> 'v result) \<Rightarrow>
    ((string \<times> string) list \<Rightarrow> go_error option) \<Rightarrow> IngressAnnotation" where
  "group_value c parse validate = \<lparr>ap_Parse = (\<lambda>i. map_sum id c (parse i)), ap_Validate = validate\<rparr>"

definition NewAnnotationExtractor :: "resolver \<Rightarrow> Extractor" where
  "NewAnnotationExtractor r =
     [(''Proxy'', group_value VProxy proxy_parse proxy_validate),
      (''Redirect'', group_value VRedirect redirect_parse redirect_validate),
      (''AllowList'', group_value VAllowList allow_parse allow_validate),
      (''DenyList'', group_value VDenyList deny_parse deny_validate),
      (''Rewrite'', group_value VRewrite rewrite_parse rewrite_validate),
      (''SSLStapling'', group_value VSSLStapling ssl_parse ssl_validate),
      (''AllowCos'', group_value VAllowCos cos_parse cos_validate),
      (''Weight'', group_value VWeight (weight_parse r) weight_validate)]"

text \<open>The zero value of the structure under the metadata of an ingress.\<close>

definition new_annotations :: "ingress \<Rightarrow> ing_annotations" where
  "new_annotations ing =
     \<lparr>ia_Name = ing_Name ing, ia_Namespace = ing_Namespace ing, ia_Annotations = ing_Annotations ing,
      ia_Proxy = \<lparr>px_ProxyPath = [], px_ProxyHost = [], px_ProxyTarget = [], px_ProxyTargetPath = [],
                  px_ProxySSL = False, px_ProxyEnableRegex = False\<rparr>,
      ia_Rewrite = \<lparr>rw_RewriteTarget = [], rw_EnableRegex = False\<rparr>,
      ia_Redirect = \<lparr>rd_Host = [], rd_Path = []\<rparr>,
      ia_SSLStapling = \<lparr>ss_SSllStaplingVerify = False, ss_SSlStapling = False\<rparr>,
      ia_AllowList = \<lparr>allow_CIDR = []\<rparr>,
      ia_DenyList = \<lparr>deny_CIDR = []\<rparr>,
      ia_AllowCos = \<lparr>AllowCosFlag = False\<rparr>,
      ia_Weight = \<lparr>bw_SvcList = [], bw_Upstream = [], bw_UseWeight = False, bw_SetWeight = []\<rparr>\<rparr>"

type_synonym mergo = "ing_annotations \<Rightarrow> (string \<times> ann_value) list \<Rightarrow> ing_annotations \<times> go_error option"

text \<open>The loop. A parser that returns an error returns no value with it that the loop would keep.\<close>

fun extract_loop ::
    "Extractor \<Rightarrow> ingress \<Rightarrow> (string \<times> ann_value) list \<Rightarrow> (string \<times> ann_value) list result" where
  "extract_loop [] ing data = Inr data"
| "extract_loop ((name, annotationParser) # rest) ing data =
     (case ap_Validate annotationParser (ing_Annotations ing) of
        Some _ \<Rightarrow> Inl (Err (NewRiskyAnnotations name))
      | None \<Rightarrow>
          (case ap_Parse annotationParser ing of
             Inl (Err err) \<Rightarrow>
               if IsValidationError err then Inl (Err err)
               else if IsInvalidIngressContentError err then Inl (Err err)
               else if IsInvalidAnnotationsContentError err then Inl (Err err)
               else if IsMissResourcesError err then Inl (Err err)
               else if IsNotSatisfiableError err then Inl (Err err)
               else extract_loop rest ing data
           | Inl f \<Rightarrow> Inl f
           | Inr v \<Rightarrow> extract_loop rest ing (AList.update name v data)))"

definition Extract :: "mergo \<Rightarrow> Extractor \<Rightarrow> ingress \<Rightarrow> ing_annotations result" where
  "Extract mg e ing =
     ebind (extract_loop e ing []) (\<lambda>data. Inr (fst (mg (new_annotations ing) data)))"

section \<open>The loop under the contract of the groups\<close>

definition group_ok :: "IngressAnnotation \<Rightarrow> bool" where
  "group_ok p \<longleftrightarrow> (\<exists>keys. annotation_group (ap_Parse p) (ap_Validate p) keys)"

lemma group_okD:
  assumes "group_ok p"
  shows "ap_Validate p anns = None" and "ap_Parse p ing = Inl (Err e) \<Longrightarrow> aborting e"
  using assms annotation_group.validate_ok annotation_group.parse_errors
  unfolding group_ok_def by blast+

lemma group_ok_value:
  "annotation_group parse validate keys \<Longrightarrow> group_ok (group_value c parse validate)"
  unfolding group_ok_def group_value_def by (auto intro: annotation_group.wrapped)

lemma extractor_groups_ok:
  "(n, p) \<in> set (NewAnnotationExtractor (info_resolver t)) \<Longrightarrow> group_ok p"
  by (auto simp: NewAnnotationExtractor_def
      intro: group_ok_value proxy.annotation_group_axioms redirect.annotation_group_axioms
        ip_allow.annotation_group_axioms ip_deny.annotation_group_axioms rewrite.annotation_group_axioms
        ssl.annotation_group_axioms cos.annotation_group_axioms weight.annotation_group_axioms)

text \<open>Under the contract the loop parses every group and stops at the first that fails.\<close>

definition run_group :: "ingress \<Rightarrow> string \<times> IngressAnnotation \<Rightarrow> (string \<times> ann_value) result" where
  "run_group ing np = ebind (ap_Parse (snd np) ing) (\<lambda>v. Inr (fst np, v))"

definition put_value :: "string \<times> ann_value \<Rightarrow> (string \<times> ann_value) list \<Rightarrow> (string \<times> ann_value) list" where
  "put_value nv data = AList.update (fst nv) (snd nv) data"

lemma put_value_Pair [simp]: "put_value (n, v) data = AList.update n v data"
  by (simp add: put_value_def)

lemma run_group_Inr: "run_group ing np = Inr nv \<longleftrightarrow> (\<exists>v. ap_Parse (snd np) ing = Inr v \<and> nv = (fst np, v))"
  by (auto simp: run_group_def ebind_eq_Inr)

lemma extract_loop_groups:
  assumes "\<forall>np\<in>set ps. group_ok (snd np)"
  shows "extract_loop ps ing data = ebind (emap (run_group ing) ps) (\<lambda>vs. Inr (fold put_value vs data))"
  using assms
proof (induction ps arbitrary: data)
  case Nil
  then show ?case by simp
next
  case (Cons q ps)
  obtain n p where q: "q = (n, p)" by (cases q)
  with Cons.prems have ok: "group_ok p" and rest: "\<forall>np\<in>set ps. group_ok (snd np)" by auto
  note v = group_okD(1) [OF ok] and e = group_okD(2) [OF ok]
  show ?case
  proof (cases "ap_Parse p ing")
    case (Inl f)
    then have run: "run_group ing q = Inl f" using q by (simp add: run_group_def)
    show ?thesis
    proof (cases f)
      case (Err x)
      with Inl e have "aborting x" by simp
      with run show ?thesis using q v Inl Err by (auto simp: aborting_def)
    qed (use q v Inl run in simp_all)
  next
    case (Inr a)
    then have "run_group ing q = Inr (n, a)" using q by (simp add: run_group_Inr)
    with q v Inr Cons.IH [OF rest] show ?thesis
      by (cases "emap (run_group ing) ps") simp_all
  qed
qed

lemma map_of_fold_put:
  "distinct (map fst vs) \<Longrightarrow> map_of (fold put_value vs data) = map_of data ++ map_of vs"
proof (induction vs arbitrary: data)
  case (Cons x vs)
  then have "map_of vs (fst x) = None" by (simp add: map_of_eq_None_iff)
  then have "(map_of data)(fst x \<mapsto> snd x) ++ map_of vs = map_of data ++ map_of (x # vs)"
    by (auto simp: map_add_def fun_eq_iff split: option.splits)
  moreover have "map_of (put_value x data) = (map_of data)(fst x \<mapsto> snd x)"
    by (simp add: put_value_def update_conv')
  moreover have "map_of (fold put_value (x # vs) data) = map_of (put_value x data) ++ map_of vs"
    using Cons by simp
  ultimately show ?case by (simp only:)
qed simp

lemma distinct_fold_put: "go_map data \<Longrightarrow> go_map (fold put_value vs data)"
  by (induction vs arbitrary: data) (auto simp: put_value_def distinct_update)

text \<open>
  The names stay those of the groups, so what is merged is each group's value under its name,
  whatever the order.
\<close>

lemma emap_run_group_fst: "emap (run_group ing) ps = Inr vs \<Longrightarrow> map fst vs = map fst ps"
  by (induction ps arbitrary: vs) (auto simp: ebind_eq_Inr run_group_Inr)

lemma emap_run_group_lookup:
  assumes "emap (run_group ing) ps = Inr vs" and "go_map ps" and "(n, p) \<in> set ps"
  shows "\<exists>v. ap_Parse p ing = Inr v \<and> map_of vs n = Some v"
  using assms
proof (induction ps arbitrary: vs)
  case (Cons q ps)
  from Cons.prems(1) obtain w ws where w: "run_group ing q = Inr w" and ws: "emap (run_group ing) ps = Inr ws"
    and vs: "vs = w # ws" by (auto simp: ebind_eq_Inr)
  show ?case
  proof (cases "q = (n, p)")
    case True
    with w vs show ?thesis by (auto simp: run_group_Inr)
  next
    case False
    with Cons.prems have "(n, p) \<in> set ps" by auto
    moreover have "n \<in> fst ` set ps" using \<open>(n, p) \<in> set ps\<close> by (rule image_eqI [rotated]) simp
    then have "fst q \<noteq> n" using Cons.prems(2) by auto
    ultimately show ?thesis using Cons.IH [OF ws] Cons.prems(2) w vs by (auto simp: run_group_Inr)
  qed
qed simp

section \<open>Any order of the groups\<close>

text \<open>What the iteration over the extractor of the controller can see: its entries in some order.\<close>

definition iteration_of :: "Extractor \<Rightarrow> Extractor \<Rightarrow> bool" where
  "iteration_of ps e \<longleftrightarrow> mset ps = mset e"

lemma iteration_of_set: "iteration_of ps e \<Longrightarrow> set ps = set e"
  unfolding iteration_of_def by (metis set_mset_mset)

lemma NewAnnotationExtractor_names:
  "map fst (NewAnnotationExtractor r) =
     [''Proxy'', ''Redirect'', ''AllowList'', ''DenyList'', ''Rewrite'', ''SSLStapling'', ''AllowCos'', ''Weight'']"
  by (simp add: NewAnnotationExtractor_def)

lemma iteration_of_distinct:
  assumes "iteration_of ps (NewAnnotationExtractor r)"
  shows "go_map ps"
proof -
  have "mset (map fst ps) = mset (map fst (NewAnnotationExtractor r))"
    using assms unfolding iteration_of_def by (simp add: mset_map)
  moreover have "distinct (map fst (NewAnnotationExtractor r))"
    by (simp add: NewAnnotationExtractor_names)
  ultimately show ?thesis using mset_eq_imp_distinct_iff by blast
qed

lemma extract_loop_iteration:
  assumes "iteration_of ps (NewAnnotationExtractor (info_resolver t))"
  shows "extract_loop ps ing [] = ebind (emap (run_group ing) ps) (\<lambda>vs. Inr (fold put_value vs []))"
  using assms extractor_groups_ok by (intro extract_loop_groups) (auto dest: iteration_of_set)

text \<open>The loop succeeds in one order exactly when every group parses.\<close>

lemma extract_loop_ok_iff:
  assumes "iteration_of ps (NewAnnotationExtractor (info_resolver t))"
  shows "(\<exists>data. extract_loop ps ing [] = Inr data) \<longleftrightarrow>
    (\<forall>(n, p)\<in>set (NewAnnotationExtractor (info_resolver t)). \<exists>v. ap_Parse p ing = Inr v)"
proof -
  have "(\<exists>data. extract_loop ps ing [] = Inr data) \<longleftrightarrow> (\<exists>vs. emap (run_group ing) ps = Inr vs)"
    by (simp add: extract_loop_iteration [OF assms] ebind_eq_Inr)
  also have "\<dots> \<longleftrightarrow> (\<forall>np\<in>set ps. \<exists>v. ap_Parse (snd np) ing = Inr v)"
    by (induction ps) (auto simp: ebind_eq_Inr run_group_Inr)
  finally show ?thesis using iteration_of_set [OF assms] by (simp add: case_prod_beta)
qed

lemma extract_loop_data:
  assumes "iteration_of ps (NewAnnotationExtractor (info_resolver t))"
    and "extract_loop ps ing [] = Inr data"
    and "(n, p) \<in> set (NewAnnotationExtractor (info_resolver t))"
  shows "\<exists>v. ap_Parse p ing = Inr v \<and> map_of data n = Some v"
proof -
  from assms(1,2) obtain vs where vs: "emap (run_group ing) ps = Inr vs" and data: "data = fold put_value vs []"
    by (auto simp: extract_loop_iteration ebind_eq_Inr)
  have "distinct (map fst vs)"
    using emap_run_group_fst [OF vs] iteration_of_distinct [OF assms(1)] by simp
  then have "map_of data = map_of vs" by (simp add: data map_of_fold_put)
  moreover have "(n, p) \<in> set ps" using assms(1,3) iteration_of_set by blast
  ultimately show ?thesis
    using emap_run_group_lookup [OF vs iteration_of_distinct [OF assms(1)]] by simp
qed

lemma extract_loop_data_distinct:
  assumes "iteration_of ps (NewAnnotationExtractor (info_resolver t))"
    and "extract_loop ps ing [] = Inr data"
  shows "go_map data"
  using assms by (auto simp: extract_loop_iteration ebind_eq_Inr intro: distinct_fold_put)

text \<open>An error of the loop is the error of some group.\<close>

lemma extract_loop_error:
  assumes "iteration_of ps (NewAnnotationExtractor (info_resolver t))"
    and "extract_loop ps ing [] = Inl f"
  shows "\<exists>(n, p)\<in>set (NewAnnotationExtractor (info_resolver t)). ap_Parse p ing = Inl f"
proof -
  from assms obtain np where "np \<in> set ps" and "run_group ing np = Inl f"
    using emap_Inl_ex by (fastforce simp: extract_loop_iteration ebind_eq_Inl)
  then have "ap_Parse (snd np) ing = Inl f" by (auto simp: run_group_def ebind_eq_Inl)
  moreover have "np \<in> set (NewAnnotationExtractor (info_resolver t))"
    using \<open>np \<in> set ps\<close> iteration_of_set [OF assms(1)] by simp
  ultimately show ?thesis by (intro bexI [of _ np]) (simp_all add: case_prod_beta)
qed

section \<open>The merge\<close>

text \<open>
  Documented behaviour of \<^verbatim>\<open>mergo.MapWithOverwrite\<close> that the code relies on: merged into a
  structure whose groups are still zero, every entry whose key is the name of a field becomes the
  value of that field, and the metadata stay.
\<close>

definition fill :: "(string \<rightharpoonup> ann_value) \<Rightarrow> ing_annotations \<Rightarrow> ing_annotations" where
  "fill d a = a\<lparr>
     ia_Proxy := (case d ''Proxy'' of Some (VProxy v) \<Rightarrow> v | _ \<Rightarrow> ia_Proxy a),
     ia_Rewrite := (case d ''Rewrite'' of Some (VRewrite v) \<Rightarrow> v | _ \<Rightarrow> ia_Rewrite a),
     ia_Redirect := (case d ''Redirect'' of Some (VRedirect v) \<Rightarrow> v | _ \<Rightarrow> ia_Redirect a),
     ia_SSLStapling := (case d ''SSLStapling'' of Some (VSSLStapling v) \<Rightarrow> v | _ \<Rightarrow> ia_SSLStapling a),
     ia_AllowList := (case d ''AllowList'' of Some (VAllowList v) \<Rightarrow> v | _ \<Rightarrow> ia_AllowList a),
     ia_DenyList := (case d ''DenyList'' of Some (VDenyList v) \<Rightarrow> v | _ \<Rightarrow> ia_DenyList a),
     ia_AllowCos := (case d ''AllowCos'' of Some (VAllowCos v) \<Rightarrow> v | _ \<Rightarrow> ia_AllowCos a),
     ia_Weight := (case d ''Weight'' of Some (VWeight v) \<Rightarrow> v | _ \<Rightarrow> ia_Weight a)\<rparr>"

definition mergo_fills :: "mergo \<Rightarrow> bool" where
  "mergo_fills mg \<longleftrightarrow>
     (\<forall>ing data. go_map data \<longrightarrow> mg (new_annotations ing) data = (fill (map_of data) (new_annotations ing), None))"

end
