(* ===== verification/Sha1.thy ===== *)
theory Sha1
  imports Main
begin

text \<open>
  Packages \<^verbatim>\<open>crypto/sha1\<close> and \<^verbatim>\<open>encoding/hex\<close> of the Go library: the digest the
  controller compares files by (\<^verbatim>\<open>pkg/utils/file/md5.go\<close>). A \<open>char\<close> of the argument
  is a byte. The 32-bit words are integers with the wrap-around written out, so that digests of
  concrete files can be evaluated; the bit length in the padding is taken modulo \<open>2 ^ 64\<close>, as the
  algorithm does.
\<close>

unbundle bit_operations_syntax

type_synonym u32 = int

definition m32 :: "int \<Rightarrow> u32" where
  "m32 x = x mod 4294967296"

definition rotl :: "nat \<Rightarrow> u32 \<Rightarrow> u32" where
  "rotl n x = m32 (x * 2 ^ n) + x div 2 ^ (32 - n)"

definition be_bytes :: "nat \<Rightarrow> int \<Rightarrow> int list" where
  "be_bytes k n = map (\<lambda>i. n div 256 ^ (k - 1 - i) mod 256) [0..<k]"

definition pad :: "int list \<Rightarrow> int list" where
  "pad bs = bs @ [128] @ replicate ((119 - length bs mod 64) mod 64) 0 @ be_bytes 8 (8 * int (length bs))"

fun be_words :: "int list \<Rightarrow> u32 list" where
  "be_words (a # b # c # d # rest) =
     (((a * 256 + b) * 256 + c) * 256 + d) # be_words rest"
| "be_words _ = []"

text \<open>The message schedule, the latest word first.\<close>

fun schedule :: "nat \<Rightarrow> u32 list \<Rightarrow> u32 list" where
  "schedule 0 r = r"
| "schedule (Suc n) r =
     schedule n (rotl 1 ((r ! 2) XOR (r ! 7) XOR (r ! 13) XOR (r ! 15)) # r)"

type_synonym sha_state = "u32 \<times> u32 \<times> u32 \<times> u32 \<times> u32"

definition round_fun :: "nat \<Rightarrow> u32 \<Rightarrow> u32 \<Rightarrow> u32 \<Rightarrow> u32" where
  "round_fun t b c d =
     (if t < 20 then (b AND c) OR (NOT b AND d)
      else if t < 40 then b XOR c XOR d
      else if t < 60 then (b AND c) OR (b AND d) OR (c AND d)
      else b XOR c XOR d)"

definition round_const :: "nat \<Rightarrow> u32" where
  "round_const t =
     (if t < 20 then 0x5A827999 else if t < 40 then 0x6ED9EBA1
      else if t < 60 then 0x8F1BBCDC else 0xCA62C1D6)"

fun rounds :: "nat \<Rightarrow> u32 list \<Rightarrow> sha_state \<Rightarrow> sha_state" where
  "rounds t [] s = s"
| "rounds t (w # ws) (a, b, c, d, e) =
     rounds (Suc t) ws
       (m32 (rotl 5 a + round_fun t b c d + e + w + round_const t), a, rotl 30 b, c, d)"

definition sha_block :: "u32 list \<Rightarrow> sha_state \<Rightarrow> sha_state" where
  "sha_block ws s =
     (case s of (a0, b0, c0, d0, e0) \<Rightarrow>
       (case rounds 0 (rev (schedule 64 (rev ws))) s of (a, b, c, d, e) \<Rightarrow>
         (m32 (a0 + a), m32 (b0 + b), m32 (c0 + c), m32 (d0 + d), m32 (e0 + e))))"

function sha_blocks :: "u32 list \<Rightarrow> sha_state \<Rightarrow> sha_state" where
  "sha_blocks ws s = (if length ws < 16 then s else sha_blocks (drop 16 ws) (sha_block (take 16 ws) s))"
  by pat_completeness auto
termination
  by (relation "measure (\<lambda>(ws, s). length ws)") auto

declare sha_blocks.simps [simp del]

definition sha1_words :: "string \<Rightarrow> sha_state" where
  "sha1_words s =
     sha_blocks (be_words (pad (map of_char s)))
       (0x67452301, 0xEFCDAB89, 0x98BADCFE, 0x10325476, 0xC3D2E1F0)"

definition hex_digit :: "int \<Rightarrow> char" where
  "hex_digit d = char_of (if d < 10 then 48 + d else 87 + d)"

definition hex_word :: "u32 \<Rightarrow> string" where
  "hex_word w = map (\<lambda>i. hex_digit (w div 16 ^ (7 - i) mod 16)) [0..<8]"

definition sha1_hex :: "string \<Rightarrow> string" where
  "sha1_hex s =
     (case sha1_words s of (a, b, c, d, e) \<Rightarrow>
       hex_word a @ hex_word b @ hex_word c @ hex_word d @ hex_word e)"

lemma length_sha1_hex: "length (sha1_hex s) = 40"
  by (simp add: sha1_hex_def hex_word_def split: prod.splits)

lemma sha1_hex_not_Nil [simp]: "sha1_hex s \<noteq> []"
  using length_sha1_hex [of s] by auto

text \<open>The padded message is a whole number of blocks.\<close>

lemma length_pad: "64 dvd length (pad bs)"
proof -
  define q r where "q = length bs div 64" and "r = length bs mod 64"
  then have n: "length bs = 64 * q + r" and r: "r < 64" by simp_all
  have "length (pad bs) = length bs + (119 - r) mod 64 + 9"
    by (simp add: pad_def be_bytes_def r_def)
  also have "\<dots> = 64 * (q + (if r \<le> 55 then 1 else 2))"
  proof (cases "r \<le> 55")
    case True
    then have "(119 - r) mod 64 = (64 + (55 - r)) mod 64" by simp
    also have "\<dots> = 55 - r" by (subst mod_add_self1) simp
    finally show ?thesis using True n by simp
  next
    case False
    then have "(119 - r) mod 64 = 119 - r" using r by simp
    then show ?thesis using False n r by simp
  qed
  finally show ?thesis by simp
qed

text \<open>The test vector of the standard.\<close>

lemma sha1_abc: "sha1_hex ''abc'' = ''a9993e364706816aba3e25717850c26c9cd0d89d''"
  by code_simp

end
