(* ===== verification/GoFiles.thy ===== *)
theory GoFiles
  imports KErrors Sha1
begin

text \<open>
  Package \<^verbatim>\<open>os\<close> as far as the controller uses it, and the digest of a file
  (\<^verbatim>\<open>pkg/utils/file/md5.go\<close>). The world is the files by path, the faults the disk has in
  store for each path, and the log of what was done to the nginx process. A write can fail to open the
  file, or can break off after some bytes: opening truncates, so the old content is gone then. The
  content of a file is bytes; text the controller writes is taken to be ASCII, where a code point
  below 128 and its byte coincide.
\<close>

datatype write_fault =
    Writable
  | OpenFails
  | Breaks nat   \<comment> \<open>the bytes that still reach the disk\<close>

type_synonym file_map = "string \<Rightarrow> string option"

datatype event =
    Tested file_map      \<comment> \<open>\<^verbatim>\<open>nginx -t\<close> was run on these files\<close>
  | Hup int file_map     \<comment> \<open>the process got SIGHUP while these were the files\<close>

record world =
  files :: file_map
  wfault :: "string \<Rightarrow> write_fault"
  rfault :: "string \<Rightarrow> bool"
  rmfault :: "string \<Rightarrow> bool"
  events :: "event list"

definition set_file :: "string \<Rightarrow> string option \<Rightarrow> world \<Rightarrow> world" where
  "set_file p c w = w\<lparr>files := (files w)(p := c)\<rparr>"

definition os_read :: "string \<Rightarrow> world \<Rightarrow> go_error + string" where
  "os_read p w =
     (case files w p of
        None \<Rightarrow> Inl (PathError (''open '' @ p @ '': no such file or directory''))
      | Some c \<Rightarrow> if rfault w p then Inl (PathError (''read '' @ p @ '': input/output error'')) else Inr c)"

definition os_write :: "string \<Rightarrow> string \<Rightarrow> world \<Rightarrow> go_error option \<times> world" where
  "os_write p b w =
     (case wfault w p of
        Writable \<Rightarrow> (None, set_file p (Some b) w)
      | OpenFails \<Rightarrow> (Some (PathError (''open '' @ p @ '': permission denied'')), w)
      | Breaks n \<Rightarrow> (Some (PathError (''write '' @ p @ '': no space left on device'')),
                     set_file p (Some (take n b)) w))"

text \<open>\<^verbatim>\<open>os.Stat\<close>: the size.\<close>

definition os_stat :: "string \<Rightarrow> world \<Rightarrow> go_error + nat" where
  "os_stat p w =
     (case files w p of
        None \<Rightarrow> Inl (PathError (''stat '' @ p @ '': no such file or directory''))
      | Some c \<Rightarrow> Inr (length c))"

definition os_remove :: "string \<Rightarrow> world \<Rightarrow> go_error option \<times> world" where
  "os_remove p w =
     (if files w p = None then (Some (PathError (''remove '' @ p @ '': no such file or directory'')), w)
      else if rmfault w p then (Some (PathError (''remove '' @ p @ '': operation not permitted'')), w)
      else (None, set_file p None w))"

definition SHA1 :: "string \<Rightarrow> world \<Rightarrow> string" where
  "SHA1 filename w = (case os_read filename w of Inl _ \<Rightarrow> [] | Inr s \<Rightarrow> sha1_hex s)"

section \<open>Reading after an operation\<close>

text \<open>A path on which nothing goes wrong.\<close>

definition healthy :: "world \<Rightarrow> string \<Rightarrow> bool" where
  "healthy w p \<longleftrightarrow> wfault w p = Writable \<and> \<not> rfault w p \<and> \<not> rmfault w p"

lemma set_file_simps [fs_simps, simp]:
  "files (set_file p c w) = (files w)(p := c)"
  "wfault (set_file p c w) = wfault w" "rfault (set_file p c w) = rfault w"
  "rmfault (set_file p c w) = rmfault w" "events (set_file p c w) = events w"
  "healthy (set_file p c w) = healthy w"
  by (simp_all add: set_file_def healthy_def fun_eq_iff)

lemma os_read_ok: "os_read p w = Inr c \<longleftrightarrow> files w p = Some c \<and> \<not> rfault w p"
  by (auto simp: os_read_def split: option.splits)

lemma os_write_healthy [fs_simps]: "healthy w p \<Longrightarrow> os_write p b w = (None, set_file p (Some b) w)"
  by (simp add: os_write_def healthy_def)

lemma os_read_healthy [fs_simps]: "healthy w p \<Longrightarrow> files w p = Some c \<Longrightarrow> os_read p w = Inr c"
  by (simp add: os_read_ok healthy_def)

lemma os_stat_simps [fs_simps]:
  "files w p = Some c \<Longrightarrow> os_stat p w = Inr (length c)"
  "files w p = None \<Longrightarrow> \<exists>e. os_stat p w = Inl e"
  by (simp_all add: os_stat_def)

lemma SHA1_healthy [fs_simps]: "healthy w p \<Longrightarrow> files w p = Some c \<Longrightarrow> SHA1 p w = sha1_hex c"
  by (simp add: SHA1_def os_read_healthy)

lemma os_remove_healthy:
  "healthy w p \<Longrightarrow> snd (os_remove p w) = set_file p None w"
  by (auto simp: os_remove_def healthy_def set_file_def fun_upd_idem)

text \<open>Whatever goes wrong, an operation changes its own path only, and nothing but the files.\<close>

definition touches_only :: "string set \<Rightarrow> world \<Rightarrow> world \<Rightarrow> bool" where
  "touches_only ps w w' \<longleftrightarrow>
     (\<forall>p. p \<notin> ps \<longrightarrow> files w' p = files w p) \<and>
     wfault w' = wfault w \<and> rfault w' = rfault w \<and> rmfault w' = rmfault w"

lemma touches_only_refl [simp]: "touches_only ps w w"
  by (simp add: touches_only_def)

lemma touches_only_trans: "touches_only ps w w' \<Longrightarrow> touches_only ps w' w'' \<Longrightarrow> touches_only ps w w''"
  by (simp add: touches_only_def)

lemma touches_only_mono: "touches_only ps w w' \<Longrightarrow> ps \<subseteq> qs \<Longrightarrow> touches_only qs w w'"
  by (auto simp: touches_only_def)

lemma touches_only_healthy: "touches_only ps w w' \<Longrightarrow> healthy w' = healthy w"
  by (simp add: touches_only_def healthy_def fun_eq_iff)

lemma os_write_touches: "os_write p b w = (r, w') \<Longrightarrow> touches_only {p} w w' \<and> events w' = events w"
  by (auto simp: os_write_def touches_only_def split: write_fault.splits)

lemma os_remove_touches: "os_remove p w = (r, w') \<Longrightarrow> touches_only {p} w w' \<and> events w' = events w"
  by (auto simp: os_remove_def touches_only_def split: if_splits)

end
