(* ===== verification/TlsFiles.thy ===== *)
theory TlsFiles
  imports Extractor GoFiles
begin

text \<open>
  The certificate files of \<^verbatim>\<open>internal/controller/nginx.go\<close>: \<^verbatim>\<open>generateTlsFile\<close>
  and its two cases. Every entry of a secret is written to a file under \<^verbatim>\<open>/etc/nginx/ssl\<close>,
  and the hosts are mapped to the paths written. The controller is the record \<open>NginxController\<close>: the
  resolver and the ingress. On an error the map built so far is returned beside the error, as in Go.
\<close>

record NginxController =
  nc_rr :: resolver
  nc_ingress :: ingress

type_synonym tls_map = "string \<rightharpoonup> SSLCert"

text \<open>The path of an entry in the certificate it belongs to.\<close>

definition cert_path :: "string \<Rightarrow> string \<Rightarrow> SSLCert \<Rightarrow> SSLCert" where
  "cert_path k file ssl =
     (if k = TlsCrtName then ssl\<lparr>TlsCrt := file\<rparr>
      else if k = TlsKeyName then ssl\<lparr>TlsKey := file\<rparr>
      else ssl)"

section \<open>The certificate the controller issued\<close>

fun crd_entries ::
    "string \<Rightarrow> secret_data \<Rightarrow> SSLCert \<Rightarrow> world \<Rightarrow> (go_error option \<times> SSLCert) \<times> world" where
  "crd_entries tlsPrefix [] ssl w = ((None, ssl), w)"
| "crd_entries tlsPrefix ((k, v) # data) ssl w =
     (let file = path_join [SslPath, tlsPrefix @ k]
      in case os_write file v w of
           (Some e, w1) \<Rightarrow> ((Some e, ssl), w1)
         | (None, w1) \<Rightarrow> crd_entries tlsPrefix data (cert_path k file ssl) w1)"

definition generateCrdTlsFile ::
    "NginxController \<Rightarrow> world \<Rightarrow> (tls_map \<times> go_error option) result \<times> world" where
  "generateCrdTlsFile n w =
     (let ing = nc_ingress n;
          key = \<lparr>ok_Name = ing_Name ing @ ''-secret'', ok_Namespace = ing_Namespace ing\<rparr>
      in case rs_GetTlsData (nc_rr n) key of
           Inl (Err e) \<Rightarrow> (Inr (Map.empty, Some e), w)
         | Inl f \<Rightarrow> (Inl f, w)
         | Inr data \<Rightarrow>
             (let tlsPrefix = ing_Name ing @ ''-'' @ ing_Namespace ing @ ''-''
              in case crd_entries tlsPrefix data empty_cert w of
                   ((Some e, _), w1) \<Rightarrow> (Inr (Map.empty, Some e), w1)
                 | ((None, ssl), w1) \<Rightarrow>
                     (Inr (fold (\<lambda>v ht. ht(ir_Host v \<mapsto> ssl\<lparr>TlsNoPass := True\<rparr>))
                             (Rules (ing_Spec ing)) Map.empty, None), w1)))"

section \<open>Certificates from secrets the ingress names\<close>

fun ca_entries ::
    "NginxController \<Rightarrow> string \<Rightarrow> secret_data \<Rightarrow> SSLCert \<Rightarrow> world \<Rightarrow> (go_error option \<times> SSLCert) \<times> world" where
  "ca_entries n host [] ssl w = ((None, ssl), w)"
| "ca_entries n host ((k, v) # data) ssl w =
     (if GetDnsRegex host = [] then ((Some (Errorf (host @ '' not a valid host'')), ssl), w)
      else
        (let file = path_join [SslPath, host @ ''-'' @ ing_Namespace (nc_ingress n) @ ''-'' @ k]
         in case os_write file v w of
              (Some e, w1) \<Rightarrow> ((Some e, ssl), w1)
            | (None, w1) \<Rightarrow> ca_entries n host data (cert_path k file ssl) w1))"

text \<open>The hosts of one secret. The certificate variable belongs to the caller and is passed on.\<close>

fun ca_hosts ::
    "NginxController \<Rightarrow> string \<Rightarrow> string list \<Rightarrow> SSLCert \<Rightarrow> tls_map \<Rightarrow> world \<Rightarrow>
       (go_error option \<times> SSLCert \<times> tls_map) result \<times> world" where
  "ca_hosts n secretName [] ssl ht w = (Inr (None, ssl, ht), w)"
| "ca_hosts n secretName (host # hosts) ssl ht w =
     (let key = \<lparr>ok_Name = secretName, ok_Namespace = ing_Namespace (nc_ingress n)\<rparr>
      in case rs_GetTlsData (nc_rr n) key of
           Inl (Err e) \<Rightarrow> (Inr (Some e, ssl, ht), w)
         | Inl f \<Rightarrow> (Inl f, w)
         | Inr data \<Rightarrow>
             (case ca_entries n host data ssl w of
                ((Some e, ssl1), w1) \<Rightarrow> (Inr (Some e, ssl1, ht), w1)
              | ((None, ssl1), w1) \<Rightarrow>
                  (let ssl2 = ssl1\<lparr>TlsNoPass := True\<rparr>
                   in ca_hosts n secretName hosts ssl2 (ht(host \<mapsto> ssl2)) w1)))"

fun ca_secrets ::
    "NginxController \<Rightarrow> ingress_tls list \<Rightarrow> SSLCert \<Rightarrow> tls_map \<Rightarrow> world \<Rightarrow>
       (go_error option \<times> SSLCert \<times> tls_map) result \<times> world" where
  "ca_secrets n [] ssl ht w = (Inr (None, ssl, ht), w)"
| "ca_secrets n (secret # secrets) ssl ht w =
     sbind (ca_hosts n (it_SecretName secret) (it_Hosts secret) ssl ht w) (\<lambda>(err, ssl1, ht1) w1.
       case err of
         Some e \<Rightarrow> (Inr (Some e, ssl1, ht1), w1)
       | None \<Rightarrow> ca_secrets n secrets ssl1 ht1 w1)"

definition generateCaTlsFile ::
    "NginxController \<Rightarrow> world \<Rightarrow> (tls_map \<times> go_error option) result \<times> world" where
  "generateCaTlsFile n w =
     sbind (ca_secrets n (TLS (ing_Spec (nc_ingress n))) empty_cert Map.empty w)
       (\<lambda>(err, _, ht) w1. (Inr (ht, err), w1))"

definition generateTlsFile ::
    "NginxController \<Rightarrow> world \<Rightarrow> (tls_map \<times> go_error option) result \<times> world" where
  "generateTlsFile n w =
     (if length (TLS (ing_Spec (nc_ingress n))) > 0 then generateCaTlsFile n w
      else generateCrdTlsFile n w)"

section \<open>The loops on a disk that takes every write\<close>

definition all_writable :: "world \<Rightarrow> bool" where
  "all_writable w \<longleftrightarrow> (\<forall>p. wfault w p = Writable)"

lemma all_writable_write: "all_writable w \<Longrightarrow> os_write p b w = (None, set_file p (Some b) w)"
  by (simp add: all_writable_def os_write_def)

lemma all_writable_set_file [simp]: "all_writable (set_file p c w) = all_writable w"
  by (simp add: all_writable_def)

text \<open>Both loops: every entry in its file, the certificate with the paths of the two it knows.\<close>

definition entry_certs :: "(string \<Rightarrow> string) \<Rightarrow> secret_data \<Rightarrow> SSLCert \<Rightarrow> SSLCert" where
  "entry_certs file data ssl = fold (\<lambda>kv s. cert_path (fst kv) (file (fst kv)) s) data ssl"

definition entry_files :: "(string \<Rightarrow> string) \<Rightarrow> secret_data \<Rightarrow> world \<Rightarrow> world" where
  "entry_files file data w = fold (\<lambda>kv. set_file (file (fst kv)) (Some (snd kv))) data w"

definition crd_file :: "string \<Rightarrow> string \<Rightarrow> string" where
  "crd_file tlsPrefix k = path_join [SslPath, tlsPrefix @ k]"

definition ca_file :: "NginxController \<Rightarrow> string \<Rightarrow> string \<Rightarrow> string" where
  "ca_file n host k = path_join [SslPath, host @ ''-'' @ ing_Namespace (nc_ingress n) @ ''-'' @ k]"

lemma entry_simps:
  "entry_certs file [] ssl = ssl" "entry_files file [] w = w"
  "entry_certs file ((k, v) # data) ssl = entry_certs file data (cert_path k (file k) ssl)"
  "entry_files file ((k, v) # data) w = entry_files file data (set_file (file k) (Some v) w)"
  by (simp_all add: entry_certs_def entry_files_def)

lemma crd_entries_written:
  "all_writable w \<Longrightarrow> crd_entries pre data ssl w =
     ((None, entry_certs (crd_file pre) data ssl), entry_files (crd_file pre) data w)"
  by (induction data arbitrary: ssl w)
     (auto simp: entry_simps all_writable_write crd_file_def Let_def)

lemma ca_entries_written:
  "all_writable w \<Longrightarrow> GetDnsRegex host \<noteq> [] \<Longrightarrow> ca_entries n host data ssl w =
     ((None, entry_certs (ca_file n host) data ssl), entry_files (ca_file n host) data w)"
  by (induction data arbitrary: ssl w)
     (auto simp: entry_simps all_writable_write ca_file_def Let_def)

lemma TlsNames_distinct [simp]: "TlsCrtName \<noteq> TlsKeyName" "TlsKeyName \<noteq> TlsCrtName"
  by (simp_all add: TlsCrtName_def TlsKeyName_def)

lemma cert_path_simps [simp]:
  "TlsKey (cert_path k f ssl) = (if k = TlsKeyName then f else TlsKey ssl)"
  "TlsCrt (cert_path k f ssl) = (if k = TlsCrtName then f else TlsCrt ssl)"
  "TlsNoPass (cert_path k f ssl) = TlsNoPass ssl"
  by (auto simp: cert_path_def)

lemma entry_certs_fields:
  "TlsKey (entry_certs file data ssl) = (if TlsKeyName \<in> fst ` set data then file TlsKeyName else TlsKey ssl)"
  "TlsCrt (entry_certs file data ssl) = (if TlsCrtName \<in> fst ` set data then file TlsCrtName else TlsCrt ssl)"
  "TlsNoPass (entry_certs file data ssl) = TlsNoPass ssl"
  by (induction data arbitrary: ssl) (auto simp: entry_simps)

lemma entry_files_frame:
  "p \<notin> file ` fst ` set data \<Longrightarrow> files (entry_files file data w) p = files w p"
  by (induction data arbitrary: w) (auto simp: entry_simps)

lemma entry_files_at:
  assumes "inj_on file (fst ` set data)" and "go_map data" and "(k, v) \<in> set data"
  shows "files (entry_files file data w) (file k) = Some v"
  using assms
proof (induction data arbitrary: w)
  case (Cons x data)
  obtain a b where x: "x = (a, b)" by (cases x)
  show ?case
  proof (cases "(k, v) = (a, b)")
    case True
    with Cons.prems(1,2) x have "file k \<notin> file ` fst ` set data"
      by (auto simp: inj_on_def image_iff)
    with x True show ?thesis by (simp add: entry_simps entry_files_frame)
  next
    case False
    with Cons.prems(3) x have in_data: "(k, v) \<in> set data" by auto
    show ?thesis
      unfolding x entry_simps
      by (rule Cons.IH) (use Cons.prems(1,2) x in_data in \<open>auto simp: inj_on_def\<close>)
  qed
qed simp

lemma entry_files_misc [simp]:
  "all_writable (entry_files file data w) = all_writable w"
  "events (entry_files file data w) = events w"
  by (induction data arbitrary: w) (auto simp: entry_simps)

text \<open>Where the files end up when the names are plain.\<close>

lemma ssl_dir_join: "plain_name f \<Longrightarrow> path_join [SslPath, f] = SslPath @ ''/'' @ f"
  using path_join_plain [of "[''etc'', ''nginx'', ''ssl'']" f]
  by (simp add: SslPath_def plain_name_def)

lemma crd_file_plain:
  assumes "CHR ''/'' \<notin> set (pre @ k)" and "3 \<le> length pre"
  shows "crd_file pre k = SslPath @ ''/'' @ pre @ k"
  using assms by (simp add: crd_file_def ssl_dir_join plain_nameI)

section \<open>What the certificate files touch\<close>

text \<open>Only files named relative to the certificate directory, and nothing of the process.\<close>

definition ssl_only :: "world \<Rightarrow> world \<Rightarrow> bool" where
  "ssl_only w w' \<longleftrightarrow> touches_only (range (\<lambda>x. path_join [SslPath, x])) w w' \<and> events w' = events w"

lemma ssl_only_refl [simp]: "ssl_only w w"
  by (simp add: ssl_only_def)

lemma ssl_only_trans: "ssl_only w w' \<Longrightarrow> ssl_only w' w'' \<Longrightarrow> ssl_only w w''"
  unfolding ssl_only_def by (elim conjE, intro conjI, erule (1) touches_only_trans) simp

lemma ssl_only_write: "os_write (path_join [SslPath, x]) v w = (r, w') \<Longrightarrow> ssl_only w w'"
  unfolding ssl_only_def
  by (frule os_write_touches) (auto elim: touches_only_mono)

lemma crd_entries_ssl: "crd_entries pre data ssl w = (r, w') \<Longrightarrow> ssl_only w w'"
proof (induction data arbitrary: ssl w)
  case (Cons x data)
  obtain k v where x: "x = (k, v)" by (cases x)
  obtain e w1 where 1: "os_write (path_join [SslPath, pre @ k]) v w = (e, w1)" by (meson surj_pair)
  with Cons ssl_only_write [OF 1] show ?case
    by (cases e) (auto simp: x Let_def intro: ssl_only_trans)
qed simp

lemma ca_entries_ssl: "ca_entries n host data ssl w = (r, w') \<Longrightarrow> ssl_only w w'"
proof (induction data arbitrary: ssl w)
  case (Cons x data)
  obtain k v where x: "x = (k, v)" by (cases x)
  obtain e w1 where 1: "os_write (path_join [SslPath, host @ ''-'' @ ing_Namespace (nc_ingress n) @ ''-'' @ k]) v w = (e, w1)"
    by (meson surj_pair)
  with Cons ssl_only_write [OF 1] show ?case
    by (cases e) (auto simp: x Let_def intro: ssl_only_trans split: if_splits)
qed simp

lemma ca_hosts_ssl: "ca_hosts n s hosts ssl ht w = (r, w') \<Longrightarrow> ssl_only w w'"
proof (induction hosts arbitrary: ssl ht w)
  case (Cons host hosts)
  show ?case
  proof (cases "rs_GetTlsData (nc_rr n) \<lparr>ok_Name = s, ok_Namespace = ing_Namespace (nc_ingress n)\<rparr>")
    case (Inl f)
    with Cons.prems show ?thesis by (cases f) auto
  next
    case (Inr data)
    obtain e ssl1 w1 where 1: "ca_entries n host data ssl w = ((e, ssl1), w1)" by (metis surj_pair)
    with Inr Cons ca_entries_ssl [OF 1] show ?thesis
      by (cases e) (auto simp: Let_def intro: ssl_only_trans)
  qed
qed simp

lemma ca_secrets_ssl: "ca_secrets n secrets ssl ht w = (r, w') \<Longrightarrow> ssl_only w w'"
proof (induction secrets arbitrary: ssl ht w)
  case (Cons s secrets)
  obtain q w1 where 1: "ca_hosts n (it_SecretName s) (it_Hosts s) ssl ht w = (q, w1)" by (meson surj_pair)
  with Cons ca_hosts_ssl [OF 1] show ?case
    by (cases q) (auto intro: ssl_only_trans split: option.splits prod.splits)
qed simp

lemma generateTlsFile_ssl:
  assumes "generateTlsFile n w = (r, w')"
  shows "ssl_only w w'"
proof (cases "TLS (ing_Spec (nc_ingress n)) = []")
  case True
  let ?key = "\<lparr>ok_Name = ing_Name (nc_ingress n) @ ''-secret'', ok_Namespace = ing_Namespace (nc_ingress n)\<rparr>"
  show ?thesis
  proof (cases "rs_GetTlsData (nc_rr n) ?key")
    case (Inl f)
    with True assms show ?thesis by (cases f) (auto simp: generateTlsFile_def generateCrdTlsFile_def Let_def)
  next
    case (Inr data)
    obtain e ssl1 w1 where
      1: "crd_entries (ing_Name (nc_ingress n) @ ''-'' @ ing_Namespace (nc_ingress n) @ ''-'') data empty_cert w = ((e, ssl1), w1)"
      by (metis surj_pair)
    with Inr True assms crd_entries_ssl [OF 1] show ?thesis
      by (cases e) (auto simp: generateTlsFile_def generateCrdTlsFile_def Let_def)
  qed
next
  case False
  obtain q w1 where 1: "ca_secrets n (TLS (ing_Spec (nc_ingress n))) empty_cert Map.empty w = (q, w1)"
    by (meson surj_pair)
  with False assms ca_secrets_ssl [OF 1] show ?thesis
    by (cases q) (auto simp: generateTlsFile_def generateCaTlsFile_def split: prod.splits)
qed

section \<open>Properties\<close>

lemma host_map:
  "fold (\<lambda>v ht. ht(ir_Host v \<mapsto> c)) rs m h = (if h \<in> ir_Host ` set rs then Some c else m h)"
  by (induction rs arbitrary: m) auto

definition crd_prefix :: "ingress \<Rightarrow> string" where
  "crd_prefix ing = ing_Name ing @ ''-'' @ ing_Namespace ing @ ''-''"

lemma generateCrdTlsFile_ok:
  assumes "all_writable w"
    and "rs_GetTlsData (nc_rr n)
      \<lparr>ok_Name = ing_Name (nc_ingress n) @ ''-secret'', ok_Namespace = ing_Namespace (nc_ingress n)\<rparr> = Inr data"
  shows "generateCrdTlsFile n w =
    (Inr (fold (\<lambda>v ht. ht(ir_Host v \<mapsto>
             (entry_certs (crd_file (crd_prefix (nc_ingress n))) data empty_cert)\<lparr>TlsNoPass := True\<rparr>))
           (Rules (ing_Spec (nc_ingress n))) Map.empty, None),
     entry_files (crd_file (crd_prefix (nc_ingress n))) data w)"
  using assms by (simp add: generateCrdTlsFile_def Let_def crd_entries_written crd_prefix_def)

text \<open>Without a TLS section every host of the ingress is served with the certificate the
  controller issued: its files hold the bytes of the secret, and the paths in the configuration are
  the paths of those files, in whatever order the entries of the secret are visited.\<close>

theorem issued_certificate_served:
  assumes "all_writable w" and "TLS (ing_Spec (nc_ingress n)) = []"
    and "rs_GetTlsData (nc_rr n)
      \<lparr>ok_Name = ing_Name (nc_ingress n) @ ''-secret'', ok_Namespace = ing_Namespace (nc_ingress n)\<rparr> = Inr data"
    and "go_map data" and "(TlsCrtName, crt) \<in> set data" and "(TlsKeyName, key) \<in> set data"
    and "ing_Name (nc_ingress n) \<noteq> []"
    and "CHR ''/'' \<notin> set (crd_prefix (nc_ingress n) @ concat (map fst data))"
    and "r \<in> set (Rules (ing_Spec (nc_ingress n)))"
  shows "\<exists>ht w'. generateTlsFile n w = (Inr (ht, None), w') \<and>
    ht (ir_Host r) = Some
      \<lparr>TlsKey = SslPath @ ''/'' @ crd_prefix (nc_ingress n) @ TlsKeyName,
       TlsCrt = SslPath @ ''/'' @ crd_prefix (nc_ingress n) @ TlsCrtName, TlsNoPass = True\<rparr> \<and>
    files w' (SslPath @ ''/'' @ crd_prefix (nc_ingress n) @ TlsKeyName) = Some key \<and>
    files w' (SslPath @ ''/'' @ crd_prefix (nc_ingress n) @ TlsCrtName) = Some crt"
proof -
  let ?pre = "crd_prefix (nc_ingress n)"
  have "3 \<le> length ?pre" using assms(7) by (cases "ing_Name (nc_ingress n)") (auto simp: crd_prefix_def)
  with assms(8) have paths: "crd_file ?pre k = SslPath @ ''/'' @ ?pre @ k" if "k \<in> fst ` set data" for k
    using that by (intro crd_file_plain) auto
  have keys: "TlsCrtName \<in> fst ` set data" "TlsKeyName \<in> fst ` set data"
    using assms(5,6) by force+
  have inj: "inj_on (crd_file ?pre) (fst ` set data)"
    by (rule inj_onI) (simp add: paths)
  let ?c = "(entry_certs (crd_file ?pre) data empty_cert)\<lparr>TlsNoPass := True\<rparr>"
  let ?ht = "fold (\<lambda>v ht. ht(ir_Host v \<mapsto> ?c)) (Rules (ing_Spec (nc_ingress n))) Map.empty"
  let ?w' = "entry_files (crd_file ?pre) data w"
  have "generateTlsFile n w = (Inr (?ht, None), ?w')"
    using assms(2) generateCrdTlsFile_ok [OF assms(1,3)] by (simp add: generateTlsFile_def)
  moreover have "?ht (ir_Host r) = Some ?c" using assms(9) by (simp add: host_map)
  moreover have "?c = \<lparr>TlsKey = SslPath @ ''/'' @ ?pre @ TlsKeyName,
       TlsCrt = SslPath @ ''/'' @ ?pre @ TlsCrtName, TlsNoPass = True\<rparr>"
    using keys paths by (intro SSLCert.equality) (simp_all add: entry_certs_fields)
  moreover have "files ?w' (SslPath @ ''/'' @ ?pre @ TlsKeyName) = Some key"
    using entry_files_at [OF inj assms(4,6)] paths keys(2) by simp
  moreover have "files ?w' (SslPath @ ''/'' @ ?pre @ TlsCrtName) = Some crt"
    using entry_files_at [OF inj assms(4,5)] paths keys(1) by simp
  ultimately show ?thesis by (metis (no_types))
qed

definition sample_ingress :: ingress where
  "sample_ingress =
     \<lparr>ing_Name = ''web'', ing_Namespace = ''shop'', ing_Annotations = [],
      ing_Spec = \<lparr>IngressClassName = ''nginx'', DefaultBackend = None, TLS = [],
        Rules = [\<lparr>ir_Host = ''a.com'', ir_HTTP = Some []\<rparr>]\<rparr>\<rparr>"

definition sample_resolver :: "(object_key \<Rightarrow> secret_data result) \<Rightarrow> resolver" where
  "sample_resolver tls =
     \<lparr>rs_GetSecret = tls, rs_GetDefaultService = Inl (Panic NilDereference),
      rs_GetService = (\<lambda>_. Inl (Err (Errorf ''no service''))), rs_GetHostName = [],
      rs_GetSvcPort = (\<lambda>_. Inr 0), rs_GetTlsData = tls\<rparr>"

definition sample_disk :: world where
  "sample_disk = \<lparr>files = Map.empty, wfault = (\<lambda>_. Writable), rfault = (\<lambda>_. False), rmfault = (\<lambda>_. False), events = []\<rparr>"

theorem issued_certificate_served_witness:
  "\<exists>ht w'. generateTlsFile \<lparr>nc_rr = sample_resolver (\<lambda>_. Inr [(''tls.key'', ''K''), (''ca.crt'', ''A''), (''tls.crt'', ''C'')]),
       nc_ingress = sample_ingress\<rparr> sample_disk = (Inr (ht, None), w') \<and>
     ht ''a.com'' \<noteq> None \<and> files w' ''/etc/nginx/ssl/web-shop-tls.key'' = Some ''K''"
proof -
  have "crd_prefix sample_ingress = ''web-shop-''" by (simp add: crd_prefix_def sample_ingress_def)
  then show ?thesis
    using issued_certificate_served [of sample_disk
        "\<lparr>nc_rr = sample_resolver (\<lambda>_. Inr [(''tls.key'', ''K''), (''ca.crt'', ''A''), (''tls.crt'', ''C'')]),
          nc_ingress = sample_ingress\<rparr>"
        "[(''tls.key'', ''K''), (''ca.crt'', ''A''), (''tls.crt'', ''C'')]" "''C''" "''K''"
        "\<lparr>ir_Host = ''a.com'', ir_HTTP = Some []\<rparr>"]
    by (fastforce simp: sample_ingress_def sample_resolver_def sample_disk_def all_writable_def
        TlsCrtName_def TlsKeyName_def SslPath_def)
qed

text \<open>C32. The certificate variable is shared by all hosts of the TLS section: a host whose secret has
  no key is configured with the key of the host before it.\<close>

theorem certificate_leaks_to_next_host:
  assumes "all_writable w"
    and "TLS (ing_Spec (nc_ingress n)) = [\<lparr>it_Hosts = [a], it_SecretName = s\<rparr>, \<lparr>it_Hosts = [b], it_SecretName = t\<rparr>]"
    and "rs_GetTlsData (nc_rr n) \<lparr>ok_Name = s, ok_Namespace = ing_Namespace (nc_ingress n)\<rparr> = Inr d"
    and "rs_GetTlsData (nc_rr n) \<lparr>ok_Name = t, ok_Namespace = ing_Namespace (nc_ingress n)\<rparr> = Inr d'"
    and "IsValidHost a" and "IsValidHost b" and "a \<noteq> b"
    and "TlsKeyName \<in> fst ` set d" and "TlsKeyName \<notin> fst ` set d'"
  shows "\<exists>ht ca cb. fst (generateTlsFile n w) = Inr (ht, None) \<and> ht a = Some ca \<and> ht b = Some cb \<and>
    TlsKey ca = ca_file n a TlsKeyName \<and> TlsKey cb = TlsKey ca"
proof -
  let ?c1 = "(entry_certs (ca_file n a) d empty_cert)\<lparr>TlsNoPass := True\<rparr>"
  let ?c2 = "(entry_certs (ca_file n b) d' ?c1)\<lparr>TlsNoPass := True\<rparr>"
  have "GetDnsRegex a \<noteq> []" "GetDnsRegex b \<noteq> []" using assms(5,6) GetDnsRegex_iff by blast+
  then have "fst (generateTlsFile n w) = Inr ([a \<mapsto> ?c1, b \<mapsto> ?c2], None)"
    using assms(1-4) by (simp add: generateTlsFile_def generateCaTlsFile_def ca_entries_written Let_def)
  then show ?thesis
    using assms(7-9) by (intro exI [of _ "[a \<mapsto> ?c1, b \<mapsto> ?c2]"]) (auto simp: entry_certs_fields)
qed

definition leak_ingress :: ingress where
  "leak_ingress = sample_ingress\<lparr>ing_Spec := (ing_Spec sample_ingress)
     \<lparr>TLS := [\<lparr>it_Hosts = [''a.com''], it_SecretName = ''s''\<rparr>, \<lparr>it_Hosts = [''b.com''], it_SecretName = ''t''\<rparr>]\<rparr>\<rparr>"

theorem certificate_leaks_to_next_host_witness:
  "\<exists>ht cb. fst (generateTlsFile \<lparr>nc_rr = sample_resolver (\<lambda>k. Inr (if ok_Name k = ''s'' then [(''tls.key'', ''K'')] else [])),
        nc_ingress = leak_ingress\<rparr> sample_disk) = Inr (ht, None) \<and>
     ht ''b.com'' = Some cb \<and> TlsKey cb = ca_file \<lparr>nc_rr = sample_resolver (\<lambda>k. Inr (if ok_Name k = ''s'' then [(''tls.key'', ''K'')] else [])),
        nc_ingress = leak_ingress\<rparr> ''a.com'' ''tls.key''"
proof -
  have hosts: "IsValidHost ''a.com''" "IsValidHost ''b.com''" by code_simp+
  show ?thesis
    using certificate_leaks_to_next_host [of sample_disk
        "\<lparr>nc_rr = sample_resolver (\<lambda>k. Inr (if ok_Name k = ''s'' then [(''tls.key'', ''K'')] else [])),
          nc_ingress = leak_ingress\<rparr>" "''a.com''" "''s''" "''b.com''" "''t''" "[(''tls.key'', ''K'')]" "[]"] hosts
    by (fastforce simp: sample_ingress_def leak_ingress_def sample_resolver_def sample_disk_def all_writable_def
        TlsCrtName_def TlsKeyName_def SslPath_def)
qed

lemma ca_entries_one:
  "all_writable w \<Longrightarrow> GetDnsRegex host \<noteq> [] \<Longrightarrow>
   files (snd (ca_entries n host [(k, v)] ssl w)) (ca_file n host k) = Some v"
  by (subst ca_entries_written) (simp_all add: entry_simps)

lemma climb_out:
  assumes "plain_name v" and "plain_name t"
  shows "path_join [SslPath, v @ ''/../../conf.d/'' @ t] = ConfDir @ ''/'' @ t"
proof -
  define p where "p = SslPath @ ''/'' @ v @ ''/../../conf.d/'' @ t"
  have "split_on CHR ''/'' v = [v]" and t: "split_on CHR ''/'' t = [t]"
    using assms by (auto simp: plain_name_def intro!: split_on_absent)
  then have "split_on CHR ''/'' (v @ CHR ''/'' # ''../../conf.d/'' @ t) = v # split_on CHR ''/'' (''../../conf.d/'' @ t)"
    by (simp only: split_on_append append.simps)
  then have elements: "split_on CHR ''/'' p = [[], ''etc'', ''nginx'', ''ssl'', v, ''..'', ''..'', ''conf.d'', t]"
    using t by (simp add: p_def SslPath_def)
  have "fold (clean_step True) [[], ''etc'', ''nginx'', ''ssl'', v, ''..'', ''..'', ''conf.d'', t] [] =
      [t, ''conf.d'', ''nginx'', ''etc'']"
    using assms by (simp add: clean_step_def plain_name_def)
  moreover have "p \<noteq> []" "hd p = CHR ''/''" by (simp_all add: p_def SslPath_def)
  ultimately have "path_clean p = ConfDir @ ''/'' @ t"
    by (simp only: path_clean_def elements Let_def) (simp add: ConfDir_def)
  then show ?thesis by (simp add: path_join_def p_def) (simp add: SslPath_def)
qed

text \<open>A host of the TLS section is not kept inside the certificate directory: with a host that
  climbs out of it, an entry of the secret is written into the directory nginx loads its
  configuration from.\<close>

theorem host_escapes_ssl_dir:
  assumes "all_writable w" and "plain_name v"
    and "IsValidHost (v @ ''/../../conf.d/'' @ h)"
    and "CHR ''/'' \<notin> set (h @ ing_Namespace (nc_ingress n) @ k)"
    and "plain_name (h @ ''-'' @ ing_Namespace (nc_ingress n) @ ''-'' @ k)"
  shows "files (snd (ca_entries n (v @ ''/../../conf.d/'' @ h) [(k, bytes)] ssl w))
     (ConfDir @ ''/'' @ h @ ''-'' @ ing_Namespace (nc_ingress n) @ ''-'' @ k) = Some bytes"
proof -
  let ?t = "h @ ''-'' @ ing_Namespace (nc_ingress n) @ ''-'' @ k"
  have "path_join [SslPath, v @ ''/../../conf.d/'' @ ?t] = ConfDir @ ''/'' @ ?t"
    by (rule climb_out) (use assms in auto)
  then have "ca_file n (v @ ''/../../conf.d/'' @ h) k = ConfDir @ ''/'' @ ?t"
    by (simp add: ca_file_def)
  moreover have "GetDnsRegex (v @ ''/../../conf.d/'' @ h) \<noteq> []" using assms(3) GetDnsRegex_iff by blast
  ultimately show ?thesis using ca_entries_one [OF assms(1)] by (metis (no_types))
qed

theorem host_escapes_ssl_dir_witness:
  "files (snd (ca_entries \<lparr>nc_rr = sample_resolver (\<lambda>_. Inr []), nc_ingress = sample_ingress\<rparr>
      ''a.b/../../conf.d/x'' [(''y.conf'', ''server'')] empty_cert sample_disk)) ''/etc/nginx/conf.d/x-shop-y.conf'' =
    Some ''server''"
proof -
  have "IsValidHost ''a.b/../../conf.d/x''" by code_simp
  then show ?thesis
    using host_escapes_ssl_dir [of sample_disk "''a.b''" "''x''"
        "\<lparr>nc_rr = sample_resolver (\<lambda>_. Inr []), nc_ingress = sample_ingress\<rparr>" "''y.conf''" "''server''" empty_cert]
    by (simp add: sample_ingress_def sample_disk_def all_writable_def plain_name_def ConfDir_def)
qed

end
