(* ===== verification/Backends.thy ===== *)
theory Backends
  imports TlsFiles
begin

text \<open>
  The data the templates are rendered from, built by \<^verbatim>\<open>internal/controller/nginx.go\<close>:
  one server per rule of the ingress, one back end per path, and the default server.
\<close>

definition checkIngressContent :: "http_path \<Rightarrow> ing_annotations \<Rightarrow> unit result" where
  "checkIngressContent path ann =
     ebind (if rw_EnableRegex (ia_Rewrite ann) then ebind (deref (hp_PathType path)) (\<lambda>_. Inr ()) else Inr ()) (\<lambda>_.
       if IsRegexPatternRegex (hp_Path path) \<and> \<not> rw_EnableRegex (ia_Rewrite ann) \<and>
          rw_RewriteTarget (ia_Rewrite ann) = []
       then Inl (Err (Errorf (''the value of ingress path: '' @ hp_Path path @
          '' looks like regexp. please add corresponding annotations such as: rewrite-target or enable-regex'')))
       else if rw_EnableRegex (ia_Rewrite ann) \<and> \<not> IsRegexPatternRegex (hp_Path path)
       then Inl (Err (Errorf (''the path value: '' @ hp_Path path @
          '' in ingress should be a valid regexp because enable-regex is used in annotations'')))
       else if rw_RewriteTarget (ia_Rewrite ann) \<noteq> [] \<and> \<not> IsRegexPatternRegex (hp_Path path)
       then Inl (Err (Errorf (''the path value: '' @ hp_Path path @
          '' in ingress should be a valid regexp because rewrite-target is used in annotations'')))
       else Inr ())"

definition formatPath :: "string \<Rightarrow> ing_annotations \<Rightarrow> string" where
  "formatPath path ann =
     (if rw_EnableRegex (ia_Rewrite ann) \<or> rw_RewriteTarget (ia_Rewrite ann) \<noteq> []
      then ''~ ^'' @ path else path)"

text \<open>One round of the inner loop: the back end of a path.\<close>

definition path_backend ::
    "NginxController \<Rightarrow> ing_annotations \<Rightarrow> http_path \<Rightarrow> ing_annotations backend result" where
  "path_backend n ann p =
     ebind (checkIngressContent p ann) (\<lambda>_.
     ebind (deref (ib_Service (hp_Backend p))) (\<lambda>sb.
     ebind (rs_GetService (nc_rr n) (sb_Name sb)) (\<lambda>svc.
     ebind (rs_GetSvcPort (nc_rr n) (QBackend (hp_Backend p))) (\<lambda>backendPort.
       if backendPort = 0 then Inl (Err (Errorf ''svc port not exists''))
       else Inr \<lparr>be_Name = sv_Name svc, be_IngName = ing_Name (nc_ingress n), be_NameSpace = sv_Namespace svc,
                 be_Path = formatPath (hp_Path p) ann, be_ServiceBackend = ib_Service (hp_Backend p),
                 be_Port = backendPort, be_TargetPath = hp_Path p, be_Annotations = ann, be_RewritePath = []\<rparr>))))"

text \<open>
  The loop over the paths. The slice is made with its length, and each round appends after the part
  filled so far: \<^verbatim>\<open>append(backend[:bk], b)\<close>.
\<close>

fun backends_loop ::
    "NginxController \<Rightarrow> ing_annotations \<Rightarrow> nat \<Rightarrow> http_path list \<Rightarrow>
       ing_annotations backend option list \<Rightarrow> ing_annotations backend option list result" where
  "backends_loop n ann bk [] backend = Inr backend"
| "backends_loop n ann bk (p # ps) backend =
     ebind (path_backend n ann p) (\<lambda>b.
       backends_loop n ann (Suc bk) ps (take bk backend @ [Some b]))"

definition rule_server ::
    "NginxController \<Rightarrow> ing_annotations \<Rightarrow> tls_map \<Rightarrow> ingress_rule \<Rightarrow> ing_annotations server result" where
  "rule_server n ann tls v =
     ebind (deref (ir_HTTP v)) (\<lambda>paths.
     ebind (if bw_UseWeight (ia_Weight ann)
            then ebind (index paths 0) (\<lambda>p. Inr (1, [p]))
            else Inr (length paths, paths)) (\<lambda>(backendLen, ingressPaths).
     ebind (backends_loop n ann 0 ingressPaths (replicate backendLen None)) (\<lambda>backend.
       Inr \<lparr>se_Name = ing_Name (nc_ingress n), se_NameSpace = ing_Namespace (nc_ingress n),
            se_HostName = ir_Host v,
            se_Tls = (case tls (ir_Host v) of Some c \<Rightarrow> c | None \<Rightarrow> empty_cert),
            se_Paths = backend\<rparr>)))"

fun servers_loop ::
    "NginxController \<Rightarrow> ing_annotations \<Rightarrow> tls_map \<Rightarrow> nat \<Rightarrow> ingress_rule list \<Rightarrow>
       ing_annotations server option list \<Rightarrow> ing_annotations server option list result" where
  "servers_loop n ann tls k [] servers = Inr servers"
| "servers_loop n ann tls k (v # rule) servers =
     ebind (rule_server n ann tls v) (\<lambda>s.
       servers_loop n ann tls (Suc k) rule (take k servers @ [Some s]))"

text \<open>An error of the certificate files is only logged.\<close>

definition getBackendConfigure ::
    "NginxController \<Rightarrow> ing_annotations \<Rightarrow> world \<Rightarrow> ing_annotations configuration result \<times> world" where
  "getBackendConfigure n ann w =
     sbind (generateTlsFile n w) (\<lambda>(tls, err) w1.
       (let rule = Rules (ing_Spec (nc_ingress n))
        in ebind (servers_loop n ann tls 0 rule (replicate (length rule) None)) (\<lambda>servers.
             Inr \<lparr>Servers = servers\<rparr>), w1))"

definition getDefaultBackendConfigure ::
    "NginxController \<Rightarrow> ing_annotations \<Rightarrow> ing_annotations configuration result" where
  "getDefaultBackendConfigure n ann =
     ebind (deref (DefaultBackend (ing_Spec (nc_ingress n)))) (\<lambda>d.
     ebind (deref (ib_Service d)) (\<lambda>sb.
     ebind (rs_GetService (nc_rr n) (sb_Name sb)) (\<lambda>svc.
     ebind (rs_GetSvcPort (nc_rr n) (QBackend d)) (\<lambda>backendPort.
       if backendPort = 0 then Inl (Err (Errorf (sv_Name svc @ '' svc port not exists'')))
       else
         (let b = \<lparr>be_Name = sv_Name svc, be_IngName = [], be_NameSpace = sv_Namespace svc, be_Path = ''/'',
                   be_ServiceBackend = ib_Service d, be_Port = backendPort, be_TargetPath = [],
                   be_Annotations = ann, be_RewritePath = []\<rparr>;
              s = \<lparr>se_Name = ing_Name (nc_ingress n), se_NameSpace = ing_Namespace (nc_ingress n),
                   se_HostName = ''default'', se_Tls = empty_cert, se_Paths = [Some b]\<rparr>
          in Inr \<lparr>Servers = [Some s]\<rparr>)))))"

section \<open>The loops as maps\<close>

lemma backends_loop_emap:
  assumes "bk \<le> length backend" and "ps = [] \<longrightarrow> length backend = bk"
  shows "backends_loop n ann bk ps backend =
    ebind (emap (path_backend n ann) ps) (\<lambda>bs. Inr (take bk backend @ map Some bs))"
  using assms
proof (induction ps arbitrary: bk backend)
  case (Cons p ps)
  show ?case
  proof (cases "path_backend n ann p")
    case (Inr b)
    with Cons.IH [of "Suc bk" "take bk backend @ [Some b]"] Cons.prems(1) show ?thesis
      by (cases "emap (path_backend n ann) ps") simp_all
  qed simp
qed simp

lemma servers_loop_emap:
  assumes "k \<le> length servers" and "vs = [] \<longrightarrow> length servers = k"
  shows "servers_loop n ann tls k vs servers =
    ebind (emap (rule_server n ann tls) vs) (\<lambda>ss. Inr (take k servers @ map Some ss))"
  using assms
proof (induction vs arbitrary: k servers)
  case (Cons v vs)
  show ?case
  proof (cases "rule_server n ann tls v")
    case (Inr s)
    with Cons.IH [of "Suc k" "take k servers @ [Some s]"] Cons.prems(1) show ?thesis
      by (cases "emap (rule_server n ann tls) vs") simp_all
  qed simp
qed simp

text \<open>The paths of a rule that get a back end: all of them, or the first when weights are on.\<close>

definition served_paths :: "ing_annotations \<Rightarrow> http_path list \<Rightarrow> http_path list" where
  "served_paths ann paths = (if bw_UseWeight (ia_Weight ann) then take 1 paths else paths)"

lemma rule_server_ok:
  assumes "rule_server n ann tls v = Inr s"
  obtains paths bs where "ir_HTTP v = Some paths"
    and "emap (path_backend n ann) (served_paths ann paths) = Inr bs" and "se_Paths s = map Some bs"
    and "se_Name s = ing_Name (nc_ingress n)" and "se_NameSpace s = ing_Namespace (nc_ingress n)"
    and "se_HostName s = ir_Host v"
    and "se_Tls s = (case tls (ir_Host v) of Some c \<Rightarrow> c | None \<Rightarrow> empty_cert)"
    and "bw_UseWeight (ia_Weight ann) \<Longrightarrow> paths \<noteq> []"
proof (cases "bw_UseWeight (ia_Weight ann)")
  case True
  with assms obtain paths bs where "ir_HTTP v = Some paths" "0 < length paths"
      "emap (path_backend n ann) [paths ! 0] = Inr bs"
      "s = \<lparr>se_Name = ing_Name (nc_ingress n), se_NameSpace = ing_Namespace (nc_ingress n),
            se_HostName = ir_Host v, se_Tls = (case tls (ir_Host v) of Some c \<Rightarrow> c | None \<Rightarrow> empty_cert),
            se_Paths = map Some bs\<rparr>"
    by (auto simp: rule_server_def ebind_eq_Inr index_eq_Inr backends_loop_emap
        simp del: backends_loop.simps)
  moreover then have "served_paths ann paths = [paths ! 0]"
    using True by (cases paths) (auto simp: served_paths_def)
  ultimately show ?thesis by (intro that [of paths bs]) auto
next
  case False
  with assms obtain paths bs where "ir_HTTP v = Some paths"
      "emap (path_backend n ann) paths = Inr bs"
      "s = \<lparr>se_Name = ing_Name (nc_ingress n), se_NameSpace = ing_Namespace (nc_ingress n),
            se_HostName = ir_Host v, se_Tls = (case tls (ir_Host v) of Some c \<Rightarrow> c | None \<Rightarrow> empty_cert),
            se_Paths = map Some bs\<rparr>"
    by (auto simp: rule_server_def ebind_eq_Inr backends_loop_emap simp del: backends_loop.simps)
  with False show ?thesis by (intro that [of paths bs]) (auto simp: served_paths_def)
qed

lemma getBackendConfigure_ok:
  "getBackendConfigure n ann w = (Inr cfg, w') \<longleftrightarrow>
   (\<exists>tls err ss. generateTlsFile n w = (Inr (tls, err), w') \<and>
      emap (rule_server n ann tls) (Rules (ing_Spec (nc_ingress n))) = Inr ss \<and>
      cfg = \<lparr>Servers = map Some ss\<rparr>)"
  by (auto simp: getBackendConfigure_def sbind_eq_Inr ebind_eq_Inr Let_def servers_loop_emap
      split: prod.splits)

text \<open>A back end that was built: its path is checked, its service fetched, its port resolved.\<close>

lemma checkIngressContent_ok:
  "checkIngressContent p ann = Inr () \<longleftrightarrow>
   (rw_EnableRegex (ia_Rewrite ann) \<longrightarrow> hp_PathType p \<noteq> None) \<and>
   (IsRegexPatternRegex (hp_Path p) \<longleftrightarrow> rw_EnableRegex (ia_Rewrite ann) \<or> rw_RewriteTarget (ia_Rewrite ann) \<noteq> [])"
  by (cases "hp_PathType p") (auto simp: checkIngressContent_def)

lemma path_backend_ok:
  "path_backend n ann p = Inr b \<longleftrightarrow>
   checkIngressContent p ann = Inr () \<and>
   (\<exists>sb svc port. ib_Service (hp_Backend p) = Some sb \<and> rs_GetService (nc_rr n) (sb_Name sb) = Inr svc \<and>
      rs_GetSvcPort (nc_rr n) (QBackend (hp_Backend p)) = Inr port \<and> port \<noteq> 0 \<and>
      b = \<lparr>be_Name = sv_Name svc, be_IngName = ing_Name (nc_ingress n), be_NameSpace = sv_Namespace svc,
           be_Path = formatPath (hp_Path p) ann, be_ServiceBackend = Some sb, be_Port = port,
           be_TargetPath = hp_Path p, be_Annotations = ann, be_RewritePath = []\<rparr>)"
  by (auto simp: path_backend_def ebind_eq_Inr)

section \<open>Properties\<close>

text \<open>C21. The configuration built for an ingress has one server per rule, in the order of the rules,
  each with the host of its rule and with one back end for every path that is served, in order: the
  slices made ahead of the loops are filled completely and nothing is left nil.\<close>

theorem servers_follow_rules:
  assumes "getBackendConfigure n ann w = (Inr cfg, w')"
  shows "\<exists>ss. Servers cfg = map Some ss \<and>
    list_all2 (\<lambda>v s. se_HostName s = ir_Host v \<and>
      (\<exists>paths bs. ir_HTTP v = Some paths \<and> se_Paths s = map Some bs \<and>
         list_all2 (\<lambda>p b. path_backend n ann p = Inr b) (served_paths ann paths) bs))
      (Rules (ing_Spec (nc_ingress n))) ss"
proof -
  from assms obtain tls ss where ss: "emap (rule_server n ann tls) (Rules (ing_Spec (nc_ingress n))) = Inr ss"
    and cfg: "Servers cfg = map Some ss"
    by (auto simp: getBackendConfigure_ok)
  have "se_HostName s = ir_Host v \<and> (\<exists>paths bs. ir_HTTP v = Some paths \<and> se_Paths s = map Some bs \<and>
         list_all2 (\<lambda>p b. path_backend n ann p = Inr b) (served_paths ann paths) bs)"
    if "rule_server n ann tls v = Inr s" for v s
    using that by (rule rule_server_ok) (auto simp: emap_eq_Inr)
  with ss cfg show ?thesis
    by (intro exI [of _ ss]) (auto simp: emap_eq_Inr elim: list_all2_mono)
qed

definition shop_service :: service where
  "shop_service = \<lparr>sv_Name = ''cart'', sv_Namespace = ''shop'', sv_Ports = [\<lparr>sp_Name = ''http'', sp_Port = 80\<rparr>]\<rparr>"

definition shop_client :: client where
  "shop_client = \<lparr>cl_Ingress = (\<lambda>_. Inl (ApiNotFound ''ingress'')),
     cl_Service = (\<lambda>k. if ok_Name k = ''cart'' then Inr shop_service else Inl (ApiNotFound ''service'')),
     cl_Secret = (\<lambda>_. Inl (ApiNotFound ''secret'')), cl_IngressClass = (\<lambda>_. Inl (ApiNotFound ''class'')),
     cl_Issuer = (\<lambda>_. Inl (ApiNotFound ''issuer'')), cl_Certificate = (\<lambda>_. Inl (ApiNotFound ''certificate''))\<rparr>"

definition shop_path :: "string \<Rightarrow> backend_port \<Rightarrow> http_path" where
  "shop_path p port = \<lparr>hp_Path = p, hp_PathType = Some ''Prefix'',
     hp_Backend = \<lparr>ib_Service = Some \<lparr>sb_Name = ''cart'', sb_Port = port\<rparr>\<rparr>\<rparr>"

definition shop_ingress :: "backend_port \<Rightarrow> ingress" where
  "shop_ingress port = sample_ingress\<lparr>ing_Spec := (ing_Spec sample_ingress)
     \<lparr>Rules := [\<lparr>ir_Host = ''a.com'', ir_HTTP = Some [shop_path ''/a'' port, shop_path ''/b'' port]\<rparr>]\<rparr>\<rparr>"

definition shop_controller :: "backend_port \<Rightarrow> NginxController" where
  "shop_controller port = \<lparr>nc_rr = info_resolver \<lparr>ii_ingress = shop_ingress port, ii_r = shop_client\<rparr>,
     nc_ingress = shop_ingress port\<rparr>"

lemma shop_paths_plain: "\<not> IsRegexPatternRegex ''/a''" "\<not> IsRegexPatternRegex ''/b''"
  by code_simp+

lemma shop_configure:
  "\<exists>cfg. getBackendConfigure (shop_controller \<lparr>bp_Name = '''', bp_Number = 80\<rparr>)
      (new_annotations (shop_ingress \<lparr>bp_Name = '''', bp_Number = 80\<rparr>)) w = (Inr cfg, w)"
  by (simp add: getBackendConfigure_def generateTlsFile_def generateCrdTlsFile_def shop_controller_def
      shop_ingress_def sample_ingress_def shop_path_def shop_client_def shop_service_def info_resolver_def
      GetTlsData_def GetSecret_def rule_server_def path_backend_def checkIngressContent_def
      shop_paths_plain new_annotations_def GetService_def GetSvcPort_def port_of_backend_def Let_def)

theorem servers_follow_rules_witness:
  "\<exists>cfg ss. getBackendConfigure (shop_controller \<lparr>bp_Name = '''', bp_Number = 80\<rparr>)
      (new_annotations (shop_ingress \<lparr>bp_Name = '''', bp_Number = 80\<rparr>)) sample_disk = (Inr cfg, sample_disk) \<and>
    Servers cfg = map Some ss \<and> map se_HostName ss = [''a.com'']"
proof -
  obtain cfg where cfg: "getBackendConfigure (shop_controller \<lparr>bp_Name = '''', bp_Number = 80\<rparr>)
      (new_annotations (shop_ingress \<lparr>bp_Name = '''', bp_Number = 80\<rparr>)) sample_disk = (Inr cfg, sample_disk)"
    using shop_configure by blast
  from servers_follow_rules [OF cfg] show ?thesis
    using cfg by (auto simp: shop_controller_def shop_ingress_def list_all2_Cons1)
qed

text \<open>The location of a back end is marked as a regular expression exactly when its path looks like
  one: a path that does is refused unless the ingress asks for rewriting or regular expressions, and
  the other way round; the path as written is kept beside it.\<close>

theorem location_matches_path:
  assumes "path_backend n ann p = Inr b"
  shows "be_Path b = (if IsRegexPatternRegex (hp_Path p) then ''~ ^'' @ hp_Path p else hp_Path p) \<and>
    be_TargetPath b = hp_Path p"
proof -
  from assms have "be_Path b = formatPath (hp_Path p) ann" and "be_TargetPath b = hp_Path p"
    and "IsRegexPatternRegex (hp_Path p) \<longleftrightarrow> rw_EnableRegex (ia_Rewrite ann) \<or> rw_RewriteTarget (ia_Rewrite ann) \<noteq> []"
    by (auto simp: path_backend_ok checkIngressContent_ok)
  then show ?thesis by (simp add: formatPath_def)
qed

lemma shop_backend:
  "\<exists>b. path_backend (shop_controller \<lparr>bp_Name = '''', bp_Number = 80\<rparr>)
      (new_annotations sample_ingress) (shop_path ''/a'' \<lparr>bp_Name = '''', bp_Number = 80\<rparr>) = Inr b"
  by (simp add: shop_controller_def shop_ingress_def sample_ingress_def shop_path_def shop_client_def
      shop_service_def info_resolver_def path_backend_def checkIngressContent_def shop_paths_plain
      new_annotations_def GetService_def GetSvcPort_def port_of_backend_def Let_def)

theorem location_matches_path_witness:
  "\<exists>b. path_backend (shop_controller \<lparr>bp_Name = '''', bp_Number = 80\<rparr>)
      (new_annotations sample_ingress) (shop_path ''/a'' \<lparr>bp_Name = '''', bp_Number = 80\<rparr>) = Inr b \<and> be_Path b = ''/a''"
proof -
  obtain b where b: "path_backend (shop_controller \<lparr>bp_Name = '''', bp_Number = 80\<rparr>)
      (new_annotations sample_ingress) (shop_path ''/a'' \<lparr>bp_Name = '''', bp_Number = 80\<rparr>) = Inr b"
    using shop_backend by blast
  from location_matches_path [OF b] show ?thesis
    using b shop_paths_plain by (auto simp: shop_path_def)
qed

text \<open>A back end whose service port is given by name is never configured: the resolver of the
  controller answers a name with the number of the ingress, which is zero, and the update fails for
  the whole ingress, whatever ports the service has.\<close>

theorem named_port_refused:
  assumes "ib_Service (hp_Backend p) = Some sb" and "bp_Number (sb_Port sb) = 0"
    and "nc_rr n = info_resolver t"
  shows "path_backend n ann p \<noteq> Inr b"
proof
  assume "path_backend n ann p = Inr b"
  then obtain port where "rs_GetSvcPort (nc_rr n) (QBackend (hp_Backend p)) = Inr port" "port \<noteq> 0"
    by (auto simp: path_backend_ok)
  then show False
    using info.backend_port [of t "hp_Backend p" port] assms by auto
qed

theorem named_port_refused_witness:
  "\<nexists>b. path_backend (shop_controller \<lparr>bp_Name = ''http'', bp_Number = 0\<rparr>) (new_annotations sample_ingress)
     (shop_path ''/a'' \<lparr>bp_Name = ''http'', bp_Number = 0\<rparr>) = Inr b"
proof
  assume "\<exists>b. path_backend (shop_controller \<lparr>bp_Name = ''http'', bp_Number = 0\<rparr>) (new_annotations sample_ingress)
     (shop_path ''/a'' \<lparr>bp_Name = ''http'', bp_Number = 0\<rparr>) = Inr b"
  then obtain b where "path_backend (shop_controller \<lparr>bp_Name = ''http'', bp_Number = 0\<rparr>) (new_annotations sample_ingress)
     (shop_path ''/a'' \<lparr>bp_Name = ''http'', bp_Number = 0\<rparr>) = Inr b" ..
  moreover have "path_backend (shop_controller \<lparr>bp_Name = ''http'', bp_Number = 0\<rparr>) (new_annotations sample_ingress)
     (shop_path ''/a'' \<lparr>bp_Name = ''http'', bp_Number = 0\<rparr>) \<noteq> Inr b"
    by (rule named_port_refused [of _ "\<lparr>sb_Name = ''cart'', sb_Port = \<lparr>bp_Name = ''http'', bp_Number = 0\<rparr>\<rparr>" _
        "\<lparr>ii_ingress = shop_ingress \<lparr>bp_Name = ''http'', bp_Number = 0\<rparr>, ii_r = shop_client\<rparr>"])
       (simp_all add: shop_path_def shop_controller_def)
  ultimately show False by blast
qed

text \<open>Every port in a configuration is the number the ingress asks for, of a service that was
  fetched in the namespace of the ingress and that has a port with that number, or with the name the
  ingress gives, which is the empty name for a port given by number.\<close>

theorem configured_port_exists:
  assumes "nc_rr n = info_resolver t" and "path_backend n ann p = Inr b"
  shows "\<exists>sb svc. ib_Service (hp_Backend p) = Some sb \<and> GetService t (sb_Name sb) = Inr svc \<and>
    be_Name b = sv_Name svc \<and> be_Port b = bp_Number (sb_Port sb) \<and> be_Port b \<noteq> 0 \<and>
    (\<exists>sp\<in>set (sv_Ports svc). sp_Port sp = be_Port b \<or> sp_Name sp = bp_Name (sb_Port sb))"
proof -
  from assms(2) obtain sb svc where b: "ib_Service (hp_Backend p) = Some sb"
      "rs_GetService (nc_rr n) (sb_Name sb) = Inr svc" "rs_GetSvcPort (nc_rr n) (QBackend (hp_Backend p)) = Inr (be_Port b)"
      "be_Port b \<noteq> 0" "be_Name b = sv_Name svc"
    by (auto simp: path_backend_ok)
  from info.backend_port [OF b(3) [unfolded assms(1)] b(4)] show ?thesis
    using b assms(1) by (auto simp: info_resolver_def)
qed

theorem configured_port_exists_witness:
  "\<exists>b. path_backend (shop_controller \<lparr>bp_Name = '''', bp_Number = 80\<rparr>)
      (new_annotations sample_ingress) (shop_path ''/a'' \<lparr>bp_Name = '''', bp_Number = 80\<rparr>) = Inr b \<and> be_Port b = 80"
proof -
  obtain b where b: "path_backend (shop_controller \<lparr>bp_Name = '''', bp_Number = 80\<rparr>)
      (new_annotations sample_ingress) (shop_path ''/a'' \<lparr>bp_Name = '''', bp_Number = 80\<rparr>) = Inr b"
    using shop_backend by blast
  have "nc_rr (shop_controller q) = info_resolver \<lparr>ii_ingress = shop_ingress q, ii_r = shop_client\<rparr>" for q
    by (simp add: shop_controller_def)
  from configured_port_exists [OF this b] show ?thesis
    using b by (auto simp: shop_path_def)
qed

end
