(* ===== verification/NginxReload.thy ===== *)
theory NginxReload
  imports GoFiles ApiTypes
begin

text \<open>
  \<^verbatim>\<open>internal/nginx/nginx.go\<close>: installing a new configuration file and telling the nginx
  process. The commands it runs (\<^verbatim>\<open>nginx -t\<close>, \<^verbatim>\<open>cat\<close> of the pid file, the kill system call and the
  process list) are other programs: a record of functions, an argument of the definitions. They are
  taken to leave the files alone. The log \<open>events\<close> of the world records what they were asked to do.
\<close>

datatype run_result =
    RunOk
  | RunExit string   \<comment> \<open>the command ran and failed: an \<^verbatim>\<open>*exec.ExitError\<close>\<close>
  | RunFail string   \<comment> \<open>the command could not be run\<close>

record nginx_env =
  ne_test :: "file_map \<Rightarrow> run_result"
  ne_cat :: "file_map \<Rightarrow> go_error + string"
  ne_kill :: "int \<Rightarrow> go_error option"
  ne_ps :: "event list \<Rightarrow> go_error + string list"

section \<open>The operations\<close>

definition log_event :: "event \<Rightarrow> world \<Rightarrow> world" where
  "log_event e w = w\<lparr>events := events w @ [e]\<rparr>"

definition generateConf :: "string \<Rightarrow> string \<Rightarrow> world \<Rightarrow> unit result \<times> world" where
  "generateConf src dst w =
     (case os_read src w of
        Inl _ \<Rightarrow> (Inr (), w)
      | Inr b \<Rightarrow>
          (case os_write dst b w of
             (Some e, w1) \<Rightarrow> (Inl (Err e), w1)
           | (None, w1) \<Rightarrow>
               if (case os_stat dst w1 of Inl _ \<Rightarrow> True | Inr n \<Rightarrow> n = 0) \<or> SHA1 src w1 \<noteq> SHA1 dst w1
               then (Inl (Err (Errorf (''failed to generate nginx configuration file and cannot proceed to the next step, file: '' @ dst))), w1)
               else (Inr (), w1)))"

definition CleanConf1 :: "string \<Rightarrow> world \<Rightarrow> world" where
  "CleanConf1 v w = (case os_stat v w of Inl _ \<Rightarrow> w | Inr _ \<Rightarrow> snd (os_remove v w))"

definition CleanConf :: "string list \<Rightarrow> world \<Rightarrow> world" where
  "CleanConf fs w = fold CleanConf1 fs w"

text \<open>\<^verbatim>\<open>defer CleanConf(fs...)\<close>: run at every return, but not when the process is ended.\<close>

fun deferred :: "string list \<Rightarrow> unit result \<times> world \<Rightarrow> unit result \<times> world" where
  "deferred fs (Inl Exit, w) = (Inl Exit, w)"
| "deferred fs (r, w) = (r, CleanConf fs w)"

definition backupConf :: "string \<Rightarrow> string \<Rightarrow> string \<Rightarrow> world \<Rightarrow> unit result \<times> world" where
  "backupConf src dstTest dstBak w =
     deferred [dstTest]
       (sbind (generateConf src dstBak w) (\<lambda>_. generateConf dstTest src))"

definition rolloutConf :: "string \<Rightarrow> string \<Rightarrow> world \<Rightarrow> unit result \<times> world" where
  "rolloutConf src dst w = sbind (generateConf src dst w) (\<lambda>_ w1. (Inr (), w1))"

definition isRunning :: "nginx_env \<Rightarrow> world \<Rightarrow> bool" where
  "isRunning env w = (case ne_ps env (events w) of Inl _ \<Rightarrow> False | Inr ps \<Rightarrow> ''nginx'' \<in> set ps)"

definition gracefulRestart :: "nginx_env \<Rightarrow> world \<Rightarrow> unit result \<times> world" where
  "gracefulRestart env w =
     (case ne_cat env (files w) of
        Inl e \<Rightarrow> (Inl (Err e), w)
      | Inr out \<Rightarrow>
          (case atoi (trim_space out) of
             None \<Rightarrow> (Inl (Err (Errorf (''strconv.Atoi: parsing '' @ trim_space out))), w)
           | Some ngxPid \<Rightarrow>
               (case ne_kill env ngxPid of
                  Some e \<Rightarrow> (Inl (Err e), w)
                | None \<Rightarrow>
                    (let w1 = log_event (Hup ngxPid (files w)) w
                     in if isRunning env w1 then (Inr (), w1) else (Inl Exit, w1)))))"

text \<open>\<^verbatim>\<open>nginx -t\<close>: the result, and the failure as the error that \<^verbatim>\<open>cmd.Run\<close> returns.\<close>

definition nginx_t :: "nginx_env \<Rightarrow> world \<Rightarrow> run_result \<times> world" where
  "nginx_t env w = (ne_test env (files w), log_event (Tested (files w)) w)"

text \<open>The part of \<^verbatim>\<open>reload\<close> from the configuration test on.\<close>

definition test_and_restart :: "nginx_env \<Rightarrow> bool \<Rightarrow> string \<Rightarrow> string \<Rightarrow> string \<Rightarrow> world \<Rightarrow> unit result \<times> world" where
  "test_and_restart env isFirstReload productConf testConf backupFile w =
     (case nginx_t env w of
        (RunExit m, w1) \<Rightarrow>
          (if \<not> isFirstReload
           then sbind (rolloutConf backupFile productConf w1) (\<lambda>_ w2. (Inl (Err (ExitError m)), w2))
           else (Inl (Err (ExitError m)), w1))
      | (_, w1) \<Rightarrow>
          sbind (generateConf testConf productConf w1) (\<lambda>_. gracefulRestart env))"

definition reload :: "nginx_env \<Rightarrow> string \<Rightarrow> world \<Rightarrow> unit result \<times> world" where
  "reload env name w =
     (let productConf = name @ ''.conf''; testConf = name @ ''-test.conf''; backupFile = name @ ''.tmp''
      in deferred [backupFile, testConf]
           (case os_stat productConf w of
              Inr _ \<Rightarrow>
                if SHA1 productConf w = SHA1 testConf w then (Inr (), w)
                else sbind (backupConf productConf testConf backupFile w)
                       (\<lambda>_. test_and_restart env False productConf testConf backupFile)
            | Inl _ \<Rightarrow> test_and_restart env True productConf testConf backupFile w))"

definition Reload :: "nginx_env \<Rightarrow> string \<Rightarrow> world \<Rightarrow> unit result \<times> world" where
  "Reload env name w = reload env name w"

definition reloadIfWatchFileCurd :: "nginx_env \<Rightarrow> world \<Rightarrow> unit result \<times> world" where
  "reloadIfWatchFileCurd env w =
     (case nginx_t env w of
        (RunExit _, w1) \<Rightarrow> (Inr (), w1)
      | (_, w1) \<Rightarrow>
          (case gracefulRestart env w1 of
             (Inl Exit, w2) \<Rightarrow> (Inl Exit, w2)
           | (_, w2) \<Rightarrow> (Inr (), w2)))"

section \<open>What each operation does to the files\<close>

lemma generateConf_ok [fs_simps]:
  assumes "healthy w src" and "healthy w dst" and "files w src = Some b" and "b \<noteq> []"
  shows "generateConf src dst w = (Inr (), set_file dst (Some b) w)"
  using assms by (simp add: generateConf_def os_read_healthy os_write_healthy os_stat_simps SHA1_healthy)

lemma generateConf_missing [fs_simps]: "files w src = None \<Longrightarrow> generateConf src dst w = (Inr (), w)"
  by (simp add: generateConf_def os_read_def)

lemma generateConf_empty:
  assumes "healthy w src" and "healthy w dst" and "files w src = Some []"
  shows "\<exists>e. generateConf src dst w = (Inl (Err e), set_file dst (Some []) w)"
  using assms by (simp add: generateConf_def os_read_healthy os_write_healthy os_stat_simps)

lemma generateConf_frame:
  "generateConf src dst w = (r, w') \<Longrightarrow> touches_only {dst} w w' \<and> events w' = events w \<and> r \<noteq> Inl Exit"
  by (auto simp: generateConf_def dest!: os_write_touches split: sum.splits option.splits prod.splits if_splits)

text \<open>Deleting a file that is there or not.\<close>

lemma CleanConf1_healthy: "healthy w v \<Longrightarrow> CleanConf1 v w = set_file v None w"
  by (auto simp: CleanConf1_def os_stat_def os_remove_healthy set_file_def fun_upd_idem split: option.splits)

lemma CleanConf1_frame: "touches_only {v} w (CleanConf1 v w) \<and> events (CleanConf1 v w) = events w"
  by (cases "os_remove v w")
     (auto simp: CleanConf1_def dest!: os_remove_touches split: sum.splits)

lemma CleanConf_simps:
  "CleanConf [] w = w" "CleanConf (v # vs) w = CleanConf vs (CleanConf1 v w)"
  by (simp_all add: CleanConf_def)

lemma CleanConf_frame: "touches_only (set fs) w (CleanConf fs w) \<and> events (CleanConf fs w) = events w"
proof (induction fs arbitrary: w)
  case (Cons v fs)
  have 1: "touches_only (set (v # fs)) w (CleanConf1 v w)"
    by (rule touches_only_mono [OF CleanConf1_frame [THEN conjunct1]]) simp
  have 2: "touches_only (set (v # fs)) (CleanConf1 v w) (CleanConf fs (CleanConf1 v w))"
    by (rule touches_only_mono [OF Cons.IH [THEN conjunct1]]) auto
  show ?case
    using touches_only_trans [OF 1 2] Cons.IH CleanConf1_frame by (simp add: CleanConf_simps)
qed (simp add: CleanConf_simps)

lemma CleanConf_two:
  "healthy w a \<Longrightarrow> healthy w b \<Longrightarrow> CleanConf [a, b] w = set_file b None (set_file a None w)"
  by (simp add: CleanConf_simps CleanConf1_healthy)

lemma deferred_frame:
  "deferred fs (r, w) = (r', w') \<Longrightarrow> r' = r \<and> touches_only (set fs) w w' \<and> events w' = events w"
  using CleanConf_frame by (cases "(fs, (r, w))" rule: deferred.cases) auto

lemma deferred_returns: "r \<noteq> Inl Exit \<Longrightarrow> deferred fs (r, w) = (r, CleanConf fs w)"
  by (cases "(fs, (r, w))" rule: deferred.cases) auto

lemma backupConf_ok [fs_simps]:
  assumes "healthy w src" "healthy w tst" "healthy w bak" and "distinct [src, tst, bak]"
    and "files w src = Some old" "old \<noteq> []" and "files w tst = Some new" "new \<noteq> []"
  shows "backupConf src tst bak w =
    (Inr (), set_file tst None (set_file src (Some new) (set_file bak (Some old) w)))"
  using assms by (simp add: backupConf_def fs_simps CleanConf_simps CleanConf1_healthy)

lemma backupConf_frame:
  assumes "backupConf src tst bak w = (r, w')"
  shows "touches_only {src, tst, bak} w w' \<and> events w' = events w \<and> r \<noteq> Inl Exit"
proof -
  obtain r1 w1 where 1: "generateConf src bak w = (r1, w1)" by (meson surj_pair)
  obtain r2 w2 where 2: "sbind (r1, w1) (\<lambda>_. generateConf tst src) = (r2, w2)" by (meson surj_pair)
  have f1: "touches_only {src, tst, bak} w w1 \<and> events w1 = events w \<and> r1 \<noteq> Inl Exit"
    using generateConf_frame [OF 1] touches_only_mono [of "{bak}" w w1 "{src, tst, bak}"] by simp
  have f2: "touches_only {src, tst, bak} w1 w2 \<and> events w2 = events w1 \<and> r2 \<noteq> Inl Exit"
  proof (cases r1)
    case (Inr a)
    with 2 have "generateConf tst src w1 = (r2, w2)" by simp
    from generateConf_frame [OF this] show ?thesis
      using touches_only_mono [of "{src}" w1 w2 "{src, tst, bak}"] by simp
  qed (use 2 f1 in simp)
  have "deferred [tst] (r2, w2) = (r, w')" using assms by (simp add: backupConf_def 1 2)
  from deferred_frame [OF this] have f3: "r = r2 \<and> touches_only {src, tst, bak} w2 w' \<and> events w' = events w2"
    using touches_only_mono [of "{tst}" w2 w' "{src, tst, bak}"] by auto
  have "touches_only {src, tst, bak} w w'"
    using f1 f2 f3 touches_only_trans [of _ w w1 w2] touches_only_trans [of _ w w2 w'] by blast
  then show ?thesis using f1 f2 f3 by simp
qed

text \<open>What the restart of the process can add to the log: one signal.\<close>

lemma gracefulRestart_frame:
  assumes "gracefulRestart env w = (r, w')"
  shows "touches_only {} w w' \<and> files w' = files w \<and>
         (events w' = events w \<or> (\<exists>pid. events w' = events w @ [Hup pid (files w)]))"
  using assms
  by (auto simp: gracefulRestart_def Let_def log_event_def touches_only_def split: sum.splits option.splits if_splits)

section \<open>What the whole reload does to the files and to the process\<close>

text \<open>A log in which a signal follows a test of the configuration that did not fail.\<close>

fun failed_run :: "run_result \<Rightarrow> bool" where
  "failed_run (RunExit _) = True"
| "failed_run _ = False"

fun tested_then_hup :: "nginx_env \<Rightarrow> event list \<Rightarrow> bool" where
  "tested_then_hup env [] = True"
| "tested_then_hup env [Tested f] = True"
| "tested_then_hup env [Tested f, Hup pid g] = (\<not> failed_run (ne_test env f))"
| "tested_then_hup env _ = False"

text \<open>The same for a log of any length: every signal comes right after a test that did not fail.\<close>

fun signals_tested :: "nginx_env \<Rightarrow> event list \<Rightarrow> bool" where
  "signals_tested env [] = True"
| "signals_tested env (Hup pid g # es) = False"
| "signals_tested env [Tested f] = True"
| "signals_tested env (Tested f # Tested g # es) = signals_tested env (Tested g # es)"
| "signals_tested env (Tested f # Hup pid g # es) = (\<not> failed_run (ne_test env f) \<and> signals_tested env es)"

lemma signals_tested_append:
  "signals_tested env es \<Longrightarrow> signals_tested env es' \<Longrightarrow> signals_tested env (es @ es')"
proof (induction env es rule: signals_tested.induct)
  case (3 env f)
  then show ?case by (cases "(env, es')" rule: signals_tested.cases) auto
qed auto

lemma tested_then_hup_signals: "tested_then_hup env es \<Longrightarrow> signals_tested env es"
  by (cases "(env, es)" rule: tested_then_hup.cases) auto

lemma nginx_t_simps:
  "fst (nginx_t env w) = ne_test env (files w)"
  "snd (nginx_t env w) = log_event (Tested (files w)) w"
  by (simp_all add: nginx_t_def)

lemma log_event_simps [simp]:
  "files (log_event e w) = files w" "events (log_event e w) = events w @ [e]"
  "healthy (log_event e w) = healthy w"
  "touches_only ps (log_event e w) w' = touches_only ps w w'"
  by (simp_all add: log_event_def healthy_def [abs_def] touches_only_def)

lemma test_and_restart_frame:
  assumes "test_and_restart env b pc tst bak w = (r, w')"
  shows "touches_only {pc} w w' \<and> (\<exists>es. events w' = events w @ es \<and> tested_then_hup env es)"
proof -
  let ?w1 = "log_event (Tested (files w)) w"
  have passed: ?thesis
    if "sbind (generateConf tst pc ?w1) (\<lambda>_. gracefulRestart env) = (r, w')"
      and "\<not> failed_run (ne_test env (files w))"
  proof -
    obtain r2 w2 where 2: "generateConf tst pc ?w1 = (r2, w2)" by (meson surj_pair)
    have f2: "touches_only {pc} w w2 \<and> events w2 = events w @ [Tested (files w)]"
      using generateConf_frame [OF 2] by simp
    show ?thesis
    proof (cases r2)
      case (Inl e)
      with that(1) 2 have "w' = w2" by simp
      then show ?thesis using f2 by (auto intro: exI [of _ "[Tested (files w)]"])
    next
      case (Inr u)
      with that(1) 2 have "gracefulRestart env w2 = (r, w')" by simp
      from gracefulRestart_frame [OF this]
      have g: "touches_only {} w2 w' \<and> (events w' = events w2 \<or> (\<exists>pid. events w' = events w2 @ [Hup pid (files w2)]))"
        by simp
      then have "touches_only {pc} w w'"
        using f2 touches_only_mono [of "{}" w2 w' "{pc}"] touches_only_trans [of _ w w2 w'] by simp
      moreover have "\<exists>es. events w' = events w @ es \<and> tested_then_hup env es"
      proof -
        from g consider "events w' = events w @ [Tested (files w)]"
          | pid where "events w' = events w @ [Tested (files w), Hup pid (files w2)]"
          using f2 by auto
        then show ?thesis
        proof cases
          case 1
          then show ?thesis by (intro exI [of _ "[Tested (files w)]"]) simp
        next
          case (2 pid)
          then show ?thesis using that(2)
            by (intro exI [of _ "[Tested (files w), Hup pid (files w2)]"]) simp
        qed
      qed
      ultimately show ?thesis by simp
    qed
  qed
  show ?thesis
  proof (cases "ne_test env (files w)")
    case (RunExit m)
    obtain r2 w2 where 2: "generateConf bak pc ?w1 = (r2, w2)" by (meson surj_pair)
    have "touches_only {pc} w w2 \<and> events w2 = events w @ [Tested (files w)]"
      using generateConf_frame [OF 2] by simp
    moreover have "w' = w2 \<or> w' = ?w1"
      using assms RunExit 2
      by (cases r2) (auto simp: test_and_restart_def nginx_t_def rolloutConf_def split: if_splits)
    ultimately show ?thesis
      by (elim disjE) (auto intro!: exI [of _ "[Tested (files w)]"] simp: touches_only_def log_event_def)
  qed (use passed assms in \<open>simp_all add: test_and_restart_def nginx_t_def\<close>)
qed

lemma reload_body:
  obtains r w1 where "reload env name w = deferred [name @ ''.tmp'', name @ ''-test.conf''] (r, w1)"
    and "touches_only {name @ ''.conf'', name @ ''-test.conf'', name @ ''.tmp''} w w1"
    and "\<exists>es. events w1 = events w @ es \<and> tested_then_hup env es"
proof -
  let ?p = "name @ ''.conf''" and ?t = "name @ ''-test.conf''" and ?b = "name @ ''.tmp''"
  let ?ps = "{?p, ?t, ?b}"
  let ?body = "case os_stat ?p w of
              Inr _ \<Rightarrow>
                if SHA1 ?p w = SHA1 ?t w then (Inr (), w)
                else sbind (backupConf ?p ?t ?b w) (\<lambda>_. test_and_restart env False ?p ?t ?b)
            | Inl _ \<Rightarrow> test_and_restart env True ?p ?t ?b w"
  obtain r1 w1 where 1: "?body = (r1, w1)" by (meson surj_pair)
  have mono: "touches_only ?ps x y" if "touches_only {?p} x y" for x y
    using that by (rule touches_only_mono) simp
  have body: "touches_only ?ps w w1 \<and> (\<exists>es. events w1 = events w @ es \<and> tested_then_hup env es)"
  proof (cases "os_stat ?p w")
    case (Inl e)
    with 1 have "test_and_restart env True ?p ?t ?b w = (r1, w1)" by simp
    from test_and_restart_frame [OF this] show ?thesis using mono by simp
  next
    case (Inr n)
    show ?thesis
    proof (cases "SHA1 ?p w = SHA1 ?t w")
      case True
      with 1 Inr have "w1 = w" by simp
      then show ?thesis by (auto intro: exI [of _ "[]"])
    next
      case False
      obtain r2 w2 where 2: "backupConf ?p ?t ?b w = (r2, w2)" by (meson surj_pair)
      have f2: "touches_only ?ps w w2 \<and> events w2 = events w"
        using backupConf_frame [OF 2] by simp
      show ?thesis
      proof (cases r2)
        case (Inl e)
        with 1 2 Inr False have "w1 = w2" by simp
        then show ?thesis using f2 by (auto intro: exI [of _ "[]"])
      next
        case (Inr u)
        with 1 2 False \<open>os_stat ?p w = Inr n\<close> have "test_and_restart env False ?p ?t ?b w2 = (r1, w1)"
          by simp
        from test_and_restart_frame [OF this] mono
        show ?thesis using f2 touches_only_trans [of ?ps w w2 w1] by simp
      qed
    qed
  qed
  show thesis
    by (rule that [of r1 w1]) (use 1 body in \<open>auto simp: reload_def\<close>)
qed

lemma reload_frame:
  assumes "reload env name w = (r, w')"
  shows "touches_only {name @ ''.conf'', name @ ''-test.conf'', name @ ''.tmp''} w w' \<and>
         (\<exists>es. events w' = events w @ es \<and> tested_then_hup env es)"
proof -
  let ?ps = "{name @ ''.conf'', name @ ''-test.conf'', name @ ''.tmp''}"
  obtain r1 w1 where d: "deferred [name @ ''.tmp'', name @ ''-test.conf''] (r1, w1) = (r, w')"
    and body: "touches_only ?ps w w1" "\<exists>es. events w1 = events w @ es \<and> tested_then_hup env es"
    using assms by (metis reload_body)
  from deferred_frame [OF d] have "touches_only ?ps w1 w' \<and> events w' = events w1"
    using touches_only_mono [of "set [name @ ''.tmp'', name @ ''-test.conf'']" w1 w' ?ps] by auto
  then show ?thesis using body touches_only_trans [of ?ps w w1 w'] by simp
qed

section \<open>The outcome on a healthy disk\<close>

definition healthy_conf :: "world \<Rightarrow> string \<Rightarrow> bool" where
  "healthy_conf w name \<longleftrightarrow>
     healthy w (name @ ''.conf'') \<and> healthy w (name @ ''-test.conf'') \<and> healthy w (name @ ''.tmp'')"

text \<open>The files after a reload: the two temporary ones gone, the configuration as given.\<close>

definition settled :: "string \<Rightarrow> string option \<Rightarrow> file_map \<Rightarrow> file_map" where
  "settled name c f = f(name @ ''.conf'' := c, name @ ''-test.conf'' := None, name @ ''.tmp'' := None)"

text \<open>The files while \<^verbatim>\<open>nginx -t\<close> runs on a changed configuration.\<close>

definition under_test :: "string \<Rightarrow> string \<Rightarrow> string \<Rightarrow> file_map \<Rightarrow> file_map" where
  "under_test name old new f =
     f(name @ ''.tmp'' := Some old, name @ ''.conf'' := Some new, name @ ''-test.conf'' := None)"

lemma reload_changed:
  assumes "healthy_conf w name"
    and "files w (name @ ''.conf'') = Some old" "old \<noteq> []"
    and "files w (name @ ''-test.conf'') = Some new" "new \<noteq> []"
    and "sha1_hex old \<noteq> sha1_hex new"
  shows "reload env name w =
    deferred [name @ ''.tmp'', name @ ''-test.conf'']
      (test_and_restart env False (name @ ''.conf'') (name @ ''-test.conf'') (name @ ''.tmp'')
        (w\<lparr>files := under_test name old new (files w)\<rparr>))"
proof -
  have "backupConf (name @ ''.conf'') (name @ ''-test.conf'') (name @ ''.tmp'') w =
      (Inr (), w\<lparr>files := under_test name old new (files w)\<rparr>)"
    using assms by (subst backupConf_ok) (auto simp: healthy_conf_def under_test_def set_file_def)
  then show ?thesis
    using assms by (simp add: reload_def Let_def os_stat_simps SHA1_healthy healthy_conf_def)
qed

lemma CleanConf_settled:
  assumes "healthy_conf w name"
  shows "files (CleanConf [name @ ''.tmp'', name @ ''-test.conf''] w) = settled name (files w (name @ ''.conf'')) (files w)"
  using assms by (auto simp: healthy_conf_def CleanConf_two settled_def fun_eq_iff)

lemma healthy_conf_files [simp]:
  "healthy_conf (w\<lparr>files := f\<rparr>) name = healthy_conf w name"
  "healthy_conf (log_event e w) name = healthy_conf w name"
  "healthy_conf (set_file p c w) name = healthy_conf w name"
  by (simp_all add: healthy_conf_def healthy_def)

lemma settled_upds [simp]:
  "settled name c (under_test name old new f) = settled name c f"
  "settled name c (f(name @ ''.conf'' := d)) = settled name c f"
  by (auto simp: settled_def under_test_def fun_eq_iff)

lemma under_test_at [simp]:
  "under_test name old new f (name @ ''.conf'') = Some new"
  "under_test name old new f (name @ ''-test.conf'') = None"
  "under_test name old new f (name @ ''.tmp'') = Some old"
  by (simp_all add: under_test_def)

lemma reload_rejected:
  assumes "healthy_conf w name"
    and "files w (name @ ''.conf'') = Some old" "old \<noteq> []"
    and "files w (name @ ''-test.conf'') = Some new" "new \<noteq> []"
    and "sha1_hex old \<noteq> sha1_hex new"
    and "ne_test env (under_test name old new (files w)) = RunExit m"
  shows "fst (reload env name w) = Inl (Err (ExitError m)) \<and>
         files (snd (reload env name w)) = settled name (Some old) (files w) \<and>
         events (snd (reload env name w)) = events w @ [Tested (under_test name old new (files w))]"
proof -
  let ?w1 = "log_event (Tested (under_test name old new (files w))) (w\<lparr>files := under_test name old new (files w)\<rparr>)"
  have "generateConf (name @ ''.tmp'') (name @ ''.conf'') ?w1 = (Inr (), set_file (name @ ''.conf'') (Some old) ?w1)"
    using assms(1,3) by (subst generateConf_ok) (auto simp: healthy_conf_def healthy_def)
  then have "reload env name w =
      deferred [name @ ''.tmp'', name @ ''-test.conf'']
        (Inl (Err (ExitError m)), set_file (name @ ''.conf'') (Some old) ?w1)"
    using assms by (simp add: reload_changed test_and_restart_def nginx_t_def rolloutConf_def)
  then show ?thesis
    using assms(1) CleanConf_frame by (simp add: deferred_returns CleanConf_settled)
qed

lemma reload_passed:
  assumes "healthy_conf w name"
    and "files w (name @ ''.conf'') = Some old" "old \<noteq> []"
    and "files w (name @ ''-test.conf'') = Some new" "new \<noteq> []"
    and "sha1_hex old \<noteq> sha1_hex new"
    and "\<not> failed_run (ne_test env (under_test name old new (files w)))"
  shows "reload env name w =
    deferred [name @ ''.tmp'', name @ ''-test.conf''] (gracefulRestart env
      (log_event (Tested (under_test name old new (files w))) (w\<lparr>files := under_test name old new (files w)\<rparr>)))"
  using assms
  by (cases "ne_test env (under_test name old new (files w))")
     (simp_all add: reload_changed test_and_restart_def nginx_t_def generateConf_missing)

text \<open>A restart that works: the pid file holds a number, the signal arrives, the process is there.\<close>

definition restarts :: "nginx_env \<Rightarrow> int \<Rightarrow> world \<Rightarrow> bool" where
  "restarts env pid w \<longleftrightarrow>
     (case ne_cat env (files w) of Inl _ \<Rightarrow> False | Inr out \<Rightarrow> atoi (trim_space out) = Some pid) \<and>
     ne_kill env pid = None \<and> isRunning env (log_event (Hup pid (files w)) w)"

lemma gracefulRestart_ok:
  "restarts env pid w \<Longrightarrow> gracefulRestart env w = (Inr (), log_event (Hup pid (files w)) w)"
  by (auto simp: gracefulRestart_def restarts_def split: sum.splits)

lemma gracefulRestart_result:
  "gracefulRestart env w = (r, w') \<Longrightarrow>
     files w' = files w \<and> healthy_conf w' name = healthy_conf w name"
  by (auto simp: gracefulRestart_def Let_def split: sum.splits option.splits if_splits)

section \<open>Properties\<close>

text \<open>A world and an environment in which they can be seen at work.\<close>

definition sample_name :: string where "sample_name = ''/etc/nginx/conf.d/web-shop''"

definition sample_files :: file_map where
  "sample_files = [sample_name @ ''.conf'' \<mapsto> ''server a'', sample_name @ ''-test.conf'' \<mapsto> ''server b'',
                   ''/var/run/nginx.pid'' \<mapsto> ''17'' @ [CHR 0x0A]]"

definition sample_world :: "file_map \<Rightarrow> world" where
  "sample_world f = \<lparr>files = f, wfault = (\<lambda>_. Writable), rfault = (\<lambda>_. False), rmfault = (\<lambda>_. False), events = []\<rparr>"

definition sample_env :: "run_result \<Rightarrow> nginx_env" where
  "sample_env r = \<lparr>ne_test = (\<lambda>_. r),
     ne_cat = (\<lambda>f. case f Pid of None \<Rightarrow> Inl (ExitError ''exit status 1'') | Some c \<Rightarrow> Inr c),
     ne_kill = (\<lambda>pid. if pid = 17 then None else Some (Errorf ''no such process'')),
     ne_ps = (\<lambda>_. Inr [''nginx''])\<rparr>"

lemma sample_digests:
  "sha1_hex ''server a'' \<noteq> sha1_hex ''server b''"
  by code_simp

lemma sample_facts:
  "healthy_conf (sample_world f) n" "files (sample_world f) = f" "events (sample_world f) = []"
  "sample_files (sample_name @ ''.conf'') = Some ''server a''"
  "sample_files (sample_name @ ''-test.conf'') = Some ''server b''"
  "sample_files Pid = Some (''17'' @ [CHR 0x0A])"
  "sample_files (sample_name @ ''.tmp'') = None"
  by (simp_all add: sample_world_def healthy_conf_def healthy_def sample_files_def sample_name_def Pid_def)

text \<open>Whatever the disk and the commands do, a reload writes and removes only the configuration
  file, the test file and the backup of its own name.\<close>

theorem reload_own_files:
  "touches_only {name @ ''.conf'', name @ ''-test.conf'', name @ ''.tmp''} w (snd (reload env name w))"
proof -
  obtain r w' where 1: "reload env name w = (r, w')" by (meson surj_pair)
  show ?thesis using reload_frame [OF 1] by (simp add: 1)
qed

text \<open>Whatever the disk and the commands do, a reload signals the nginx process at most once, and
  only after the configuration test has been run and has not failed.\<close>

theorem reload_tested_before_signal:
  "\<exists>es. events (snd (reload env name w)) = events w @ es \<and> tested_then_hup env es"
proof -
  obtain r w' where 1: "reload env name w = (r, w')" by (meson surj_pair)
  show ?thesis using reload_frame [OF 1] by (simp add: 1)
qed

text \<open>When the new content has the digest of the installed one, a reload succeeds, runs no command
  and signals nobody; it only clears the temporary files.\<close>

theorem reload_unchanged:
  assumes "healthy_conf w name"
    and "files w (name @ ''.conf'') = Some old"
    and "files w (name @ ''-test.conf'') = Some new"
    and "sha1_hex old = sha1_hex new"
  shows "fst (reload env name w) = Inr () \<and> events (snd (reload env name w)) = events w \<and>
         files (snd (reload env name w)) = settled name (Some old) (files w)"
proof -
  have "reload env name w = (Inr (), CleanConf [name @ ''.tmp'', name @ ''-test.conf''] w)"
    using assms by (simp add: reload_def Let_def os_stat_simps SHA1_healthy healthy_conf_def)
  then show ?thesis using assms(1,2) CleanConf_frame by (simp add: CleanConf_settled)
qed

theorem reload_unchanged_witness:
  "events (snd (reload (sample_env RunOk) sample_name
     (sample_world (sample_files(sample_name @ ''-test.conf'' \<mapsto> ''server a''))))) = []"
  using reload_unchanged [of "sample_world (sample_files(sample_name @ ''-test.conf'' \<mapsto> ''server a''))"
      sample_name "''server a''" "''server a''" "sample_env RunOk"]
  by (simp add: sample_facts)

text \<open>When the configuration test rejects the new content, the reload reports the failed test, the
  installed configuration is back, byte for byte, the temporary files are gone, every other file is
  as before, and nginx has not been signalled.\<close>

theorem reload_rolls_back:
  assumes "healthy_conf w name"
    and "files w (name @ ''.conf'') = Some old" and "old \<noteq> []"
    and "files w (name @ ''-test.conf'') = Some new" and "new \<noteq> []"
    and "sha1_hex old \<noteq> sha1_hex new"
    and "ne_test env (under_test name old new (files w)) = RunExit m"
  shows "fst (reload env name w) = Inl (Err (ExitError m)) \<and>
         files (snd (reload env name w)) = settled name (Some old) (files w) \<and>
         events (snd (reload env name w)) = events w @ [Tested (under_test name old new (files w))]"
  using reload_rejected [OF assms] .

theorem reload_rolls_back_witness:
  "files (snd (reload (sample_env (RunExit ''exit status 1'')) sample_name (sample_world sample_files)))
     (sample_name @ ''.conf'') = Some ''server a''"
proof -
  have "ne_test (sample_env (RunExit ''exit status 1'')) g = RunExit ''exit status 1''" for g
    by (simp add: sample_env_def)
  then have "files (snd (reload (sample_env (RunExit ''exit status 1'')) sample_name (sample_world sample_files))) =
      settled sample_name (Some ''server a'') sample_files"
    using reload_rolls_back [of "sample_world sample_files" sample_name "''server a''" "''server b''"
        "sample_env (RunExit ''exit status 1'')" "''exit status 1''",
        unfolded sample_facts, OF sample_facts(1) refl _ refl _ sample_digests]
    by simp
  then show ?thesis by (simp add: settled_def)
qed

text \<open>When the test does not reject the new content and the restart works, the reload succeeds, the
  new content is installed, the temporary files are gone, and the process was signalled while the
  new content was in place.\<close>

theorem reload_installs:
  assumes "healthy_conf w name"
    and "files w (name @ ''.conf'') = Some old" and "old \<noteq> []"
    and "files w (name @ ''-test.conf'') = Some new" and "new \<noteq> []"
    and "sha1_hex old \<noteq> sha1_hex new"
    and "\<not> failed_run (ne_test env (under_test name old new (files w)))"
    and "restarts env pid (log_event (Tested (under_test name old new (files w)))
           (w\<lparr>files := under_test name old new (files w)\<rparr>))"
  shows "fst (reload env name w) = Inr () \<and>
         files (snd (reload env name w)) = settled name (Some new) (files w) \<and>
         events (snd (reload env name w)) =
           events w @ [Tested (under_test name old new (files w)), Hup pid (under_test name old new (files w))]"
  using assms CleanConf_frame
  by (simp add: reload_passed gracefulRestart_ok deferred_returns CleanConf_settled)

theorem reload_installs_witness:
  "files (snd (reload (sample_env RunOk) sample_name (sample_world sample_files)))
     (sample_name @ ''.conf'') = Some ''server b''"
proof -
  have ok: "\<not> failed_run (ne_test (sample_env RunOk) g)" for g by (simp add: sample_env_def)
  have pid: "under_test sample_name ''server a'' ''server b'' sample_files Pid = Some (''17'' @ [CHR 0x0A])"
    by (simp add: under_test_def sample_files_def sample_name_def Pid_def)
  have "atoi (trim_space (''17'' @ [CHR 0x0A])) = Some 17" by code_simp
  then have "restarts (sample_env RunOk) 17 (log_event (Tested f)
      ((sample_world sample_files)\<lparr>files := under_test sample_name ''server a'' ''server b'' sample_files\<rparr>))" for f
    using pid by (simp add: restarts_def sample_env_def isRunning_def)
  then have "files (snd (reload (sample_env RunOk) sample_name (sample_world sample_files))) =
      settled sample_name (Some ''server b'') sample_files"
    using reload_installs [of "sample_world sample_files" sample_name "''server a''" "''server b''"
        "sample_env RunOk" 17, unfolded sample_facts, OF sample_facts(1) refl _ refl _ sample_digests ok]
    by simp
  then show ?thesis by (simp add: settled_def)
qed

text \<open>On a healthy disk, with a configuration installed and a non-empty new content, whatever
  the test says, whether the signal arrives and even when the controller ends because nginx is gone,
  the installed configuration is the old content or the new one, complete.\<close>

theorem reload_never_mixes:
  assumes "healthy_conf w name"
    and "files w (name @ ''.conf'') = Some old" and "old \<noteq> []"
    and "files w (name @ ''-test.conf'') = Some new" and "new \<noteq> []"
  shows "files (snd (reload env name w)) (name @ ''.conf'') \<in> {Some old, Some new}"
proof (cases "sha1_hex old = sha1_hex new")
  case True
  then have "reload env name w = (Inr (), CleanConf [name @ ''.tmp'', name @ ''-test.conf''] w)"
    using assms by (simp add: reload_def Let_def os_stat_simps SHA1_healthy healthy_conf_def)
  then show ?thesis using assms(1,2) by (simp add: CleanConf_settled settled_def)
next
  case False
  show ?thesis
  proof (cases "ne_test env (under_test name old new (files w))")
    case (RunExit m)
    then show ?thesis using reload_rejected [OF assms False RunExit] by (simp add: settled_def)
  next
    case RunOk
    let ?w1 = "log_event (Tested (under_test name old new (files w))) (w\<lparr>files := under_test name old new (files w)\<rparr>)"
    obtain r w2 where g: "gracefulRestart env ?w1 = (r, w2)" by (meson surj_pair)
    have "reload env name w = deferred [name @ ''.tmp'', name @ ''-test.conf''] (r, w2)"
      using reload_passed [OF assms False] g RunOk by simp
    then show ?thesis
      using gracefulRestart_result [OF g, of name] assms(1)
      by (cases "r = Inl Exit") (simp_all add: deferred_returns CleanConf_settled settled_def)
  next
    case (RunFail m)
    let ?w1 = "log_event (Tested (under_test name old new (files w))) (w\<lparr>files := under_test name old new (files w)\<rparr>)"
    obtain r w2 where g: "gracefulRestart env ?w1 = (r, w2)" by (meson surj_pair)
    have "reload env name w = deferred [name @ ''.tmp'', name @ ''-test.conf''] (r, w2)"
      using reload_passed [OF assms False] g RunFail by simp
    then show ?thesis
      using gracefulRestart_result [OF g, of name] assms(1)
      by (cases "r = Inl Exit") (simp_all add: deferred_returns CleanConf_settled settled_def)
  qed
qed

theorem reload_never_mixes_witness:
  "files (snd (reload (sample_env (RunFail ''no such file'')) sample_name (sample_world sample_files)))
     (sample_name @ ''.conf'') \<in> {Some ''server a'', Some ''server b''}"
  by (rule reload_never_mixes) (simp_all add: sample_facts)

lemma reload_first_load:
  assumes "healthy_conf w name"
    and "files w (name @ ''.conf'') = None"
    and "files w (name @ ''-test.conf'') = Some new" and "new \<noteq> []"
  shows "files (snd (reload env name w)) (name @ ''.conf'') =
           (if failed_run (ne_test env (files w)) then None else Some new)"
proof (cases "failed_run (ne_test env (files w))")
  case True
  then obtain m where "ne_test env (files w) = RunExit m" by (cases "ne_test env (files w)") auto
  then have "reload env name w =
      (Inl (Err (ExitError m)), CleanConf [name @ ''.tmp'', name @ ''-test.conf''] (log_event (Tested (files w)) w))"
    using assms(2) by (simp add: reload_def os_stat_def test_and_restart_def nginx_t_def)
  then show ?thesis using True assms(1,2) by (simp add: CleanConf_settled settled_def)
next
  case False
  let ?w1 = "set_file (name @ ''.conf'') (Some new) (log_event (Tested (files w)) w)"
  obtain r w2 where g: "gracefulRestart env ?w1 = (r, w2)" by (meson surj_pair)
  have "generateConf (name @ ''-test.conf'') (name @ ''.conf'') (log_event (Tested (files w)) w) = (Inr (), ?w1)"
    using assms by (subst generateConf_ok) (simp_all add: healthy_conf_def)
  then have "reload env name w = deferred [name @ ''.tmp'', name @ ''-test.conf''] (r, w2)"
    using False assms(2) g
    by (cases "ne_test env (files w)")
       (simp_all add: reload_def os_stat_def test_and_restart_def nginx_t_def)
  then show ?thesis
    using False gracefulRestart_result [OF g, of name] assms(1)
    by (cases "r = Inl Exit") (simp_all add: deferred_returns CleanConf_settled settled_def)
qed

text \<open>On the first load of a name the test runs while the new content is only in the test file;
  the configuration appears exactly when that test does not reject, and it is then the generated
  content.\<close>

theorem reload_first:
  assumes "healthy_conf w name"
    and "files w (name @ ''.conf'') = None"
    and "files w (name @ ''-test.conf'') = Some new" and "new \<noteq> []"
  shows "files (snd (reload env name w)) (name @ ''.conf'') =
           (if failed_run (ne_test env (files w)) then None else Some new)"
  using reload_first_load [OF assms] .

theorem reload_first_witness:
  "files (snd (reload (sample_env RunOk) sample_name (sample_world (sample_files(sample_name @ ''.conf'' := None)))))
     (sample_name @ ''.conf'') = Some ''server b''"
  by (subst reload_first [of _ _ "''server b''"]) (simp_all add: sample_facts, simp add: sample_env_def)

text \<open>C40. When the overwrite of the installed configuration breaks off after \<open>n\<close> bytes, the reload
  returns the error and then removes the backup and the generated file: what is left is the truncated
  configuration, and the old content is nowhere any more.\<close>

theorem reload_broken_overwrite_loses:
  assumes "wfault w (name @ ''.conf'') = Breaks n" and "\<not> rfault w (name @ ''.conf'')"
    and "healthy w (name @ ''-test.conf'')" and "healthy w (name @ ''.tmp'')"
    and "files w (name @ ''.conf'') = Some old" and "old \<noteq> []"
    and "files w (name @ ''-test.conf'') = Some new"
    and "sha1_hex old \<noteq> sha1_hex new"
  shows "files (snd (reload env name w)) = settled name (Some (take n new)) (files w) \<and>
         events (snd (reload env name w)) = events w"
proof -
  let ?w1 = "set_file (name @ ''.tmp'') (Some old) w"
  let ?e = "Inl (Err (PathError (''write '' @ (name @ ''.conf'') @ '': no space left on device''))) :: unit result"
  have rd: "os_read (name @ ''.conf'') v = Inr old"
    if "files v (name @ ''.conf'') = Some old" "rfault v = rfault w" for v
    using that assms(2) by (simp add: os_read_ok)
  have 1: "generateConf (name @ ''.conf'') (name @ ''.tmp'') w = (Inr (), ?w1)"
    using assms rd by (simp add: generateConf_def os_write_healthy os_stat_simps SHA1_def os_read_healthy)
  have 2: "generateConf (name @ ''-test.conf'') (name @ ''.conf'') ?w1 =
      (?e, set_file (name @ ''.conf'') (Some (take n new)) ?w1)"
    using assms by (simp add: generateConf_def os_read_healthy os_write_def)
  have h: "healthy (set_file p c v) q = healthy v q" for p c v q by simp
  have "reload env name w = (?e,
      CleanConf [name @ ''.tmp'', name @ ''-test.conf'']
        (CleanConf [name @ ''-test.conf''] (set_file (name @ ''.conf'') (Some (take n new)) ?w1)))"
    using assms(3,5,7,8) rd
    by (simp add: reload_def Let_def os_stat_simps backupConf_def 1 2 SHA1_def os_read_healthy)
  then show ?thesis
    using assms(3,4) by (auto simp: CleanConf_simps CleanConf1_healthy settled_def fun_eq_iff)
qed

theorem reload_broken_overwrite_loses_witness:
  "files (snd (reload (sample_env RunOk) sample_name
     ((sample_world sample_files)\<lparr>wfault := (\<lambda>_. Writable)(sample_name @ ''.conf'' := Breaks 3)\<rparr>)))
     (sample_name @ ''.conf'') = Some ''ser''"
  using reload_broken_overwrite_loses [of "(sample_world sample_files)\<lparr>wfault := (\<lambda>_. Writable)(sample_name @ ''.conf'' := Breaks 3)\<rparr>"
      sample_name 3 "''server a''" "''server b''" "sample_env RunOk"] sample_digests
  by (simp add: settled_def sample_facts) (simp add: sample_world_def healthy_def)

lemma reload_empty_fails_full:
  assumes "healthy_conf w name"
    and "files w (name @ ''.conf'') = Some []"
    and "files w (name @ ''-test.conf'') = Some new"
    and "sha1_hex [] \<noteq> sha1_hex new"
  shows "(\<exists>e. fst (reload env name w) = Inl (Err e)) \<and>
         files (snd (reload env name w)) = settled name (Some []) (files w) \<and>
         events (snd (reload env name w)) = events w"
proof -
  have "healthy w (name @ ''.conf'')" "healthy w (name @ ''.tmp'')"
    using assms(1) by (simp_all add: healthy_conf_def)
  from generateConf_empty [OF this assms(2)] obtain e where
    1: "generateConf (name @ ''.conf'') (name @ ''.tmp'') w = (Inl (Err e), set_file (name @ ''.tmp'') (Some []) w)"
    by blast
  have "reload env name w = (Inl (Err e),
      CleanConf [name @ ''.tmp'', name @ ''-test.conf'']
        (CleanConf [name @ ''-test.conf''] (set_file (name @ ''.tmp'') (Some []) w)))"
    using assms by (simp add: reload_def Let_def os_stat_simps backupConf_def 1 SHA1_healthy healthy_conf_def)
  then show ?thesis
    using assms(1,2) by (auto simp: CleanConf_simps CleanConf1_healthy settled_def fun_eq_iff healthy_conf_def)
qed

lemma sha1_empty_b: "sha1_hex [] \<noteq> sha1_hex ''server b''"
  by code_simp

text \<open>Once the installed configuration is an empty file, no reload with other content replaces it:
  the copy to the backup counts an empty file as a failure, and the generated content is thrown away.\<close>

theorem reload_stuck_on_empty:
  assumes "healthy_conf w name"
    and "files w (name @ ''.conf'') = Some []"
    and "files w (name @ ''-test.conf'') = Some new"
    and "sha1_hex [] \<noteq> sha1_hex new"
  shows "(\<exists>e. fst (reload env name w) = Inl (Err e)) \<and>
         files (snd (reload env name w)) = settled name (Some []) (files w) \<and>
         events (snd (reload env name w)) = events w"
  using reload_empty_fails_full [OF assms] .

theorem reload_stuck_on_empty_witness:
  "files (snd (reload (sample_env RunOk) sample_name (sample_world (sample_files(sample_name @ ''.conf'' \<mapsto> [])))))
     (sample_name @ ''.conf'') = Some []"
  using reload_stuck_on_empty [of "sample_world (sample_files(sample_name @ ''.conf'' \<mapsto> []))" sample_name
      "''server b''" "sample_env RunOk"] sha1_empty_b
  by (simp add: sample_facts settled_def)

section \<open>What a successful reload leaves\<close>

text \<open>
  The facts the generator relies on: after a reload that returned no error the installed
  configuration has the digest of the generated content, and whatever a reload returns short of
  ending the process, the generated file is gone.
\<close>

lemma reload_success:
  assumes "healthy_conf w name" and "files w (name @ ''-test.conf'') = Some new" and "new \<noteq> []"
    and "fst (reload env name w) = Inr ()"
  shows "\<exists>c. files (snd (reload env name w)) (name @ ''.conf'') = Some c \<and> sha1_hex c = sha1_hex new"
proof (cases "files w (name @ ''.conf'')")
  case None
  have "\<not> failed_run (ne_test env (files w))"
  proof
    assume "failed_run (ne_test env (files w))"
    then obtain m where "ne_test env (files w) = RunExit m" by (cases "ne_test env (files w)") auto
    then have "reload env name w =
        (Inl (Err (ExitError m)), CleanConf [name @ ''.tmp'', name @ ''-test.conf''] (log_event (Tested (files w)) w))"
      using None by (simp add: reload_def os_stat_def test_and_restart_def nginx_t_def)
    then show False using assms(4) by simp
  qed
  then have "files (snd (reload env name w)) (name @ ''.conf'') = Some new"
    using reload_first_load [OF assms(1) None assms(2,3)] by simp
  then show ?thesis by simp
next
  case (Some old)
  show ?thesis
  proof (cases "sha1_hex old = sha1_hex new")
    case True
    then have "reload env name w = (Inr (), CleanConf [name @ ''.tmp'', name @ ''-test.conf''] w)"
      using assms Some by (simp add: reload_def Let_def os_stat_simps SHA1_healthy healthy_conf_def)
    then show ?thesis using assms(1) Some True by (simp add: CleanConf_settled settled_def)
  next
    case False
    show ?thesis
    proof (cases "old = []")
      case True
      have "\<exists>e. fst (reload env name w) = Inl e"
        using reload_empty_fails_full [OF assms(1) _ assms(2), of env] Some True False by auto
      then show ?thesis using assms(4) by auto
    next
      case nonempty: False
      note changed = assms(1) Some nonempty assms(2,3) False
      have passed: "\<not> failed_run (ne_test env (under_test name old new (files w)))"
      proof
        assume "failed_run (ne_test env (under_test name old new (files w)))"
        then obtain m where "ne_test env (under_test name old new (files w)) = RunExit m"
          by (cases "ne_test env (under_test name old new (files w))") auto
        then show False using reload_rejected [OF changed] assms(4) by simp
      qed
      let ?w1 = "log_event (Tested (under_test name old new (files w))) (w\<lparr>files := under_test name old new (files w)\<rparr>)"
      obtain r w2 where g: "gracefulRestart env ?w1 = (r, w2)" by (meson surj_pair)
      have "reload env name w = deferred [name @ ''.tmp'', name @ ''-test.conf''] (r, w2)"
        using reload_passed [OF changed passed] g by simp
      then show ?thesis
        using gracefulRestart_result [OF g, of name] assms(1)
        by (cases "r = Inl Exit") (simp_all add: deferred_returns CleanConf_settled settled_def)
    qed
  qed
qed

lemma reload_first_ok:
  assumes "healthy_conf w name" and "files w (name @ ''.conf'') = None"
    and "files w (name @ ''-test.conf'') = Some new" and "new \<noteq> []"
    and "\<not> failed_run (ne_test env (files w))"
    and "restarts env pid (set_file (name @ ''.conf'') (Some new) (log_event (Tested (files w)) w))"
  shows "fst (reload env name w) = Inr ()"
proof -
  have "generateConf (name @ ''-test.conf'') (name @ ''.conf'') (log_event (Tested (files w)) w) =
      (Inr (), set_file (name @ ''.conf'') (Some new) (log_event (Tested (files w)) w))"
    using assms by (subst generateConf_ok) (simp_all add: healthy_conf_def)
  then show ?thesis
    using assms(2,5) gracefulRestart_ok [OF assms(6)]
    by (cases "ne_test env (files w)")
       (simp_all add: reload_def Let_def os_stat_def test_and_restart_def nginx_t_def deferred_returns)
qed

lemma reload_clears_test:
  assumes "healthy_conf w name" and "fst (reload env name w) \<noteq> Inl Exit"
  shows "files (snd (reload env name w)) (name @ ''-test.conf'') = None"
proof -
  obtain r w1 where body: "reload env name w = deferred [name @ ''.tmp'', name @ ''-test.conf''] (r, w1)"
    and "touches_only {name @ ''.conf'', name @ ''-test.conf'', name @ ''.tmp''} w w1"
    by (rule reload_body)
  then have "healthy_conf w1 name" using assms(1) touches_only_healthy by (simp add: healthy_conf_def)
  moreover have "r \<noteq> Inl Exit" using assms(2) body by auto
  ultimately show ?thesis using body by (simp add: deferred_returns CleanConf_settled settled_def)
qed

section \<open>The abstract operation\<close>

text \<open>
  What a reload is meant to be: an installed content is replaced by the new one when nginx accepts it.
  The exceptions are part of the specification: an unchanged content is kept, and so is an empty one.
\<close>

definition installed :: "string \<Rightarrow> world \<Rightarrow> string option" where
  "installed name w = files w (name @ ''.conf'')"

fun install :: "bool \<Rightarrow> string \<Rightarrow> string option \<Rightarrow> string option" where
  "install accepted new None = (if accepted then Some new else None)"
| "install accepted new (Some old) =
     (if accepted \<and> old \<noteq> [] \<and> sha1_hex old \<noteq> sha1_hex new then Some new else Some old)"

definition nginx_accepts :: "nginx_env \<Rightarrow> string \<Rightarrow> string \<Rightarrow> world \<Rightarrow> bool" where
  "nginx_accepts env name new w \<longleftrightarrow>
     \<not> failed_run (ne_test env (case installed name w of
        None \<Rightarrow> files w | Some old \<Rightarrow> under_test name old new (files w)))"

lemma reload_changed_installed:
  assumes "healthy_conf w name"
    and "files w (name @ ''.conf'') = Some old" "old \<noteq> []"
    and "files w (name @ ''-test.conf'') = Some new" "new \<noteq> []"
    and "sha1_hex old \<noteq> sha1_hex new"
  shows "installed name (snd (reload env name w)) =
    (if failed_run (ne_test env (under_test name old new (files w))) then Some old else Some new)"
proof (cases "failed_run (ne_test env (under_test name old new (files w)))")
  case True
  then obtain m where "ne_test env (under_test name old new (files w)) = RunExit m"
    by (cases "ne_test env (under_test name old new (files w))") auto
  then show ?thesis using reload_rejected [OF assms] by (simp add: installed_def settled_def)
next
  case False
  let ?w1 = "log_event (Tested (under_test name old new (files w))) (w\<lparr>files := under_test name old new (files w)\<rparr>)"
  obtain r w2 where g: "gracefulRestart env ?w1 = (r, w2)" by (meson surj_pair)
  have "reload env name w = deferred [name @ ''.tmp'', name @ ''-test.conf''] (r, w2)"
    using reload_passed [OF assms False] g by simp
  then show ?thesis
    using False gracefulRestart_result [OF g, of name] assms(1)
    by (cases "r = Inl Exit") (simp_all add: installed_def deferred_returns CleanConf_settled settled_def)
qed

lemma reload_outcome:
  assumes "healthy_conf w name" and "files w (name @ ''-test.conf'') = Some new" and "new \<noteq> []"
  shows "installed name (snd (reload env name w)) = install (nginx_accepts env name new w) new (installed name w) \<and>
    (\<forall>p. p \<notin> {name @ ''.conf'', name @ ''-test.conf'', name @ ''.tmp''} \<longrightarrow>
       files (snd (reload env name w)) p = files w p)"
proof
  obtain r w' where 1: "reload env name w = (r, w')" by (meson surj_pair)
  from reload_frame [OF 1] show "\<forall>p. p \<notin> {name @ ''.conf'', name @ ''-test.conf'', name @ ''.tmp''} \<longrightarrow>
      files (snd (reload env name w)) p = files w p"
    by (simp add: 1 touches_only_def)
  show "installed name (snd (reload env name w)) = install (nginx_accepts env name new w) new (installed name w)"
  proof (cases "files w (name @ ''.conf'')")
    case None
    from reload_first_load [OF assms(1) None assms(2,3), of env] None show ?thesis
      by (simp add: installed_def nginx_accepts_def)
  next
    case (Some old)
    consider "sha1_hex old = sha1_hex new" | "old = []" "sha1_hex old \<noteq> sha1_hex new"
      | "old \<noteq> []" "sha1_hex old \<noteq> sha1_hex new" by blast
    then show ?thesis
    proof cases
      case 1
      then have "reload env name w = (Inr (), CleanConf [name @ ''.tmp'', name @ ''-test.conf''] w)"
        using assms Some by (simp add: reload_def Let_def os_stat_simps SHA1_healthy healthy_conf_def)
      with 1 Some assms(1) show ?thesis by (simp add: installed_def CleanConf_settled settled_def)
    next
      case 2
      with reload_empty_fails_full [OF assms(1) _ assms(2), of env] Some show ?thesis
        by (simp add: installed_def settled_def)
    next
      case 3
      from reload_changed_installed [OF assms(1) Some 3(1) assms(2,3) 3(2), of env] 3 Some show ?thesis
        by (simp add: installed_def nginx_accepts_def)
    qed
  qed
qed

text \<open>C7. On a healthy disk a reload refines the abstract operation: whatever it returns, and even when it
  ends the process, the installed configuration is what the operation gives for the generated content
  and the verdict of nginx, and no file but the three of its name has changed.\<close>

theorem reload_refines_install:
  assumes "healthy_conf w name" and "files w (name @ ''-test.conf'') = Some new" and "new \<noteq> []"
  shows "installed name (snd (reload env name w)) = install (nginx_accepts env name new w) new (installed name w) \<and>
    (\<forall>p. p \<notin> {name @ ''.conf'', name @ ''-test.conf'', name @ ''.tmp''} \<longrightarrow>
       files (snd (reload env name w)) p = files w p)"
  by (rule reload_outcome [OF assms])

theorem reload_refines_install_witness:
  "installed sample_name (snd (reload (sample_env (RunFail ''no such file'')) sample_name (sample_world sample_files))) =
     Some ''server b''"
proof -
  have "nginx_accepts (sample_env (RunFail ''no such file'')) sample_name ''server b'' (sample_world sample_files)"
    by (simp add: nginx_accepts_def sample_env_def)
  with reload_refines_install [of "sample_world sample_files" sample_name "''server b''" "sample_env (RunFail ''no such file'')"]
    sample_digests show ?thesis
    by (simp add: sample_facts installed_def)
qed

section \<open>The contract of an update\<close>

text \<open>
  What the callers of a reload rely on: it adds to the log a configuration test at most, and a signal
  only after a test that did not fail. The steps before it log nothing.
\<close>

locale tested_update =
  fixes env :: nginx_env and update :: "world \<Rightarrow> unit result \<times> world"
  assumes update_log: "\<exists>es. events (snd (update w)) = events w @ es \<and> tested_then_hup env es"
begin

lemma log_after:
  assumes "m = (r, w1)" and "events w1 = events w"
  shows "\<exists>es. events (snd (sbind m (\<lambda>_. update))) = events w @ es \<and> tested_then_hup env es"
  using assms update_log [of w1] by (cases r) (auto intro: exI [of _ "[]"])

lemma signals_after:
  assumes "m = (r, w1)" and "events w1 = events w"
  shows "\<exists>es. events (snd (sbind m (\<lambda>_. update))) = events w @ es \<and> signals_tested env es"
  using log_after [OF assms] tested_then_hup_signals by blast

end

interpretation nginx_reload: tested_update env "Reload env name" for env name
proof
  fix w
  obtain r w' where 1: "reload env name w = (r, w')" by (meson surj_pair)
  from reload_frame [OF 1] show "\<exists>es. events (snd (Reload env name w)) = events w @ es \<and> tested_then_hup env es"
    by (simp add: 1 Reload_def)
qed

end
