(* ===== verification/TextTemplate.thy ===== *)
theory TextTemplate
  imports KErrors
begin

text \<open>
  Package \<^verbatim>\<open>text/template\<close> as far as the templates of the controller use it: text, the
  output of a value, \<^verbatim>\<open>if\<close> with \<^verbatim>\<open>else\<close>, \<^verbatim>\<open>range\<close> over a slice
  with a variable, calls of \<^verbatim>\<open>len\<close>, \<^verbatim>\<open>gt\<close>, \<^verbatim>\<open>eq\<close> and \<^verbatim>\<open>ne\<close>, and the
  invocation of another template. A text with any other construct, or with a syntax error, is left to
  the rest of the package: a record of functions, an argument of everything that parses or executes.
  It matters because the controller parses the text it has rendered once more.
\<close>

section \<open>Templates and the values they are executed on\<close>

datatype base = BDot | BVar string

datatype expr =
    EChain base "string list"   \<comment> \<open>\<^verbatim>\<open>.A.B\<close> or \<^verbatim>\<open>$x.A.B\<close>\<close>
  | EStr string
  | ENum int
  | ELen expr
  | EGt expr expr
  | EEq expr expr
  | ENe expr expr

datatype node =
    NText string
  | NOut expr
  | NIf expr "node list" "node list"
  | NRange string expr "node list"
  | NTemplate string

datatype "template" =
    Nodes "node list"
  | Beyond string   \<comment> \<open>a text that parses, with constructs outside the grammar above\<close>

text \<open>Values: pointers and interfaces are followed, so only the nil pointer shows.\<close>

datatype tval =
    TStr string
  | TInt int
  | TBool bool
  | TList "tval list"
  | TStruct "(string \<times> tval) list"
  | NilPointer
  | NoValue

type_synonym template_set = "string \<Rightarrow> template option"

record template_rest =
  tr_parse :: "string \<Rightarrow> go_error option"   \<comment> \<open>the verdict on a text outside the grammar\<close>
  tr_exec :: "template_set \<Rightarrow> string \<Rightarrow> tval \<Rightarrow> go_error + string"
  tr_print :: "tval \<Rightarrow> string"             \<comment> \<open>\<^verbatim>\<open>fmt.Fprint\<close> of a composite value\<close>

section \<open>Lexing\<close>

definition is_alpha :: "char \<Rightarrow> bool" where
  "is_alpha c \<longleftrightarrow> (CHR ''a'' \<le> c \<and> c \<le> CHR ''z'') \<or> (CHR ''A'' \<le> c \<and> c \<le> CHR ''Z'') \<or> c = CHR ''_''"

definition is_alnum :: "char \<Rightarrow> bool" where
  "is_alnum c \<longleftrightarrow> is_alpha c \<or> is_digit c"

definition is_blank :: "char \<Rightarrow> bool" where
  "is_blank c \<longleftrightarrow> c \<in> {CHR '' '', CHR 0x09, CHR 0x0A, CHR 0x0D}"

text \<open>The text up to the next opening delimiter, and what follows the delimiter.\<close>

fun split_open :: "string \<Rightarrow> string \<times> string option" where
  "split_open [] = ([], None)"
| "split_open (c # r) =
     (if c = CHR ''{'' \<and> has_prefix r ''{'' then ([], Some (tl r))
      else (case split_open r of (t, rest) \<Rightarrow> (c # t, rest)))"

datatype token =
    KIdent string
  | KChain base "string list"
  | KStr string
  | KNum int
  | KDecl
  | KOpen
  | KClose

definition at_terminator :: "string \<Rightarrow> bool" where
  "at_terminator s \<longleftrightarrow> (case s of [] \<Rightarrow> False | c # _ \<Rightarrow> is_blank c \<or> c = CHR '')'' \<or> c = CHR ''}'')"

text \<open>The fields \<^verbatim>\<open>.A.B\<close> at the start of a text, and the text after them.\<close>

function lex_fields :: "string \<Rightarrow> string list \<times> string" where
  "lex_fields s =
     (case s of
        c # d # r \<Rightarrow>
          if c = CHR ''.'' \<and> is_alpha d
          then (let fr = lex_fields (dropWhile is_alnum r) in ((d # takeWhile is_alnum r) # fst fr, snd fr))
          else ([], s)
      | _ \<Rightarrow> ([], s))"
  by pat_completeness auto
termination
  by (relation "measure length") (auto simp: less_Suc_eq_le intro: le_SucI length_dropWhile_le)

declare lex_fields.simps [simp del]

text \<open>One token; \<open>None\<close> when the text starts with none of the grammar.\<close>

definition lex_token :: "string \<Rightarrow> (token \<times> string) option" where
  "lex_token s =
     (case s of
        [] \<Rightarrow> None
      | c # r \<Rightarrow>
          if c = CHR ''('' then Some (KOpen, r)
          else if c = CHR '':'' \<and> has_prefix r ''='' then Some (KDecl, tl r)
          else
            (let res =
               (if c = CHR '')'' then Some (KClose, r)
                else if c = CHR 0x22 then
                  (let body = takeWhile (\<lambda>x. x \<notin> {CHR 0x22, CHR 0x5C, CHR 0x0A}) r;
                       rest = dropWhile (\<lambda>x. x \<notin> {CHR 0x22, CHR 0x5C, CHR 0x0A}) r
                   in if has_prefix rest [CHR 0x22] then Some (KStr body, tl rest) else None)
                else if is_alpha c then Some (KIdent (c # takeWhile is_alnum r), dropWhile is_alnum r)
                else if c = CHR ''.'' then
                  (let fr = lex_fields s
                   in if fst fr = [] then Some (KChain BDot [], r) else Some (KChain BDot (fst fr), snd fr))
                else if c = CHR ''$'' \<and> takeWhile is_alnum r \<noteq> [] then
                  (let fr = lex_fields (dropWhile is_alnum r)
                   in Some (KChain (BVar (takeWhile is_alnum r)) (fst fr), snd fr))
                else if is_digit c \<and> (c \<noteq> CHR ''0'' \<or> takeWhile is_digit r = []) then
                  Some (KNum (int (digits_value (c # takeWhile is_digit r))), dropWhile is_digit r)
                else None)
             in case res of
                  Some (t, rest) \<Rightarrow> if at_terminator rest then Some (t, rest) else None
                | None \<Rightarrow> None))"

text \<open>
  The tokens of an action, up to the closing delimiter, and what follows it. The first argument is
  fuel: a list at least as long as the text, one element for each step.
\<close>

fun lex_action :: "'a list \<Rightarrow> string \<Rightarrow> (token list \<times> string) option" where
  "lex_action [] s = None"
| "lex_action (_ # n) s =
     (case s of
        [] \<Rightarrow> None
      | c # r \<Rightarrow>
          if c = CHR ''}'' then (if has_prefix r ''}'' then Some ([], tl r) else None)
          else if is_blank c then lex_action n r
          else (case lex_token s of
                  None \<Rightarrow> None
                | Some (t, rest) \<Rightarrow>
                    (case lex_action n rest of
                       None \<Rightarrow> None
                     | Some (ts, rest') \<Rightarrow> Some (t # ts, rest'))))"

datatype item = IText string | IAct "token list"

fun lex_items :: "'a list \<Rightarrow> string \<Rightarrow> item list option" where
  "lex_items [] s = None"
| "lex_items (_ # n) s =
     (case split_open s of
        (t, None) \<Rightarrow> Some [IText t]
      | (t, Some r) \<Rightarrow>
          (case lex_action r r of
             None \<Rightarrow> None
           | Some (ts, rest) \<Rightarrow>
               (case lex_items n rest of
                  None \<Rightarrow> None
                | Some is \<Rightarrow> Some (IText t # IAct ts # is))))"

section \<open>Parsing\<close>

text \<open>
  Operands and calls. The fuel is the number of tokens, which bounds the nesting; a chain may only
  start from a variable in scope.
\<close>

fun p_operand :: "nat \<Rightarrow> string list \<Rightarrow> token list \<Rightarrow> (expr \<times> token list) option"
and p_expr :: "nat \<Rightarrow> string list \<Rightarrow> token list \<Rightarrow> (expr \<times> token list) option"
and p_two :: "nat \<Rightarrow> string list \<Rightarrow> token list \<Rightarrow> (expr \<times> expr \<times> token list) option" where
  "p_operand 0 vs ts = None"
| "p_operand (Suc n) vs ts =
     (case ts of
        KChain BDot fs # r \<Rightarrow> Some (EChain BDot fs, r)
      | KChain (BVar v) fs # r \<Rightarrow> if v \<in> set vs then Some (EChain (BVar v) fs, r) else None
      | KStr s # r \<Rightarrow> Some (EStr s, r)
      | KNum k # r \<Rightarrow> Some (ENum k, r)
      | KOpen # r \<Rightarrow>
          (case p_expr n vs r of
             Some (e, KClose # r') \<Rightarrow> Some (e, r')
           | _ \<Rightarrow> None)
      | _ \<Rightarrow> None)"
| "p_expr 0 vs ts = None"
| "p_expr (Suc n) vs ts =
     (case ts of
        KIdent f # r \<Rightarrow>
          if f = ''len'' then map_option (map_prod ELen id) (p_operand n vs r)
          else if f = ''gt'' then map_option (\<lambda>(a, b, r'). (EGt a b, r')) (p_two n vs r)
          else if f = ''eq'' then map_option (\<lambda>(a, b, r'). (EEq a b, r')) (p_two n vs r)
          else if f = ''ne'' then map_option (\<lambda>(a, b, r'). (ENe a b, r')) (p_two n vs r)
          else None
      | _ \<Rightarrow> p_operand n vs ts)"
| "p_two 0 vs ts = None"
| "p_two (Suc n) vs ts =
     (case p_operand n vs ts of
        Some (a, r) \<Rightarrow> (case p_operand n vs r of Some (b, r') \<Rightarrow> Some (a, b, r') | None \<Rightarrow> None)
      | None \<Rightarrow> None)"

definition p_pipeline :: "string list \<Rightarrow> token list \<Rightarrow> expr option" where
  "p_pipeline vs ts =
     (case p_expr (3 * length ts + 2) vs ts of Some (e, []) \<Rightarrow> Some e | _ \<Rightarrow> None)"

text \<open>An open control structure, with the nodes collected before it.\<close>

datatype ctl = CIf expr | CElse expr "node list" | CRange string expr

type_synonym p_state = "node list \<times> (ctl \<times> node list) list"

fun ctl_vars :: "ctl \<Rightarrow> string list" where
  "ctl_vars (CRange v e) = [v]"
| "ctl_vars _ = []"

fun close_ctl :: "ctl \<Rightarrow> node list \<Rightarrow> node" where
  "close_ctl (CIf e) body = NIf e body []"
| "close_ctl (CElse e a) body = NIf e a body"
| "close_ctl (CRange v e) body = NRange v e body"

fun p_item :: "item \<Rightarrow> p_state \<Rightarrow> p_state option" where
  "p_item (IText t) (acc, st) = Some (if t = [] then acc else acc @ [NText t], st)"
| "p_item (IAct ts) (acc, st) =
     (let vs = concat (map (ctl_vars \<circ> fst) st)
      in if ts = [KIdent ''end''] then
           (case st of
              [] \<Rightarrow> None
            | (c, outer) # st' \<Rightarrow> Some (outer @ [close_ctl c acc], st'))
         else if ts = [KIdent ''else''] then
           (case st of
              (CIf e, outer) # st' \<Rightarrow> Some ([], (CElse e acc, outer) # st')
            | _ \<Rightarrow> None)
         else
           (case ts of
              KIdent f # r \<Rightarrow>
                if f = ''if'' then map_option (\<lambda>e. ([], (CIf e, acc) # st)) (p_pipeline vs r)
                else if f = ''range'' then
                  (case r of
                     KChain (BVar v) [] # KDecl # r' \<Rightarrow>
                       map_option (\<lambda>e. ([], (CRange v e, acc) # st)) (p_pipeline vs r')
                   | _ \<Rightarrow> None)
                else if f = ''template'' then
                  (case r of [KStr n] \<Rightarrow> Some (acc @ [NTemplate n], st) | _ \<Rightarrow> None)
                else map_option (\<lambda>e. (acc @ [NOut e], st)) (p_pipeline vs ts)
            | _ \<Rightarrow> map_option (\<lambda>e. (acc @ [NOut e], st)) (p_pipeline vs ts)))"

fun p_items :: "item list \<Rightarrow> p_state \<Rightarrow> p_state option" where
  "p_items [] s = Some s"
| "p_items (i # is) s = (case p_item i s of None \<Rightarrow> None | Some s' \<Rightarrow> p_items is s')"

definition parse_nodes :: "string \<Rightarrow> node list option" where
  "parse_nodes s =
     (case lex_items (CHR 0x00 # s) s of
        None \<Rightarrow> None
      | Some is \<Rightarrow> (case p_items is ([], []) of Some (ns, []) \<Rightarrow> Some ns | _ \<Rightarrow> None))"

definition parse_template :: "template_rest \<Rightarrow> string \<Rightarrow> go_error + template" where
  "parse_template tr s =
     (case parse_nodes s of
        Some ns \<Rightarrow> Inr (Nodes ns)
      | None \<Rightarrow> (case tr_parse tr s of Some e \<Rightarrow> Inl e | None \<Rightarrow> Inr (Beyond s)))"

section \<open>Execution\<close>

definition exec_error :: "string \<Rightarrow> go_error" where
  "exec_error m = Errorf (''template: '' @ m)"

fun field :: "tval \<Rightarrow> string \<Rightarrow> go_error + tval" where
  "field (TStruct fs) n =
     (case map_of fs n of
        Some v \<Rightarrow> Inr v
      | None \<Rightarrow> Inl (exec_error (''can'' @ [CHR 0x27] @ ''t evaluate field '' @ n)))"
| "field NoValue n = Inr NoValue"
| "field NilPointer n = Inl (exec_error (''nil pointer evaluating '' @ n))"
| "field _ n = Inl (exec_error (''can'' @ [CHR 0x27] @ ''t evaluate field '' @ n))"

fun fields :: "tval \<Rightarrow> string list \<Rightarrow> go_error + tval" where
  "fields v [] = Inr v"
| "fields v (n # ns) = ebind (field v n) (\<lambda>w. fields w ns)"

fun base_value :: "(string \<times> tval) list \<Rightarrow> tval \<Rightarrow> base \<Rightarrow> go_error + tval" where
  "base_value vars dot BDot = Inr dot"
| "base_value vars dot (BVar x) =
     (case map_of vars x of Some v \<Rightarrow> Inr v | None \<Rightarrow> Inl (exec_error (''undefined variable: '' @ x)))"

fun length_of :: "tval \<Rightarrow> go_error + tval" where
  "length_of (TList xs) = Inr (TInt (int (length xs)))"
| "length_of (TStr s) = Inr (TInt (int (length s)))"
| "length_of _ = Inl (exec_error ''error calling len'')"

fun compare_gt :: "tval \<Rightarrow> tval \<Rightarrow> go_error + tval" where
  "compare_gt (TInt a) (TInt b) = Inr (TBool (b < a))"
| "compare_gt (TStr a) (TStr b) = Inr (TBool (b < a))"
| "compare_gt _ _ = Inl (exec_error ''error calling gt: incompatible types for comparison'')"

fun compare_eq :: "tval \<Rightarrow> tval \<Rightarrow> go_error + bool" where
  "compare_eq (TInt a) (TInt b) = Inr (a = b)"
| "compare_eq (TStr a) (TStr b) = Inr (a = b)"
| "compare_eq (TBool a) (TBool b) = Inr (a = b)"
| "compare_eq _ _ = Inl (exec_error ''error calling eq: incompatible types for comparison'')"

fun eval :: "(string \<times> tval) list \<Rightarrow> tval \<Rightarrow> expr \<Rightarrow> go_error + tval" where
  "eval vars dot (EChain b fs) = ebind (base_value vars dot b) (\<lambda>v. fields v fs)"
| "eval vars dot (EStr s) = Inr (TStr s)"
| "eval vars dot (ENum k) = Inr (TInt k)"
| "eval vars dot (ELen e) = ebind (eval vars dot e) length_of"
| "eval vars dot (EGt a b) = ebind (eval vars dot a) (\<lambda>v. ebind (eval vars dot b) (compare_gt v))"
| "eval vars dot (EEq a b) =
     ebind (eval vars dot a) (\<lambda>v. ebind (eval vars dot b) (\<lambda>w.
       ebind (compare_eq v w) (\<lambda>r. Inr (TBool r))))"
| "eval vars dot (ENe a b) =
     ebind (eval vars dot a) (\<lambda>v. ebind (eval vars dot b) (\<lambda>w.
       ebind (compare_eq v w) (\<lambda>r. Inr (TBool (\<not> r)))))"

fun truth :: "tval \<Rightarrow> bool" where
  "truth (TBool b) = b"
| "truth (TStr s) = (s \<noteq> [])"
| "truth (TInt k) = (k \<noteq> 0)"
| "truth (TList xs) = (xs \<noteq> [])"
| "truth (TStruct _) = True"
| "truth NilPointer = False"
| "truth NoValue = False"

fun print_value :: "template_rest \<Rightarrow> tval \<Rightarrow> string" where
  "print_value tr (TStr s) = s"
| "print_value tr (TInt k) = show_int k"
| "print_value tr (TBool b) = (if b then ''true'' else ''false'')"
| "print_value tr NilPointer = ''<nil>''"
| "print_value tr NoValue = ''<no value>''"
| "print_value tr v = tr_print tr v"

text \<open>The elements a \<^verbatim>\<open>range\<close> visits.\<close>

fun range_items :: "tval \<Rightarrow> go_error + tval list" where
  "range_items (TList xs) = Inr xs"
| "range_items NoValue = Inr []"
| "range_items _ = Inl (exec_error ''range can not iterate over the value'')"

text \<open>
  Executing a list of nodes. The number is the depth of template calls left; the package gives up at
  \<^verbatim>\<open>maxExecDepth\<close>. The output before a failure is dropped, as the controller drops it.
\<close>

function exec :: "template_rest \<Rightarrow> template_set \<Rightarrow> nat \<Rightarrow> (string \<times> tval) list \<Rightarrow> tval \<Rightarrow> node list \<Rightarrow> go_error + string" where
  "exec tr S d vars dot [] = Inr []"
| "exec tr S d vars dot (NText t # ns) =
     ebind (exec tr S d vars dot ns) (\<lambda>out. Inr (t @ out))"
| "exec tr S d vars dot (NOut e # ns) =
     ebind (eval vars dot e) (\<lambda>v. ebind (exec tr S d vars dot ns) (\<lambda>out. Inr (print_value tr v @ out)))"
| "exec tr S d vars dot (NIf e a b # ns) =
     ebind (eval vars dot e) (\<lambda>v.
       ebind (if truth v then exec tr S d vars dot a else exec tr S d vars dot b) (\<lambda>out.
         ebind (exec tr S d vars dot ns) (\<lambda>out'. Inr (out @ out'))))"
| "exec tr S d vars dot (NRange x e a # ns) =
     ebind (ebind (eval vars dot e) range_items) (\<lambda>ys.
       ebind (emap (\<lambda>y. exec tr S d ((x, y) # vars) y a) ys) (\<lambda>outs.
         ebind (exec tr S d vars dot ns) (\<lambda>out'. Inr (concat outs @ out'))))"
| "exec tr S d vars dot (NTemplate n # ns) =
     ebind (case S n of
              None \<Rightarrow> Inl (exec_error (''template '' @ n @ '' not defined''))
            | Some t \<Rightarrow>
                (case d of
                   0 \<Rightarrow> Inl (exec_error ''exceeded maximum template depth'')
                 | Suc d' \<Rightarrow>
                     (case t of
                        Nodes body \<Rightarrow> exec tr S d' [] NoValue body
                      | Beyond s \<Rightarrow> tr_exec tr S s NoValue))) (\<lambda>out.
       ebind (exec tr S d vars dot ns) (\<lambda>out'. Inr (out @ out')))"
  by pat_completeness auto
termination
  by (relation "measures [\<lambda>(tr, S, d, vars, dot, ns). d, \<lambda>(tr, S, d, vars, dot, ns). size_list size ns]") auto

definition maxExecDepth :: nat where "maxExecDepth = 100000"

definition exec_template :: "template_rest \<Rightarrow> template_set \<Rightarrow> template \<Rightarrow> tval \<Rightarrow> go_error + string" where
  "exec_template tr S t data =
     (case t of
        Nodes ns \<Rightarrow> exec tr S maxExecDepth [] data ns
      | Beyond s \<Rightarrow> tr_exec tr S s data)"

section \<open>Plain text\<close>

text \<open>A text without an opening delimiter is its own template: parsing and executing it changes nothing.\<close>

definition plain_text :: "string \<Rightarrow> bool" where
  "plain_text s \<longleftrightarrow> (\<nexists>a b. s = a @ ''{{'' @ b)"

lemma plain_text_Cons: "plain_text (c # r) \<Longrightarrow> plain_text r"
  unfolding plain_text_def by (metis append_Cons)

lemma split_open_plain: "plain_text s \<Longrightarrow> split_open s = (s, None)"
proof (induction s)
  case (Cons c r)
  have "\<not> (c = CHR ''{'' \<and> has_prefix r ''{'')"
  proof
    assume "c = CHR ''{'' \<and> has_prefix r ''{''"
    then obtain b where "c # r = [] @ ''{{'' @ b" by (cases r) (auto simp: has_prefix_def)
    then show False using Cons.prems unfolding plain_text_def by blast
  qed
  then show ?case using Cons plain_text_Cons by simp
qed simp

lemma plain_text_no_brace: "CHR ''{'' \<notin> set s \<Longrightarrow> plain_text s"
  by (auto simp: plain_text_def)

lemma split_open_found:
  assumes "plain_text (s @ ''{'')"
  shows "split_open (s @ ''{{'' @ r) = (s, Some r)"
  using assms
proof (induction s)
  case Nil
  show ?case by (simp add: has_prefix_def)
next
  case (Cons c s)
  have "\<not> (c = CHR ''{'' \<and> has_prefix (s @ ''{{'' @ r) ''{'')"
  proof
    assume "c = CHR ''{'' \<and> has_prefix (s @ ''{{'' @ r) ''{''"
    then obtain b where "(c # s) @ ''{'' = [] @ ''{{'' @ b" by (cases s) (auto simp: has_prefix_def)
    then show False using Cons.prems unfolding plain_text_def by blast
  qed
  then show ?case using Cons plain_text_Cons by simp
qed

lemma parse_nodes_plain:
  "plain_text s \<Longrightarrow> parse_nodes s = Some (if s = [] then [] else [NText s])"
  by (simp add: parse_nodes_def split_open_plain)

lemma parse_template_plain:
  "plain_text s \<Longrightarrow> parse_template tr s = Inr (Nodes (if s = [] then [] else [NText s]))"
  by (simp add: parse_template_def parse_nodes_plain)

lemma exec_text: "exec tr S d vars dot (if s = [] then [] else [NText s]) = Inr s"
  by simp

text \<open>A main template that invokes the text it was given returns the text, with its own around it.\<close>

lemma maxExecDepth_Suc: "maxExecDepth = Suc 99999"
  by (simp add: maxExecDepth_def)

lemma exec_include:
  assumes "S n = Some (Nodes (if s = [] then [] else [NText s]))"
  shows "exec_template tr S (Nodes [NTemplate n, NText t]) data = Inr (s @ t)"
  using assms by (simp add: exec_template_def maxExecDepth_Suc)


end
