(* ===== verification/NginxConf.thy ===== *)
theory NginxConf
  imports Backends NginxReload TextTemplate
begin

text \<open>
  Generating a configuration: \<^verbatim>\<open>GenerateConfigure\<close> and what it calls in
  \<^verbatim>\<open>internal/controller/nginx.go\<close>, \<^verbatim>\<open>RenderTemplate\<close> of
  \<^verbatim>\<open>pkg/utils/template_nginx\<close> and \<^verbatim>\<open>internal/controller/default_nginx.go\<close>. The data
  go to the templates as values of the template package, field by field under their Go names. The
  mutex of the controller is created with it and guards nothing else, so it has no part in the model.
\<close>

record configure =
  cf_Server :: "ing_annotations server option"
  cf_Annotations :: ing_annotations
  cf_ServerTpl :: string
  cf_Cfg :: "ing_annotations configuration"
  cf_TmplName :: string
  cf_MainTmpl :: string
  cf_ConfName :: string

section \<open>The data as template values\<close>

definition port_value :: "int32 \<Rightarrow> tval" where
  "port_value p = TInt (sint p)"

definition strings_value :: "string list \<Rightarrow> tval" where
  "strings_value xs = TList (map TStr xs)"

definition pointer_value :: "('a \<Rightarrow> tval) \<Rightarrow> 'a option \<Rightarrow> tval" where
  "pointer_value f p = (case p of None \<Rightarrow> NilPointer | Some x \<Rightarrow> f x)"

definition annotations_value :: "ing_annotations \<Rightarrow> tval" where
  "annotations_value a = TStruct
     [(''Name'', TStr (ia_Name a)), (''Namespace'', TStr (ia_Namespace a)),
      (''Proxy'', TStruct
         [(''ProxyPath'', TStr (px_ProxyPath (ia_Proxy a))), (''ProxyHost'', TStr (px_ProxyHost (ia_Proxy a))),
          (''ProxyTarget'', TStr (px_ProxyTarget (ia_Proxy a))),
          (''ProxyTargetPath'', TStr (px_ProxyTargetPath (ia_Proxy a))),
          (''ProxySSL'', TBool (px_ProxySSL (ia_Proxy a))),
          (''ProxyEnableRegex'', TBool (px_ProxyEnableRegex (ia_Proxy a)))]),
      (''Rewrite'', TStruct
         [(''RewriteTarget'', TStr (rw_RewriteTarget (ia_Rewrite a))),
          (''EnableRegex'', TBool (rw_EnableRegex (ia_Rewrite a)))]),
      (''Redirect'', TStruct
         [(''Host'', TStr (rd_Host (ia_Redirect a))), (''Path'', TStr (rd_Path (ia_Redirect a)))]),
      (''SSLStapling'', TStruct
         [(''SSllStaplingVerify'', TBool (ss_SSllStaplingVerify (ia_SSLStapling a))),
          (''SSlStapling'', TBool (ss_SSlStapling (ia_SSLStapling a)))]),
      (''AllowList'', TStruct [(''CIDR'', strings_value (allow_CIDR (ia_AllowList a)))]),
      (''DenyList'', TStruct [(''CIDR'', strings_value (deny_CIDR (ia_DenyList a)))]),
      (''AllowCos'', TStruct [(''AllowCos'', TBool (AllowCosFlag (ia_AllowCos a)))]),
      (''Weight'', TStruct
         [(''SvcList'', strings_value (bw_SvcList (ia_Weight a))), (''Upstream'', TStr (bw_Upstream (ia_Weight a))),
          (''UseWeight'', TBool (bw_UseWeight (ia_Weight a))), (''SetWeight'', TStr (bw_SetWeight (ia_Weight a)))])]"

definition service_backend_value :: "service_backend \<Rightarrow> tval" where
  "service_backend_value sb = TStruct
     [(''Name'', TStr (sb_Name sb)),
      (''Port'', TStruct [(''Name'', TStr (bp_Name (sb_Port sb))), (''Number'', port_value (bp_Number (sb_Port sb)))])]"

definition backend_value :: "ing_annotations backend \<Rightarrow> tval" where
  "backend_value b = TStruct
     [(''Name'', TStr (be_Name b)), (''IngName'', TStr (be_IngName b)), (''NameSpace'', TStr (be_NameSpace b)),
      (''Path'', TStr (be_Path b)), (''ServiceBackend'', pointer_value service_backend_value (be_ServiceBackend b)),
      (''Port'', port_value (be_Port b)), (''TargetPath'', TStr (be_TargetPath b)),
      (''Annotations'', annotations_value (be_Annotations b)), (''RewritePath'', TStr (be_RewritePath b))]"

definition cert_value :: "SSLCert \<Rightarrow> tval" where
  "cert_value c = TStruct
     [(''TlsKey'', TStr (TlsKey c)), (''TlsCrt'', TStr (TlsCrt c)), (''TlsNoPass'', TBool (TlsNoPass c))]"

definition server_value :: "ing_annotations server \<Rightarrow> tval" where
  "server_value s = TStruct
     [(''Name'', TStr (se_Name s)), (''NameSpace'', TStr (se_NameSpace s)), (''HostName'', TStr (se_HostName s)),
      (''Tls'', cert_value (se_Tls s)), (''Paths'', TList (map (pointer_value backend_value) (se_Paths s)))]"

definition configure_value :: "configure \<Rightarrow> tval" where
  "configure_value cfg = TStruct
     [(''Server'', pointer_value server_value (cf_Server cfg)),
      (''Annotations'', annotations_value (cf_Annotations cfg)),
      (''ServerTpl'', TStruct []),
      (''Cfg'', TStruct [(''Servers'', TList (map (pointer_value server_value) (Servers (cf_Cfg cfg))))]),
      (''TmplName'', TStr (cf_TmplName cfg)), (''MainTmpl'', TStr (cf_MainTmpl cfg)), (''ConfName'', TStr (cf_ConfName cfg))]"

section \<open>Rendering\<close>

definition lift_err :: "go_error + 'a \<Rightarrow> 'a result" where
  "lift_err r = map_sum Err id r"

text \<open>
  \<^verbatim>\<open>generateServerBytes\<close>: the rendered server is appended to the buffer of the
  configuration. A failure returns before anything is written to the disk.
\<close>

definition generateServerBytes :: "template_rest \<Rightarrow> world \<Rightarrow> configure \<Rightarrow> configure result" where
  "generateServerBytes tr w cfg =
     ebind (lift_err (os_read (cf_TmplName cfg) w)) (\<lambda>serverStr.
     ebind (lift_err (parse_template tr serverStr)) (\<lambda>serverTemp.
     ebind (lift_err (exec_template tr [''serverMain'' \<mapsto> serverTemp] serverTemp (configure_value cfg))) (\<lambda>out.
       Inr (cfg\<lparr>cf_ServerTpl := cf_ServerTpl cfg @ out\<rparr>))))"

fun render_servers ::
    "template_rest \<Rightarrow> world \<Rightarrow> ing_annotations server option list \<Rightarrow> configure \<Rightarrow> configure result" where
  "render_servers tr w [] cfg = Inr cfg"
| "render_servers tr w (v # servers) cfg =
     ebind (generateServerBytes tr w (cfg\<lparr>cf_Server := v\<rparr>)) (render_servers tr w servers)"

text \<open>Parsing the rendered servers as the template \<^verbatim>\<open>servers\<close> of the main template, and executing it.\<close>

definition include_servers :: "template_rest \<Rightarrow> template \<Rightarrow> string \<Rightarrow> string result" where
  "include_servers tr mainTmpl serverTpl =
     ebind (lift_err (parse_template tr serverTpl)) (\<lambda>servers.
       lift_err (exec_template tr [''main'' \<mapsto> mainTmpl, ''servers'' \<mapsto> servers] mainTmpl NoValue))"

text \<open>
  \<^verbatim>\<open>generateConf\<close> of the controller: the test file, and a copy of it under
  \<^verbatim>\<open>/etc/nginx\<close> whose failure is only logged. A file of size zero makes it return the nil
  error of \<^verbatim>\<open>os.Stat\<close>.
\<close>

definition write_test_conf :: "string \<Rightarrow> string \<Rightarrow> world \<Rightarrow> unit result \<times> world" where
  "write_test_conf name b w =
     (let testConf = name @ ''-test.conf''
      in case os_write testConf b w of
           (Some e, w1) \<Rightarrow> (Inl (Err e), w1)
         | (None, w1) \<Rightarrow>
             (let w2 = snd (os_write (path_join [''/etc/nginx'', path_base testConf]) b w1)
              in case os_stat testConf w2 of
                   Inl e \<Rightarrow> (Inl (Err e), w2)
                 | Inr n \<Rightarrow> if n = 0 then (Inr (), w2) else (Inr (), w2)))"

definition generateConfigureBytes :: "template_rest \<Rightarrow> configure \<Rightarrow> world \<Rightarrow> unit result \<times> world" where
  "generateConfigureBytes tr cfg w =
     sbind (ebind (lift_err (os_read (cf_MainTmpl cfg) w)) (\<lambda>mainTmplStr.
            ebind (lift_err (parse_template tr mainTmplStr)) (\<lambda>mainTmpl.
            ebind (render_servers tr w (Servers (cf_Cfg cfg)) cfg) (\<lambda>cfg'.
              include_servers tr mainTmpl (cf_ServerTpl cfg')))), w)
       (\<lambda>tpl w1. write_test_conf (cf_ConfName cfg) tpl w1)"

section \<open>Generating and reloading\<close>

definition backend_configure :: "NginxController \<Rightarrow> ing_annotations \<Rightarrow> ing_annotations configuration \<Rightarrow> configure" where
  "backend_configure n ann serversCfg =
     \<lparr>cf_Server = None, cf_Annotations = ann, cf_ServerTpl = [], cf_Cfg = serversCfg,
      cf_TmplName = ServerTmpl, cf_MainTmpl = MainServerTmpl,
      cf_ConfName = path_join [ConfDir, ing_Name (nc_ingress n) @ ''-'' @ ing_Namespace (nc_ingress n)]\<rparr>"

definition default_configure :: "ing_annotations \<Rightarrow> ing_annotations configuration \<Rightarrow> configure" where
  "default_configure ann defaultCfg =
     \<lparr>cf_Server = None, cf_Annotations = ann, cf_ServerTpl = [], cf_Cfg = defaultCfg,
      cf_TmplName = DefaultTmpl, cf_MainTmpl = NginxTmpl,
      cf_ConfName = hd (split_on CHR ''.'' MainConf)\<rparr>"

definition generateBackendTemplate ::
    "template_rest \<Rightarrow> nginx_env \<Rightarrow> NginxController \<Rightarrow> ing_annotations \<Rightarrow> world \<Rightarrow> unit result \<times> world" where
  "generateBackendTemplate tr env n ann w =
     sbind (getBackendConfigure n ann w) (\<lambda>serversCfg w1.
     sbind (generateConfigureBytes tr (backend_configure n ann serversCfg) w1) (\<lambda>_ w2.
       Reload env (cf_ConfName (backend_configure n ann serversCfg)) w2))"

definition generateDefaultBackendTemplate ::
    "template_rest \<Rightarrow> nginx_env \<Rightarrow> NginxController \<Rightarrow> ing_annotations \<Rightarrow> world \<Rightarrow> unit result \<times> world" where
  "generateDefaultBackendTemplate tr env n ann w =
     sbind (getDefaultBackendConfigure n ann, w) (\<lambda>defaultCfg w1.
     sbind (generateConfigureBytes tr (default_configure ann defaultCfg) w1) (\<lambda>_ w2.
       Reload env (cf_ConfName (default_configure ann defaultCfg)) w2))"

definition GenerateConfigure ::
    "template_rest \<Rightarrow> nginx_env \<Rightarrow> NginxController \<Rightarrow> ing_annotations \<Rightarrow> world \<Rightarrow> unit result \<times> world" where
  "GenerateConfigure tr env n ann w =
     sbind (if length (Rules (ing_Spec (nc_ingress n))) > 0
            then generateBackendTemplate tr env n ann w else (Inr (), w)) (\<lambda>_ w1.
       if DefaultBackend (ing_Spec (nc_ingress n)) \<noteq> None
       then generateDefaultBackendTemplate tr env n ann w1 else (Inr (), w1))"

section \<open>The renderer of the default configuration\<close>

record RenderTemplate =
  GenerateName :: string
  RenderTemplateName :: string
  MainTemplateName :: string

definition rt_Generate :: "RenderTemplate \<Rightarrow> string \<Rightarrow> world \<Rightarrow> unit result \<times> world" where
  "rt_Generate rt b w =
     (let conf = GenerateName rt @ ''-test.conf''
      in case os_write conf b w of
           (Some e, w1) \<Rightarrow> (Inl (Err e), w1)
         | (None, w1) \<Rightarrow>
             (case os_stat conf w1 of
                Inl e \<Rightarrow> (Inl (Err e), w1)
              | Inr n \<Rightarrow> if n = 0 then (Inr (), w1) else (Inr (), w1)))"

definition rt_Render :: "template_rest \<Rightarrow> RenderTemplate \<Rightarrow> tval \<Rightarrow> world \<Rightarrow> unit result \<times> world" where
  "rt_Render tr rt data w =
     sbind (ebind (lift_err (os_read (MainTemplateName rt) w)) (\<lambda>mainTmplStr.
            ebind (lift_err (parse_template tr mainTmplStr)) (\<lambda>mainTmpl.
            ebind (lift_err (os_read (RenderTemplateName rt) w)) (\<lambda>renderTmplStr.
            ebind (lift_err (parse_template tr renderTmplStr)) (\<lambda>renderTmpl.
            ebind (lift_err (exec_template tr [''render'' \<mapsto> renderTmpl] renderTmpl data)) (\<lambda>renderTpl.
              include_servers tr mainTmpl renderTpl))))), w)
       (\<lambda>mainTpl w1. rt_Generate rt mainTpl w1)"

definition UpdateDefaultConf :: "template_rest \<Rightarrow> nginx_env \<Rightarrow> RenderTemplate \<Rightarrow> world \<Rightarrow> unit result \<times> world" where
  "UpdateDefaultConf tr env parser w =
     (let servers = \<lparr>se_Name = [], se_NameSpace = [], se_HostName = [], se_Tls = empty_cert, se_Paths = []\<rparr>
          :: ing_annotations server;
          cfg = TStruct [(''Server'', server_value servers)]
      in sbind (rt_Render tr parser cfg w) (\<lambda>_ w1. Reload env (GenerateName parser) w1))"

section \<open>Rendering, step by step\<close>

lemma lift_err_eq [simp]:
  "lift_err r = Inr a \<longleftrightarrow> r = Inr a" "lift_err r = Inl f \<longleftrightarrow> (\<exists>e. r = Inl e \<and> f = Err e)"
  "lift_err (Inr a) = Inr a" "lift_err (Inl e) = Inl (Err e)"
  by (cases r; auto simp: lift_err_def)+

text \<open>The text one server renders to; the buffer of the configuration has no part in it.\<close>

definition server_text :: "template_rest \<Rightarrow> template \<Rightarrow> configure \<Rightarrow> ing_annotations server option \<Rightarrow> go_error + string" where
  "server_text tr t cfg s =
     exec_template tr [''serverMain'' \<mapsto> t] t (configure_value (cfg\<lparr>cf_Server := s\<rparr>))"

lemma configure_value_buffer [simp]: "configure_value (cfg\<lparr>cf_ServerTpl := b\<rparr>) = configure_value cfg"
  by (simp add: configure_value_def)

lemma server_text_cfg [simp]:
  "server_text tr t (cfg\<lparr>cf_Server := v\<rparr>) s = server_text tr t cfg s"
  "server_text tr t (cfg\<lparr>cf_ServerTpl := b\<rparr>) s = server_text tr t cfg s"
proof -
  have "cfg\<lparr>cf_ServerTpl := b\<rparr>\<lparr>cf_Server := s\<rparr> = cfg\<lparr>cf_Server := s\<rparr>\<lparr>cf_ServerTpl := b\<rparr>" by simp
  then show "server_text tr t (cfg\<lparr>cf_ServerTpl := b\<rparr>) s = server_text tr t cfg s"
    unfolding server_text_def by (simp only: configure_value_buffer)
qed (simp add: server_text_def)

text \<open>The tail of a configuration's life: the name and the rest stay, the buffer grows by each text.\<close>

lemma generateServerBytes_ok:
  assumes "os_read (cf_TmplName cfg) w = Inr src" and "parse_template tr src = Inr t"
  shows "generateServerBytes tr w (cfg\<lparr>cf_Server := s\<rparr>) =
    ebind (lift_err (server_text tr t cfg s)) (\<lambda>out. Inr (cfg\<lparr>cf_Server := s, cf_ServerTpl := cf_ServerTpl cfg @ out\<rparr>))"
  using assms by (simp add: generateServerBytes_def server_text_def)

lemma render_servers_emap:
  assumes "os_read (cf_TmplName cfg) w = Inr src" and "parse_template tr src = Inr t"
  shows "map_sum id cf_ServerTpl (render_servers tr w ss cfg) =
    ebind (emap (\<lambda>s. lift_err (server_text tr t cfg s)) ss) (\<lambda>outs. Inr (cf_ServerTpl cfg @ concat outs))"
  using assms
proof (induction ss arbitrary: cfg)
  case (Cons s ss)
  show ?case
  proof (cases "server_text tr t cfg s")
    case (Inl e)
    then show ?thesis using Cons.prems by (simp add: generateServerBytes_ok)
  next
    case (Inr out)
    let ?cfg = "cfg\<lparr>cf_Server := s, cf_ServerTpl := cf_ServerTpl cfg @ out\<rparr>"
    have "map_sum id cf_ServerTpl (render_servers tr w ss ?cfg) =
        ebind (emap (\<lambda>s. lift_err (server_text tr t ?cfg s)) ss) (\<lambda>outs. Inr (cf_ServerTpl ?cfg @ concat outs))"
      by (rule Cons.IH) (use Cons.prems in simp_all)
    then show ?thesis
      using Inr Cons.prems
      by (cases "emap (\<lambda>s. lift_err (server_text tr t cfg s)) ss") (simp_all add: generateServerBytes_ok id_def)
  qed
qed simp

lemma include_servers_plain:
  assumes "plain_text s"
  shows "include_servers tr (Nodes [NTemplate ''servers'', NText nl]) s = Inr (s @ nl)"
  using assms by (simp add: include_servers_def parse_template_plain exec_include)

text \<open>The main template file of the repository: one invocation and a line end.\<close>

definition main_server_tmpl :: string where
  "main_server_tmpl = ''{{ template '' @ [CHR 0x22] @ ''servers'' @ [CHR 0x22] @ '' }}'' @ [CHR 0x0A]"

lemma parse_main_server_tmpl:
  "parse_template tr main_server_tmpl = Inr (Nodes [NTemplate ''servers'', NText [CHR 0x0A]])"
proof -
  have "parse_nodes main_server_tmpl = Some [NTemplate ''servers'', NText [CHR 0x0A]]"
    by code_simp
  then show ?thesis by (simp add: parse_template_def)
qed

text \<open>Where the two copies of the test file go.\<close>

lemma write_test_conf_ok:
  assumes "wfault w (name @ ''-test.conf'') = Writable"
    and "path_join [''/etc/nginx'', path_base (name @ ''-test.conf'')] \<noteq> name @ ''-test.conf''"
  shows "\<exists>w'. write_test_conf name b w = (Inr (), w') \<and>
    files w' (name @ ''-test.conf'') = Some b \<and> events w' = events w \<and>
    touches_only {name @ ''-test.conf'', path_join [''/etc/nginx'', path_base (name @ ''-test.conf'')]} w w'"
proof -
  let ?t = "name @ ''-test.conf''" and ?c = "path_join [''/etc/nginx'', path_base (name @ ''-test.conf'')]"
  let ?w1 = "set_file ?t (Some b) w"
  obtain r w2 where 2: "os_write ?c b ?w1 = (r, w2)" by (meson surj_pair)
  have f: "touches_only {?c} ?w1 w2 \<and> events w2 = events w" using os_write_touches [OF 2] by simp
  then have "files w2 ?t = Some b" using assms(2) by (simp add: touches_only_def)
  moreover have "write_test_conf name b w = (Inr (), w2)"
    using assms(1) 2 \<open>files w2 ?t = Some b\<close>
    by (simp add: write_test_conf_def Let_def os_write_def os_stat_def)
  moreover have "touches_only {?t, ?c} w w2"
    using f by (auto simp: touches_only_def)
  ultimately show ?thesis using f by blast
qed

lemma generateConfigureBytes_plain:
  assumes "os_read (cf_MainTmpl cfg) w = Inr main_server_tmpl"
    and "os_read (cf_TmplName cfg) w = Inr src" and "parse_template tr src = Inr t"
    and "cf_ServerTpl cfg = []"
    and "emap (\<lambda>s. lift_err (server_text tr t cfg s)) (Servers (cf_Cfg cfg)) = Inr outs"
    and "plain_text (concat outs)"
  shows "generateConfigureBytes tr cfg w = write_test_conf (cf_ConfName cfg) (concat outs @ [CHR 0x0A]) w"
proof -
  have "map_sum id cf_ServerTpl (render_servers tr w (Servers (cf_Cfg cfg)) cfg) = Inr (concat outs)"
    using render_servers_emap [OF assms(2,3)] assms(4,5) by simp
  then obtain cfg' where "render_servers tr w (Servers (cf_Cfg cfg)) cfg = Inr cfg'"
    and "cf_ServerTpl cfg' = concat outs"
    by (cases "render_servers tr w (Servers (cf_Cfg cfg)) cfg") auto
  then show ?thesis
    using assms(1,6) by (simp add: generateConfigureBytes_def parse_main_server_tmpl include_servers_plain)
qed

text \<open>The names of the files of an ingress.\<close>

definition conf_name :: "string \<Rightarrow> string \<Rightarrow> string" where
  "conf_name name ns = ConfDir @ ''/'' @ name @ ''-'' @ ns"

lemma conf_dir_join: "plain_name f \<Longrightarrow> path_join [ConfDir, f] = ConfDir @ ''/'' @ f"
  using path_join_plain [of "[''etc'', ''nginx'', ''conf.d'']" f]
  by (simp add: ConfDir_def plain_name_def)

lemma backend_configure_name:
  assumes "CHR ''/'' \<notin> set (ing_Name (nc_ingress n) @ ing_Namespace (nc_ingress n))"
    and "ing_Name (nc_ingress n) \<noteq> []" and "ing_Namespace (nc_ingress n) \<noteq> []"
  shows "cf_ConfName (backend_configure n ann cfg) = conf_name (ing_Name (nc_ingress n)) (ing_Namespace (nc_ingress n))"
proof -
  have "3 \<le> length (ing_Name (nc_ingress n) @ ''-'' @ ing_Namespace (nc_ingress n))"
    using assms(2,3) by (cases "ing_Name (nc_ingress n)"; cases "ing_Namespace (nc_ingress n)") auto
  then have "plain_name (ing_Name (nc_ingress n) @ ''-'' @ ing_Namespace (nc_ingress n))"
    using assms(1) by (intro plain_nameI) auto
  then show ?thesis by (simp add: backend_configure_def conf_name_def conf_dir_join)
qed

lemma copy_path:
  assumes "CHR ''/'' \<notin> set (name @ ns)"
  shows "path_join [''/etc/nginx'', path_base (conf_name name ns @ ''-test.conf'')] =
    ''/etc/nginx/'' @ name @ ''-'' @ ns @ ''-test.conf''"
proof -
  let ?f = "name @ ''-'' @ ns @ ''-test.conf''"
  have plain: "plain_name ?f" using assms by (intro plain_nameI) auto
  have "path_base (ConfDir @ CHR ''/'' # ?f) = ?f"
    by (rule path_base_plain [OF plain])
  then have "path_base (conf_name name ns @ ''-test.conf'') = ?f"
    by (simp add: conf_name_def)
  then show ?thesis
    using path_join_plain [of "[''etc'', ''nginx'']" ?f] plain by (simp add: plain_name_def)
qed

lemma copy_path_differs:
  "''/etc/nginx/'' @ f \<noteq> conf_name name ns @ x" if "CHR ''/'' \<notin> set f"
proof
  assume "''/etc/nginx/'' @ f = conf_name name ns @ x"
  then have "f = ''conf.d/'' @ name @ ''-'' @ ns @ x" by (simp add: conf_name_def ConfDir_def)
  with that show False by simp
qed

section \<open>Properties\<close>

text \<open>A template package that refuses everything outside the grammar, for the instances below.\<close>

definition strict_rest :: template_rest where
  "strict_rest = \<lparr>tr_parse = (\<lambda>s. Some (Errorf (''template: unexpected '' @ s))),
     tr_exec = (\<lambda>S s v. Inl (Errorf ''template: incomplete'')), tr_print = (\<lambda>v. [])\<rparr>"

text \<open>The rendered text goes into the configuration unchanged only while it has no opening
  delimiter: the servers are parsed as a template a second time, so an action that arrives with the
  data, such as a path or a host of the ingress, is executed.\<close>

theorem rendered_text_is_executed:
  assumes "CHR ''{'' \<notin> set a" and "CHR ''{'' \<notin> set b"
    and "set v \<inter> {CHR 0x22, CHR 0x5C, CHR 0x0A} = {}"
  shows "include_servers tr (Nodes [NTemplate ''servers'', NText nl])
      (a @ ''{{'' @ [CHR 0x22] @ v @ [CHR 0x22] @ ''}}'' @ b) = Inr (a @ v @ b @ nl)"
proof -
  let ?q = "CHR 0x22"
  let ?act = "[?q] @ v @ [?q] @ ''}}'' @ b"
  have in_v: "x \<notin> {?q, CHR 0x5C, CHR 0x0A}" if "x \<in> set v" for x using that assms(3) by blast
  have token: "lex_token ?act = Some (KStr v, ''}}'' @ b)"
  proof -
    have "takeWhile (\<lambda>x. x \<notin> {?q, CHR 0x5C, CHR 0x0A}) (v @ ?q # ''}}'' @ b) = v"
      using in_v by (subst takeWhile_append2) auto
    moreover have "dropWhile (\<lambda>x. x \<notin> {?q, CHR 0x5C, CHR 0x0A}) (v @ ?q # ''}}'' @ b) = ?q # ''}}'' @ b"
      using in_v by (subst dropWhile_append2) auto
    ultimately show ?thesis by (simp add: lex_token_def has_prefix_def at_terminator_def)
  qed
  have action: "lex_action ?act ?act = Some ([KStr v], b)"
    using token by (cases v) (auto simp: has_prefix_def is_blank_def)
  have "plain_text (a @ ''{'')"
  proof -
    have "a @ ''{'' \<noteq> x @ ''{{'' @ y" for x y
    proof
      assume "a @ ''{'' = x @ ''{{'' @ y"
      then have "count_list (a @ ''{'') CHR ''{'' = count_list (x @ ''{{'' @ y) CHR ''{''" by simp
      then show False using assms(1) by (simp add: count_list_0_iff [THEN iffD2])
    qed
    then show ?thesis by (simp add: plain_text_def)
  qed
  then have "split_open (a @ ''{{'' @ ?act) = (a, Some ?act)" by (rule split_open_found)
  moreover have "split_open b = (b, None)" using assms(2) by (intro split_open_plain plain_text_no_brace)
  ultimately have "lex_items (CHR 0x00 # (a @ ''{{'' @ ?act)) (a @ ''{{'' @ ?act) = Some [IText a, IAct [KStr v], IText b]"
    using action by (cases a) (simp_all del: lex_action.simps)
  moreover have "p_items [IText a, IAct [KStr v], IText b] ([], []) =
      Some ((if a = [] then [] else [NText a]) @ [NOut (EStr v)] @ (if b = [] then [] else [NText b]), [])"
    by (simp add: p_pipeline_def numeral_eq_Suc)
  ultimately have "parse_template tr (a @ ''{{'' @ ?act) =
      Inr (Nodes ((if a = [] then [] else [NText a]) @ [NOut (EStr v)] @ (if b = [] then [] else [NText b])))"
    by (simp add: parse_template_def parse_nodes_def)
  then show ?thesis
    by (simp add: include_servers_def exec_template_def maxExecDepth_Suc)
qed

theorem rendered_text_is_executed_witness:
  "include_servers strict_rest (Nodes [NTemplate ''servers'', NText []])
     (''server_name a'' @ ''{{'' @ [CHR 0x22] @ ''; x'' @ [CHR 0x22] @ ''}}'' @ '';'') = Inr ''server_name a; x;''"
  using rendered_text_is_executed [of "''server_name a''" "'';''" "''; x''" strict_rest "[]"] by simp

text \<open>The generator up to the reload, when every step works.\<close>

definition rendered ::
    "template_rest \<Rightarrow> NginxController \<Rightarrow> ing_annotations \<Rightarrow> ing_annotations configuration \<Rightarrow> world \<Rightarrow> string \<Rightarrow> bool" where
  "rendered tr n ann cfg w text \<longleftrightarrow>
     (\<exists>src t outs. os_read MainServerTmpl w = Inr main_server_tmpl \<and> os_read ServerTmpl w = Inr src \<and>
        parse_template tr src = Inr t \<and>
        emap (\<lambda>s. lift_err (server_text tr t (backend_configure n ann cfg) s)) (Servers cfg) = Inr outs \<and>
        plain_text (concat outs) \<and> text = concat outs @ [CHR 0x0A])"

lemma rendered_written:
  assumes "rendered tr n ann cfg w text"
  shows "generateConfigureBytes tr (backend_configure n ann cfg) w =
    write_test_conf (cf_ConfName (backend_configure n ann cfg)) text w"
proof -
  from assms obtain src t outs where r: "os_read MainServerTmpl w = Inr main_server_tmpl"
      "os_read ServerTmpl w = Inr src" "parse_template tr src = Inr t"
      "emap (\<lambda>s. lift_err (server_text tr t (backend_configure n ann cfg) s)) (Servers cfg) = Inr outs"
      "plain_text (concat outs)" and tx: "text = concat outs @ [CHR 0x0A]"
    unfolding rendered_def by blast
  show ?thesis
    unfolding tx by (rule generateConfigureBytes_plain) (use r in \<open>simp_all add: backend_configure_def\<close>)
qed

definition plain_ingress :: "ingress \<Rightarrow> bool" where
  "plain_ingress ing \<longleftrightarrow> CHR ''/'' \<notin> set (ing_Name ing @ ing_Namespace ing) \<and>
     ing_Name ing \<noteq> [] \<and> ing_Namespace ing \<noteq> []"

lemma rendered_reloaded:
  assumes "rendered tr n ann cfg w text" and "plain_ingress (nc_ingress n)"
    and "name = conf_name (ing_Name (nc_ingress n)) (ing_Namespace (nc_ingress n))"
    and "healthy_conf w name"
    and "getBackendConfigure n ann w0 = (Inr cfg, w)"
  shows "\<exists>w1. generateBackendTemplate tr env n ann w0 = reload env name w1 \<and> healthy_conf w1 name \<and>
    files w1 (name @ ''-test.conf'') = Some text \<and> events w1 = events w \<and>
    files w1 (name @ ''.conf'') = files w (name @ ''.conf'') \<and>
    touches_only {name @ ''-test.conf'', path_join [''/etc/nginx'', path_base (name @ ''-test.conf'')]} w w1 \<and>
    generateConfigureBytes tr (backend_configure n ann cfg) w = (Inr (), w1) \<and>
    cf_ConfName (backend_configure n ann cfg) = name"
proof -
  let ?copy = "path_join [''/etc/nginx'', path_base (name @ ''-test.conf'')]"
  have name: "cf_ConfName (backend_configure n ann c) = name" for c
    using assms(2,3) backend_configure_name unfolding plain_ingress_def by simp
  have copy: "?copy = ''/etc/nginx/'' @ ing_Name (nc_ingress n) @ ''-'' @ ing_Namespace (nc_ingress n) @ ''-test.conf''"
    using assms(2,3) by (simp add: copy_path plain_ingress_def)
  have slash: "CHR ''/'' \<notin> set (ing_Name (nc_ingress n) @ ''-'' @ ing_Namespace (nc_ingress n) @ ''-test.conf'')"
    using assms(2) by (simp add: plain_ingress_def)
  have differs: "?copy \<noteq> name @ x" for x
    using copy_path_differs [OF slash] assms(3) copy by simp
  obtain w1 where w1: "write_test_conf name text w = (Inr (), w1)"
      "files w1 (name @ ''-test.conf'') = Some text" "events w1 = events w"
      "touches_only {name @ ''-test.conf'', ?copy} w w1"
    using write_test_conf_ok [of w name "text"] differs assms(4) by (auto simp: healthy_conf_def healthy_def)
  moreover have "healthy_conf w1 name"
    using w1(4) assms(4) touches_only_healthy unfolding healthy_conf_def by metis
  moreover have "files w1 (name @ ''.conf'') = files w (name @ ''.conf'')"
    using w1(4) differs [of "''.conf''"] by (auto simp: touches_only_def)
  moreover have bytes: "generateConfigureBytes tr (backend_configure n ann cfg) w = (Inr (), w1)"
    using assms(1) w1(1) by (simp add: rendered_written name)
  moreover have "generateBackendTemplate tr env n ann w0 = reload env name w1"
    using assms(5) bytes by (simp add: generateBackendTemplate_def name Reload_def)
  ultimately show ?thesis using name by blast
qed

text \<open>When an update of the back ends returns no error on a healthy disk, the installed
  configuration is the text rendered for the servers of the ingress, one after the other (up to
  the digest the controller itself compares by).\<close>

theorem update_installs_rendering:
  assumes "getBackendConfigure n ann w0 = (Inr cfg, w)" and "rendered tr n ann cfg w text"
    and "plain_ingress (nc_ingress n)"
    and "name = conf_name (ing_Name (nc_ingress n)) (ing_Namespace (nc_ingress n))"
    and "healthy_conf w name"
    and "fst (generateBackendTemplate tr env n ann w0) = Inr ()"
  shows "\<exists>c. files (snd (generateBackendTemplate tr env n ann w0)) (name @ ''.conf'') = Some c \<and>
    sha1_hex c = sha1_hex text"
proof -
  obtain w1 where g: "generateBackendTemplate tr env n ann w0 = reload env name w1" "healthy_conf w1 name"
      "files w1 (name @ ''-test.conf'') = Some text"
    using rendered_reloaded [OF assms(2,3,4,5,1)] by blast
  have "text \<noteq> []" using assms(2) unfolding rendered_def by auto
  with reload_success [OF g(2,3)] show ?thesis using assms(6) g(1) by simp
qed

text \<open>When the test rejects what an update of the back ends generated, the update returns the
  failure, the installed configuration is what it was, and nginx is not signalled.\<close>

theorem rejected_update_changes_nothing:
  assumes "getBackendConfigure n ann w0 = (Inr cfg, w)" and "rendered tr n ann cfg w text"
    and "plain_ingress (nc_ingress n)"
    and "name = conf_name (ing_Name (nc_ingress n)) (ing_Namespace (nc_ingress n))"
    and "healthy_conf w name"
    and "files w (name @ ''.conf'') = Some old" and "old \<noteq> []" and "sha1_hex old \<noteq> sha1_hex text"
    and "\<And>f. f (name @ ''.conf'') = Some text \<Longrightarrow> ne_test env f = RunExit m"
  shows "fst (generateBackendTemplate tr env n ann w0) = Inl (Err (ExitError m)) \<and>
    files (snd (generateBackendTemplate tr env n ann w0)) (name @ ''.conf'') = Some old \<and>
    (\<exists>f. events (snd (generateBackendTemplate tr env n ann w0)) = events w @ [Tested f])"
proof -
  obtain w1 where g: "generateBackendTemplate tr env n ann w0 = reload env name w1" "healthy_conf w1 name"
      "files w1 (name @ ''-test.conf'') = Some text" "events w1 = events w"
      "files w1 (name @ ''.conf'') = files w (name @ ''.conf'')"
    using rendered_reloaded [OF assms(2,3,4,5,1)] by blast
  have "text \<noteq> []" using assms(2) unfolding rendered_def by auto
  moreover have "files w1 (name @ ''.conf'') = Some old" using g(5) assms(6) by simp
  ultimately show ?thesis
    using reload_rejected [OF g(2) _ assms(7) g(3) _ assms(8) assms(9)] g(1,4)
    by (simp add: settled_def)
qed

text \<open>When the data of the servers cannot be built, because a service is missing, a port is not
  resolved or a path is refused, the update returns that failure, and nothing but files of the
  certificate directory is written: no configuration is generated, tested or loaded.\<close>

theorem refused_update_writes_no_configuration:
  assumes "fst (getBackendConfigure n ann w) = Inl f"
  shows "fst (generateBackendTemplate tr env n ann w) = Inl f \<and>
    ssl_only w (snd (generateBackendTemplate tr env n ann w))"
proof -
  obtain w1 where 1: "getBackendConfigure n ann w = (Inl f, w1)"
    using assms by (cases "getBackendConfigure n ann w") auto
  obtain r w2 where 2: "generateTlsFile n w = (r, w2)" by (meson surj_pair)
  have "w1 = w2" using 1 2 by (cases r) (auto simp: getBackendConfigure_def split: prod.splits)
  with 1 generateTlsFile_ssl [OF 2] show ?thesis by (simp add: generateBackendTemplate_def)
qed

theorem refused_update_writes_no_configuration_witness:
  "fst (generateBackendTemplate strict_rest (sample_env RunOk)
      \<lparr>nc_rr = sample_resolver (\<lambda>_. Inr []),
       nc_ingress = sample_ingress\<lparr>ing_Spec := (ing_Spec sample_ingress)\<lparr>Rules := [\<lparr>ir_Host = ''a.com'', ir_HTTP = None\<rparr>]\<rparr>\<rparr>\<rparr>
      (new_annotations sample_ingress) sample_disk) = Inl (Panic NilDereference)"
  using refused_update_writes_no_configuration [of
      "\<lparr>nc_rr = sample_resolver (\<lambda>_. Inr []),
        nc_ingress = sample_ingress\<lparr>ing_Spec := (ing_Spec sample_ingress)\<lparr>Rules := [\<lparr>ir_Host = ''a.com'', ir_HTTP = None\<rparr>]\<rparr>\<rparr>\<rparr>"
      "new_annotations sample_ingress" sample_disk "Panic NilDereference" strict_rest "sample_env RunOk"]
  by (simp add: getBackendConfigure_def generateTlsFile_def generateCrdTlsFile_def sample_ingress_def
      sample_resolver_def rule_server_def Let_def)
text \<open>A disk with the templates of the repository in their simplest form.\<close>

definition page_files :: file_map where
  "page_files = [MainServerTmpl \<mapsto> main_server_tmpl, ServerTmpl \<mapsto> ''server x;'', Pid \<mapsto> ''17'' @ [CHR 0x0A]]"

definition page_controller :: NginxController where
  "page_controller = \<lparr>nc_rr = sample_resolver (\<lambda>_. Inl (Err (Errorf ''no secret''))), nc_ingress = sample_ingress\<rparr>"

definition page_configuration :: "ing_annotations configuration" where
  "page_configuration = \<lparr>Servers = [Some \<lparr>se_Name = ''web'', se_NameSpace = ''shop'', se_HostName = ''a.com'',
     se_Tls = empty_cert, se_Paths = []\<rparr>]\<rparr>"

lemma page_configure:
  "getBackendConfigure page_controller (new_annotations sample_ingress) w = (Inr page_configuration, w)"
  by (simp add: getBackendConfigure_def generateTlsFile_def generateCrdTlsFile_def page_controller_def
      sample_ingress_def sample_resolver_def rule_server_def Let_def page_configuration_def new_annotations_def)

lemma page_rendered:
  assumes "files w MainServerTmpl = Some main_server_tmpl" and "files w ServerTmpl = Some ''server x;''"
    and "\<not> rfault w MainServerTmpl" and "\<not> rfault w ServerTmpl"
  shows "rendered tr page_controller (new_annotations sample_ingress) page_configuration w (''server x;'' @ [CHR 0x0A])"
proof -
  have plain: "plain_text ''server x;''" by (rule plain_text_no_brace) simp
  then have "parse_template tr ''server x;'' = Inr (Nodes [NText ''server x;''])"
    by (simp only: parse_template_plain list.simps if_False)
  then show ?thesis
    using plain assms unfolding rendered_def
    by (intro exI [of _ "''server x;''"] exI [of _ "Nodes [NText ''server x;'']"] exI [of _ "[''server x;'']"])
       (simp add: os_read_ok page_configuration_def server_text_def exec_template_def)
qed

lemma page_ingress: "plain_ingress (nc_ingress page_controller)"
    "ing_Name (nc_ingress page_controller) = ''web''" "ing_Namespace (nc_ingress page_controller) = ''shop''"
  by (simp_all add: plain_ingress_def page_controller_def sample_ingress_def)

lemma page_reloads:
  "fst (generateBackendTemplate tr (sample_env RunOk) page_controller (new_annotations sample_ingress)
     (sample_world page_files)) = Inr ()"
proof -
  let ?w = "sample_world page_files"
  have h: "healthy_conf ?w n" for n by (simp add: sample_facts)
  have "rendered tr page_controller (new_annotations sample_ingress) page_configuration ?w (''server x;'' @ [CHR 0x0A])"
    by (rule page_rendered) (simp_all add: sample_world_def page_files_def MainServerTmpl_def ServerTmpl_def Pid_def)
  from rendered_reloaded [OF this page_ingress(1) refl h page_configure, of "sample_env RunOk"]
  obtain w1 where g: "generateBackendTemplate tr (sample_env RunOk) page_controller (new_annotations sample_ingress) ?w =
      reload (sample_env RunOk) (conf_name ''web'' ''shop'') w1" "healthy_conf w1 (conf_name ''web'' ''shop'')"
      "files w1 (conf_name ''web'' ''shop'' @ ''-test.conf'') = Some (''server x;'' @ [CHR 0x0A])"
      "files w1 (conf_name ''web'' ''shop'' @ ''.conf'') = files ?w (conf_name ''web'' ''shop'' @ ''.conf'')"
      "touches_only {conf_name ''web'' ''shop'' @ ''-test.conf'',
         path_join [''/etc/nginx'', path_base (conf_name ''web'' ''shop'' @ ''-test.conf'')]} ?w w1"
    unfolding page_ingress by blast
  have copy: "path_join [''/etc/nginx'', path_base (conf_name ''web'' ''shop'' @ ''-test.conf'')] =
      ''/etc/nginx/web-shop-test.conf''"
    by (simp add: copy_path)
  have pid: "files w1 Pid = Some (''17'' @ [CHR 0x0A])"
    using g(5) unfolding copy
    by (simp add: touches_only_def sample_world_def page_files_def Pid_def conf_name_def ConfDir_def)
  have "atoi (trim_space (''17'' @ [CHR 0x0A])) = Some 17" by code_simp
  then have "restarts (sample_env RunOk) 17 (set_file (conf_name ''web'' ''shop'' @ ''.conf'') c (log_event e w1))" for c e
    using pid by (simp add: restarts_def sample_env_def isRunning_def conf_name_def ConfDir_def Pid_def)
  moreover have "files w1 (conf_name ''web'' ''shop'' @ ''.conf'') = None"
    unfolding g(4) by (simp add: sample_world_def page_files_def conf_name_def ConfDir_def MainServerTmpl_def ServerTmpl_def Pid_def)
  ultimately show ?thesis
    unfolding g(1) by (intro reload_first_ok [OF g(2) _ g(3)]) (simp_all add: sample_env_def)
qed

theorem update_installs_rendering_witness:
  "\<exists>c. files (snd (generateBackendTemplate strict_rest (sample_env RunOk) page_controller (new_annotations sample_ingress)
      (sample_world page_files))) ''/etc/nginx/conf.d/web-shop.conf'' = Some c \<and>
    sha1_hex c = sha1_hex (''server x;'' @ [CHR 0x0A])"
proof -
  let ?w = "sample_world page_files"
  have h: "healthy_conf ?w n" for n by (simp add: sample_facts)
  have "rendered strict_rest page_controller (new_annotations sample_ingress) page_configuration ?w (''server x;'' @ [CHR 0x0A])"
    by (rule page_rendered) (simp_all add: sample_world_def page_files_def MainServerTmpl_def ServerTmpl_def Pid_def)
  from update_installs_rendering [OF page_configure this page_ingress(1) refl h page_reloads]
  show ?thesis by (simp add: page_ingress conf_name_def ConfDir_def)
qed

theorem rejected_update_changes_nothing_witness:
  "files (snd (generateBackendTemplate strict_rest (sample_env (RunExit ''exit status 1'')) page_controller
      (new_annotations sample_ingress)
      (sample_world (page_files(''/etc/nginx/conf.d/web-shop.conf'' \<mapsto> ''server a''))))) ''/etc/nginx/conf.d/web-shop.conf'' =
    Some ''server a''"
proof -
  let ?w = "sample_world (page_files(''/etc/nginx/conf.d/web-shop.conf'' \<mapsto> ''server a''))"
  have h: "healthy_conf ?w n" for n by (simp add: sample_facts)
  have r: "rendered strict_rest page_controller (new_annotations sample_ingress) page_configuration ?w (''server x;'' @ [CHR 0x0A])"
    by (rule page_rendered) (simp_all add: sample_world_def page_files_def MainServerTmpl_def ServerTmpl_def Pid_def)
  have name: "conf_name ''web'' ''shop'' @ ''.conf'' = ''/etc/nginx/conf.d/web-shop.conf''"
    by (simp add: conf_name_def ConfDir_def)
  have old: "files ?w (conf_name ''web'' ''shop'' @ ''.conf'') = Some ''server a''"
    unfolding name by (simp add: sample_world_def)
  have sha: "sha1_hex ''server a'' \<noteq> sha1_hex (''server x;'' @ [CHR 0x0A])" by code_simp
  have test: "ne_test (sample_env (RunExit m)) f = RunExit m" for f m by (simp add: sample_env_def)
  show ?thesis
    using rejected_update_changes_nothing [OF page_configure r page_ingress(1) refl h, unfolded page_ingress,
        OF old _ sha test] unfolding name by simp
qed

text \<open>An update of one ingress removes the installed configuration of another: the test file of
  the ingress \<open>foo\<close> in the namespace \<open>a\<close> is the configuration of the ingress \<open>foo-a\<close> in the
  namespace \<open>test\<close>, and it is deleted when the update returns.\<close>

theorem update_removes_neighbour:
  assumes "getBackendConfigure n ann w0 = (Inr cfg, w)" and "rendered tr n ann cfg w text"
    and "plain_ingress (nc_ingress n)"
    and "healthy_conf w (conf_name (ing_Name (nc_ingress n)) (ing_Namespace (nc_ingress n)))"
    and "ing_Name (nc_ingress m) = ing_Name (nc_ingress n) @ ''-'' @ ing_Namespace (nc_ingress n)"
    and "ing_Namespace (nc_ingress m) = ''test''"
    and "fst (generateBackendTemplate tr env n ann w0) \<noteq> Inl Exit"
  shows "files (snd (generateBackendTemplate tr env n ann w0))
    (cf_ConfName (backend_configure m ann' cfg') @ ''.conf'') = None"
proof -
  let ?name = "conf_name (ing_Name (nc_ingress n)) (ing_Namespace (nc_ingress n))"
  have "cf_ConfName (backend_configure m ann' cfg') = conf_name (ing_Name (nc_ingress m)) ''test''"
    using assms(3,5,6) backend_configure_name [of m ann' cfg'] by (simp add: plain_ingress_def)
  then have neighbour: "cf_ConfName (backend_configure m ann' cfg') @ ''.conf'' = ?name @ ''-test.conf''"
    using assms(5) by (simp add: conf_name_def)
  obtain w1 where g: "generateBackendTemplate tr env n ann w0 = reload env ?name w1" "healthy_conf w1 ?name"
    using rendered_reloaded [OF assms(2,3) refl assms(4,1)] by blast
  show ?thesis unfolding neighbour g(1)
    by (rule reload_clears_test [OF g(2)]) (use assms(7) g(1) in simp)
qed

theorem update_removes_neighbour_witness:
  "files (snd (generateBackendTemplate strict_rest (sample_env RunOk) page_controller (new_annotations sample_ingress)
      (sample_world page_files)))
     (cf_ConfName (backend_configure (page_controller\<lparr>nc_ingress := sample_ingress\<lparr>ing_Name := ''web-shop'', ing_Namespace := ''test''\<rparr>\<rparr>)
        (new_annotations sample_ingress) page_configuration) @ ''.conf'') = None"
proof -
  let ?w = "sample_world page_files"
  have h: "healthy_conf ?w n" for n by (simp add: sample_facts)
  have r: "rendered strict_rest page_controller (new_annotations sample_ingress) page_configuration ?w (''server x;'' @ [CHR 0x0A])"
    by (rule page_rendered) (simp_all add: sample_world_def page_files_def MainServerTmpl_def ServerTmpl_def Pid_def)
  show ?thesis
    by (rule update_removes_neighbour [OF page_configure r page_ingress(1) h])
       (simp_all add: page_ingress page_reloads)
qed

text \<open>An empty rendering passes for a success when it is written, and the reload that follows then
  replaces the installed configuration by the empty file and drops the backup.\<close>

theorem empty_rendering_destroys:
  assumes "healthy_conf w name" and "files w (name @ ''.conf'') = Some old" and "old \<noteq> []"
    and "sha1_hex old \<noteq> sha1_hex []"
    and "path_join [''/etc/nginx'', path_base (name @ ''-test.conf'')] \<noteq> name @ ''-test.conf''"
    and "path_join [''/etc/nginx'', path_base (name @ ''-test.conf'')] \<noteq> name @ ''.conf''"
  shows "fst (write_test_conf name [] w) = Inr () \<and>
    files (snd (Reload env name (snd (write_test_conf name [] w)))) (name @ ''.conf'') = Some [] \<and>
    files (snd (Reload env name (snd (write_test_conf name [] w)))) (name @ ''.tmp'') = None"
proof -
  obtain w1 where w1: "write_test_conf name [] w = (Inr (), w1)" "files w1 (name @ ''-test.conf'') = Some []"
      "touches_only {name @ ''-test.conf'', path_join [''/etc/nginx'', path_base (name @ ''-test.conf'')]} w w1"
    using write_test_conf_ok [of w name "[]"] assms(1,5) by (auto simp: healthy_conf_def healthy_def)
  have h: "healthy_conf w1 name"
    using w1(3) assms(1) touches_only_healthy unfolding healthy_conf_def by metis
  have "name @ ''.conf'' \<noteq> name @ ''-test.conf''" by simp
  then have old: "files w1 (name @ ''.conf'') = Some old"
    using w1(3) assms(2) not_sym [OF assms(6)] unfolding touches_only_def by (metis insert_iff singletonD)
  let ?w2 = "set_file (name @ ''.tmp'') (Some old) w1"
  have 1: "generateConf (name @ ''.conf'') (name @ ''.tmp'') w1 = (Inr (), ?w2)"
    using h old assms(3) by (intro generateConf_ok) (simp_all add: healthy_conf_def)
  obtain e where 2: "generateConf (name @ ''-test.conf'') (name @ ''.conf'') ?w2 =
      (Inl (Err e), set_file (name @ ''.conf'') (Some []) ?w2)"
    using generateConf_empty [of ?w2 "name @ ''-test.conf''" "name @ ''.conf''"] h w1(2)
    by (auto simp: healthy_conf_def)
  have "reload env name w1 = (Inl (Err e), CleanConf [name @ ''.tmp'', name @ ''-test.conf'']
      (CleanConf [name @ ''-test.conf''] (set_file (name @ ''.conf'') (Some []) ?w2)))"
    using h old w1(2) assms(4)
    by (simp add: reload_def Let_def os_stat_simps backupConf_def 1 2 SHA1_healthy healthy_conf_def)
  then show ?thesis
    using w1(1) h by (simp add: Reload_def CleanConf_simps CleanConf1_healthy healthy_conf_def)
qed

theorem empty_rendering_destroys_witness:
  "files (snd (Reload (sample_env RunOk) sample_name
      (snd (write_test_conf sample_name [] (sample_world sample_files))))) (sample_name @ ''.conf'') = Some []"
proof -
  have sha: "sha1_hex ''server a'' \<noteq> sha1_hex []" by code_simp
  have copy: "path_join [''/etc/nginx'', path_base (sample_name @ ''-test.conf'')] = ''/etc/nginx/web-shop-test.conf''"
    using copy_path [of "''web''" "''shop''"] by (simp add: sample_name_def conf_name_def ConfDir_def)
  show ?thesis
    using empty_rendering_destroys [of "sample_world sample_files" sample_name, unfolded copy sample_facts,
        OF sample_facts(1) refl _ sha]
    by (simp add: sample_name_def)
qed

lemma write_test_conf_events: "write_test_conf name b w = (r, w') \<Longrightarrow> events w' = events w"
proof -
  assume a: "write_test_conf name b w = (r, w')"
  obtain e w1 where 1: "os_write (name @ ''-test.conf'') b w = (e, w1)" by (meson surj_pair)
  obtain e2 w2 where 2: "os_write (path_join [''/etc/nginx'', path_base (name @ ''-test.conf'')]) b w1 = (e2, w2)"
    by (meson surj_pair)
  have "events w1 = events w" "events w2 = events w1"
    using os_write_touches [OF 1] os_write_touches [OF 2] by simp_all
  with a 1 2 show ?thesis
    by (cases e) (auto simp: write_test_conf_def Let_def split: sum.splits if_splits)
qed

lemma generateConfigureBytes_events:
  "generateConfigureBytes tr cfg w = (r, w') \<Longrightarrow> events w' = events w"
  unfolding generateConfigureBytes_def
  by (erule sbind_cases) (auto dest: write_test_conf_events)

lemma bytes_then_reload_log:
  "\<exists>es. events (snd (sbind (generateConfigureBytes tr cfg w) (\<lambda>_. Reload env name))) = events w @ es \<and>
    tested_then_hup env es"
proof -
  obtain r w1 where "generateConfigureBytes tr cfg w = (r, w1)" by (meson surj_pair)
  then show ?thesis using generateConfigureBytes_events by (blast intro: nginx_reload.log_after)
qed

lemma getBackendConfigure_events: "getBackendConfigure n ann w = (r, w1) \<Longrightarrow> events w1 = events w"
proof -
  assume 1: "getBackendConfigure n ann w = (r, w1)"
  obtain q w2 where 2: "generateTlsFile n w = (q, w2)" by (meson surj_pair)
  have "w1 = w2" using 1 2 by (cases q) (auto simp: getBackendConfigure_def split: prod.splits)
  then show ?thesis using generateTlsFile_ssl [OF 2] by (simp add: ssl_only_def)
qed

text \<open>Both updates keep the contract of the reload they end with.\<close>

interpretation backend_update: tested_update env "generateBackendTemplate tr env n ann" for env tr n ann
proof
  fix w
  obtain r w1 where 1: "getBackendConfigure n ann w = (r, w1)" by (meson surj_pair)
  show "\<exists>es. events (snd (generateBackendTemplate tr env n ann w)) = events w @ es \<and> tested_then_hup env es"
    using 1 getBackendConfigure_events [OF 1] bytes_then_reload_log [of tr "backend_configure n ann (projr r)" w1 env]
    by (cases r) (auto simp: generateBackendTemplate_def intro: exI [of _ "[]"])
qed

interpretation default_update: tested_update env "generateDefaultBackendTemplate tr env n ann" for env tr n ann
proof
  fix w
  show "\<exists>es. events (snd (generateDefaultBackendTemplate tr env n ann w)) = events w @ es \<and> tested_then_hup env es"
    using bytes_then_reload_log [of tr "default_configure ann (projr (getDefaultBackendConfigure n ann))" w env]
    by (cases "getDefaultBackendConfigure n ann")
       (auto simp: generateDefaultBackendTemplate_def intro: exI [of _ "[]"])
qed

lemma GenerateConfigure_two_logs:
  "\<exists>es es'. events (snd (GenerateConfigure tr env n ann w)) = events w @ es @ es' \<and>
    tested_then_hup env es \<and> tested_then_hup env es'"
proof -
  let ?first = "if length (Rules (ing_Spec (nc_ingress n))) > 0
            then generateBackendTemplate tr env n ann w else (Inr (), w)"
  obtain r w1 where 1: "?first = (r, w1)" by (meson surj_pair)
  then obtain es where es: "events w1 = events w @ es" "tested_then_hup env es"
    using backend_update.update_log [of tr env n ann w] by (auto split: if_splits intro: exI [of _ "[]"])
  obtain es' where es': "events (snd (generateDefaultBackendTemplate tr env n ann w1)) = events w1 @ es'"
      "tested_then_hup env es'"
    using default_update.update_log by blast
  have whole: "GenerateConfigure tr env n ann w = sbind (r, w1) (\<lambda>_ w1.
       if DefaultBackend (ing_Spec (nc_ingress n)) \<noteq> None
       then generateDefaultBackendTemplate tr env n ann w1 else (Inr (), w1))"
    unfolding GenerateConfigure_def 1 ..
  show ?thesis
  proof (cases "r \<noteq> Inl (projl r) \<and> DefaultBackend (ing_Spec (nc_ingress n)) \<noteq> None")
    case True
    then have "GenerateConfigure tr env n ann w = generateDefaultBackendTemplate tr env n ann w1"
      unfolding whole by (cases r) auto
    with es es' show ?thesis by (intro exI [of _ es] exI [of _ es']) simp
  next
    case False
    then have "snd (GenerateConfigure tr env n ann w) = w1"
      unfolding whole by (cases r) auto
    with es show ?thesis by (intro exI [of _ es] exI [of _ "[]"]) simp
  qed
qed

text \<open>Whatever the templates, the disk and the commands do, an update of an ingress signals nginx
  at most twice, once for its rules and once for its default back end, and each time after a
  configuration test of its own that did not fail.\<close>

theorem update_tests_before_signal:
  "\<exists>es es'. events (snd (GenerateConfigure tr env n ann w)) = events w @ es @ es' \<and>
    tested_then_hup env es \<and> tested_then_hup env es'"
  by (rule GenerateConfigure_two_logs)

end
