(* ===== verification/TemplateTypes.thy ===== *)
theory TemplateTypes
  imports NginxConf
begin

text \<open>
  A typing judgement for the templates: which fields, variables and comparisons a template may use on
  data of a given shape. A template that has a type is executed on such data without an error; the
  data the controller hands to its templates has the shape \<open>configure_type\<close>.
\<close>

section \<open>Types\<close>

datatype ty =
    StrT
  | IntT
  | BoolT
  | ListT ty
  | StructT "(string \<times> ty) list"
  | NilOr ty   \<comment> \<open>a pointer that may be nil\<close>

fun has_ty :: "ty \<Rightarrow> tval \<Rightarrow> bool" where
  "has_ty StrT v = (case v of TStr s \<Rightarrow> True | _ \<Rightarrow> False)"
| "has_ty IntT v = (case v of TInt k \<Rightarrow> True | _ \<Rightarrow> False)"
| "has_ty BoolT v = (case v of TBool b \<Rightarrow> True | _ \<Rightarrow> False)"
| "has_ty (ListT t) v = (case v of TList xs \<Rightarrow> list_all (has_ty t) xs | _ \<Rightarrow> False)"
| "has_ty (StructT fts) v =
     (case v of
        TStruct fs \<Rightarrow> list_all (\<lambda>(n, t). case map_of fs n of Some w \<Rightarrow> has_ty t w | None \<Rightarrow> False) fts
      | _ \<Rightarrow> False)"
| "has_ty (NilOr t) v = (v = NilPointer \<or> has_ty t v)"

fun ty_fields :: "ty \<Rightarrow> string list \<Rightarrow> ty option" where
  "ty_fields t [] = Some t"
| "ty_fields (StructT fts) (n # ns) = (case map_of fts n of Some t \<Rightarrow> ty_fields t ns | None \<Rightarrow> None)"
| "ty_fields _ (n # ns) = None"

definition comparable :: "ty \<Rightarrow> bool" where
  "comparable t \<longleftrightarrow> t = StrT \<or> t = IntT"

fun ty_expr :: "(string \<times> ty) list \<Rightarrow> ty \<Rightarrow> expr \<Rightarrow> ty option" where
  "ty_expr G d (EChain BDot fs) = ty_fields d fs"
| "ty_expr G d (EChain (BVar x) fs) = (case map_of G x of Some t \<Rightarrow> ty_fields t fs | None \<Rightarrow> None)"
| "ty_expr G d (EStr s) = Some StrT"
| "ty_expr G d (ENum k) = Some IntT"
| "ty_expr G d (ELen e) =
     (case ty_expr G d e of Some StrT \<Rightarrow> Some IntT | Some (ListT t) \<Rightarrow> Some IntT | _ \<Rightarrow> None)"
| "ty_expr G d (EGt a b) =
     (case ty_expr G d a of Some t \<Rightarrow> if comparable t \<and> ty_expr G d b = Some t then Some BoolT else None | None \<Rightarrow> None)"
| "ty_expr G d (EEq a b) =
     (case ty_expr G d a of
        Some t \<Rightarrow> if (comparable t \<or> t = BoolT) \<and> ty_expr G d b = Some t then Some BoolT else None | None \<Rightarrow> None)"
| "ty_expr G d (ENe a b) =
     (case ty_expr G d a of
        Some t \<Rightarrow> if (comparable t \<or> t = BoolT) \<and> ty_expr G d b = Some t then Some BoolT else None | None \<Rightarrow> None)"

fun wt_nodes :: "(string \<times> ty) list \<Rightarrow> ty \<Rightarrow> node list \<Rightarrow> bool" where
  "wt_nodes G d [] = True"
| "wt_nodes G d (NText s # ns) = wt_nodes G d ns"
| "wt_nodes G d (NOut e # ns) = (ty_expr G d e \<noteq> None \<and> wt_nodes G d ns)"
| "wt_nodes G d (NIf e a b # ns) =
     (ty_expr G d e \<noteq> None \<and> wt_nodes G d a \<and> wt_nodes G d b \<and> wt_nodes G d ns)"
| "wt_nodes G d (NRange x e a # ns) =
     (case ty_expr G d e of
        Some (ListT t) \<Rightarrow> wt_nodes ((x, t) # G) t a \<and> wt_nodes G d ns
      | _ \<Rightarrow> False)"
| "wt_nodes G d (NTemplate n # ns) = False"

section \<open>Well-typed templates do not fail\<close>

text \<open>Variables of the types the context gives them.\<close>

definition env_ok :: "(string \<times> ty) list \<Rightarrow> (string \<times> tval) list \<Rightarrow> bool" where
  "env_ok G vars \<longleftrightarrow> (\<forall>x t. map_of G x = Some t \<longrightarrow> (\<exists>v. map_of vars x = Some v \<and> has_ty t v))"

lemma env_ok_Nil [simp]: "env_ok [] vars"
  by (simp add: env_ok_def)

lemma env_ok_Cons: "env_ok G vars \<Longrightarrow> has_ty t v \<Longrightarrow> env_ok ((x, t) # G) ((x, v) # vars)"
  by (auto simp: env_ok_def)

lemma has_ty_inv:
  "has_ty StrT v \<longleftrightarrow> (\<exists>s. v = TStr s)" "has_ty IntT v \<longleftrightarrow> (\<exists>k. v = TInt k)"
  "has_ty BoolT v \<longleftrightarrow> (\<exists>b. v = TBool b)"
  "has_ty (ListT t) v \<longleftrightarrow> (\<exists>xs. v = TList xs \<and> (\<forall>x\<in>set xs. has_ty t x))"
  by (cases v; simp add: list_all_iff)+

declare has_ty.simps(1-4) [simp del]
declare has_ty_inv [simp]

lemma has_ty_field:
  assumes "has_ty (StructT fts) v" and "map_of fts n = Some t"
  shows "\<exists>w. field v n = Inr w \<and> has_ty t w"
proof -
  from assms(1) obtain fs where v: "v = TStruct fs"
    and all: "\<forall>(n, t)\<in>set fts. case map_of fs n of Some w \<Rightarrow> has_ty t w | None \<Rightarrow> False"
    by (cases v) (auto simp: list_all_iff)
  from all map_of_SomeD [OF assms(2)] have "case map_of fs n of Some w \<Rightarrow> has_ty t w | None \<Rightarrow> False" by blast
  then show ?thesis by (auto simp: v split: option.splits)
qed

lemma ty_fields_sound:
  "has_ty t v \<Longrightarrow> ty_fields t fs = Some t' \<Longrightarrow> \<exists>w. TextTemplate.fields v fs = Inr w \<and> has_ty t' w"
proof (induction t fs arbitrary: v rule: ty_fields.induct)
  case (2 fts n ns)
  then obtain t1 where t1: "map_of fts n = Some t1" "ty_fields t1 ns = Some t'" by (auto split: option.splits)
  with has_ty_field [OF 2(2)] obtain w where "field v n = Inr w" "has_ty t1 w" by blast
  with 2(1) [OF t1(1) _ t1(2)] show ?case by auto
qed auto

lemma ty_expr_sound:
  assumes "env_ok G vars" and "has_ty d dot"
  shows "ty_expr G d e = Some t \<Longrightarrow> \<exists>v. eval vars dot e = Inr v \<and> has_ty t v"
proof (induction e arbitrary: t)
  case (EChain b fs)
  show ?case
  proof (cases b)
    case BDot
    with EChain assms ty_fields_sound show ?thesis by simp
  next
    case (BVar x)
    with EChain.prems obtain tx where "map_of G x = Some tx" "ty_fields tx fs = Some t" by (auto split: option.splits)
    moreover from this(1) assms(1) obtain v where "map_of vars x = Some v" "has_ty tx v" unfolding env_ok_def by blast
    ultimately show ?thesis using BVar ty_fields_sound by simp
  qed
next
  case (ELen e)
  then obtain te where te: "ty_expr G d e = Some te" and t: "t = IntT" and k: "te = StrT \<or> (\<exists>u. te = ListT u)"
    by (auto split: option.splits ty.splits)
  from ELen.IH [OF te] obtain v where "eval vars dot e = Inr v" "has_ty te v" by blast
  with k t show ?case by (auto simp: has_ty_inv)
next
  case (EGt a b)
  then obtain u where u: "ty_expr G d a = Some u" "ty_expr G d b = Some u" "comparable u" and t: "t = BoolT"
    by (auto split: option.splits if_splits)
  from EGt.IH(1) [OF u(1)] EGt.IH(2) [OF u(2)] u(3) t show ?case by (auto simp: comparable_def has_ty_inv)
next
  case (EEq a b)
  then obtain u where u: "ty_expr G d a = Some u" "ty_expr G d b = Some u" "comparable u \<or> u = BoolT" and t: "t = BoolT"
    by (auto split: option.splits if_splits)
  from EEq.IH(1) [OF u(1)] EEq.IH(2) [OF u(2)] u(3) t show ?case by (auto simp: comparable_def has_ty_inv)
next
  case (ENe a b)
  then obtain u where u: "ty_expr G d a = Some u" "ty_expr G d b = Some u" "comparable u \<or> u = BoolT" and t: "t = BoolT"
    by (auto split: option.splits if_splits)
  from ENe.IH(1) [OF u(1)] ENe.IH(2) [OF u(2)] u(3) t show ?case by (auto simp: comparable_def has_ty_inv)
qed auto

lemma wt_exec:
  "wt_nodes G d ns \<Longrightarrow> env_ok G vars \<Longrightarrow> has_ty d dot \<Longrightarrow> \<exists>out. exec tr S m vars dot ns = Inr out"
proof (induction G d ns arbitrary: vars dot rule: wt_nodes.induct)
  case (2 G d s ns)
  then obtain out where "exec tr S m vars dot ns = Inr out" by auto
  then show ?case by simp
next
  case (3 G d e ns)
  then obtain t where "ty_expr G d e = Some t" by auto
  from ty_expr_sound [OF 3(3,4) this] obtain v where "eval vars dot e = Inr v" by blast
  moreover obtain out where "exec tr S m vars dot ns = Inr out" using 3 by auto
  ultimately show ?case by simp
next
  case (4 G d e a b ns)
  then obtain t where "ty_expr G d e = Some t" by auto
  from ty_expr_sound [OF 4(5,6) this] obtain v where "eval vars dot e = Inr v" by blast
  moreover obtain oa ob out where "exec tr S m vars dot a = Inr oa" "exec tr S m vars dot b = Inr ob"
      "exec tr S m vars dot ns = Inr out"
    using 4 by simp blast
  ultimately show ?case by simp
next
  case (5 G d x e a ns)
  then obtain t where t: "ty_expr G d e = Some (ListT t)" and a: "wt_nodes ((x, t) # G) t a" and ns: "wt_nodes G d ns"
    by (auto split: option.splits ty.splits)
  from ty_expr_sound [OF 5(4,5) t] obtain ys where ys: "eval vars dot e = Inr (TList ys)" "\<forall>y\<in>set ys. has_ty t y"
    by (auto simp: has_ty_inv)
  have "\<exists>out. exec tr S m ((x, y) # vars) y a = Inr out" if "y \<in> set ys" for y
    using 5(1) [OF t refl a env_ok_Cons [OF 5(4)]] ys(2) that by blast
  then obtain g where "\<And>y. y \<in> set ys \<Longrightarrow> exec tr S m ((x, y) # vars) y a = Inr (g y)" by metis
  then have "emap (\<lambda>y. exec tr S m ((x, y) # vars) y a) ys = Inr (map g ys)" by (rule emap_all_Inr)
  moreover obtain out where "exec tr S m vars dot ns = Inr out" using 5(2) [OF t refl ns 5(4,5)] by blast
  ultimately show ?case using ys(1) by simp
qed auto

section \<open>The data of the controller\<close>

definition strings_type :: ty where "strings_type = ListT StrT"

definition annotations_type :: ty where
  "annotations_type = StructT
     [(''Name'', StrT), (''Namespace'', StrT),
      (''Proxy'', StructT [(''ProxyPath'', StrT), (''ProxyHost'', StrT), (''ProxyTarget'', StrT),
         (''ProxyTargetPath'', StrT), (''ProxySSL'', BoolT), (''ProxyEnableRegex'', BoolT)]),
      (''Rewrite'', StructT [(''RewriteTarget'', StrT), (''EnableRegex'', BoolT)]),
      (''Redirect'', StructT [(''Host'', StrT), (''Path'', StrT)]),
      (''SSLStapling'', StructT [(''SSllStaplingVerify'', BoolT), (''SSlStapling'', BoolT)]),
      (''AllowList'', StructT [(''CIDR'', strings_type)]),
      (''DenyList'', StructT [(''CIDR'', strings_type)]),
      (''AllowCos'', StructT [(''AllowCos'', BoolT)]),
      (''Weight'', StructT [(''SvcList'', strings_type), (''Upstream'', StrT), (''UseWeight'', BoolT), (''SetWeight'', StrT)])]"

definition backend_type :: ty where
  "backend_type = StructT
     [(''Name'', StrT), (''IngName'', StrT), (''NameSpace'', StrT), (''Path'', StrT),
      (''ServiceBackend'', NilOr (StructT [(''Name'', StrT), (''Port'', StructT [(''Name'', StrT), (''Number'', IntT)])])),
      (''Port'', IntT), (''TargetPath'', StrT), (''Annotations'', annotations_type), (''RewritePath'', StrT)]"

definition server_type :: ty where
  "server_type = StructT
     [(''Name'', StrT), (''NameSpace'', StrT), (''HostName'', StrT),
      (''Tls'', StructT [(''TlsKey'', StrT), (''TlsCrt'', StrT), (''TlsNoPass'', BoolT)]),
      (''Paths'', ListT backend_type)]"

definition configure_type :: ty where
  "configure_type = StructT [(''Server'', server_type), (''Annotations'', annotations_type)]"

text \<open>A server, and a configuration, without a nil pointer on the way to the data.\<close>

definition no_nil_paths :: "'a server option \<Rightarrow> bool" where
  "no_nil_paths so \<longleftrightarrow> (case so of Some s \<Rightarrow> None \<notin> set (se_Paths s) | None \<Rightarrow> False)"

lemma strings_ty: "has_ty strings_type (strings_value xs)"
  by (simp add: strings_type_def strings_value_def)

lemma annotations_ty: "has_ty annotations_type (annotations_value a)"
  by (simp add: annotations_type_def annotations_value_def strings_ty)

lemma backend_ty: "has_ty backend_type (backend_value b)"
  by (cases "be_ServiceBackend b")
     (simp_all add: backend_type_def backend_value_def annotations_ty port_value_def pointer_value_def
       service_backend_value_def)

lemma server_ty:
  assumes "None \<notin> set (se_Paths s)"
  shows "has_ty server_type (server_value s)"
proof -
  have "has_ty backend_type (pointer_value backend_value p)" if "p \<in> set (se_Paths s)" for p
  proof -
    from that assms have "p \<noteq> None" by metis
    then obtain b where "p = Some b" by blast
    then show ?thesis using backend_ty by (simp add: pointer_value_def)
  qed
  then show ?thesis by (simp add: server_type_def server_value_def cert_value_def)
qed

lemma configure_ty:
  assumes "no_nil_paths so"
  shows "has_ty configure_type (configure_value (cfg\<lparr>cf_Server := so\<rparr>))"
  using assms server_ty annotations_ty
  by (auto simp: configure_type_def configure_value_def pointer_value_def no_nil_paths_def split: option.splits)

lemma server_text_typed:
  assumes "wt_nodes [] configure_type ns" and "no_nil_paths so"
  shows "\<exists>out. server_text tr (Nodes ns) cfg so = Inr out"
  using wt_exec [OF assms(1) env_ok_Nil configure_ty [OF assms(2)]]
  by (simp add: server_text_def exec_template_def)

end
