(* ===== verification/TemplatePieces.thy ===== *)
theory TemplatePieces
  imports TextTemplate
begin

text \<open>
  Parsing a long template piece by piece: lexing an action does not depend on what comes after it, so
  a template given as its texts and actions parses to what the pieces parse to.
\<close>

section \<open>Lexing with a rest\<close>

lemma at_terminator_append: "at_terminator s \<Longrightarrow> at_terminator (s @ z)"
  by (auto simp: at_terminator_def split: list.splits)

lemma terminator_no_word:
  "at_terminator (c # r) \<Longrightarrow> \<not> is_alpha c \<and> c \<noteq> CHR ''.''"
  by (auto simp: at_terminator_def is_blank_def is_alpha_def less_eq_char_def)

lemma while_append:
  assumes "dropWhile P r \<noteq> []"
  shows "takeWhile P (r @ z) = takeWhile P r" and "dropWhile P (r @ z) = dropWhile P r @ z"
proof -
  from assms obtain x where "x \<in> set r" "\<not> P x" by auto
  then show "takeWhile P (r @ z) = takeWhile P r" "dropWhile P (r @ z) = dropWhile P r @ z"
    by (auto simp: takeWhile_append1 dropWhile_append1)
qed

lemma lex_fields_nil [simp]: "lex_fields [] = ([], [])"
  by (subst lex_fields.simps) simp

lemma nil_no_stop: "\<not> at_terminator (snd (lex_fields []))"
  by (simp add: at_terminator_def)

lemma lex_fields_append:
  "at_terminator (snd (lex_fields s)) \<Longrightarrow> lex_fields (s @ z) = (fst (lex_fields s), snd (lex_fields s) @ z)"
proof (induction s rule: lex_fields.induct)
  case (1 s)
  show ?case
  proof (cases "\<exists>d r. s = CHR ''.'' # d # r \<and> is_alpha d")
    case True
    then obtain d r where s: "s = CHR ''.'' # d # r" "is_alpha d" by blast
    let ?q = "dropWhile is_alnum r"
    have eq: "lex_fields s = ((d # takeWhile is_alnum r) # fst (lex_fields ?q), snd (lex_fields ?q))"
      using s by (subst lex_fields.simps) (simp add: Let_def)
    have stop: "at_terminator (snd (lex_fields ?q))" using 1(2) eq by simp
    then have "?q \<noteq> []" using nil_no_stop by metis
    note w = while_append [OF this, of z]
    have "lex_fields (?q @ z) = (fst (lex_fields ?q), snd (lex_fields ?q) @ z)"
      using 1(1) [OF s(1) refl _ stop] s(2) by simp
    then show ?thesis unfolding eq using s by (subst lex_fields.simps) (simp add: Let_def w)
  next
    case False
    then have eq: "lex_fields s = ([], s)"
      by (subst lex_fields.simps) (auto split: list.split)
    with 1(2) have "at_terminator s" by simp
    then obtain c r where "s = c # r" "c \<noteq> CHR ''.''"
      using terminator_no_word by (cases s) (auto simp: at_terminator_def)
    then have "lex_fields (s @ z) = ([], s @ z)"
      by (subst lex_fields.simps) (auto split: list.split)
    with eq show ?thesis by simp
  qed
qed


abbreviation in_quotes :: "char \<Rightarrow> bool" where
  "in_quotes x \<equiv> x \<notin> {CHR 0x22, CHR 0x5C, CHR 0x0A}"

lemma alpha_chars: "is_alpha c \<Longrightarrow> c \<notin> {CHR ''('', CHR '':'', CHR '')'', CHR 0x22}"
  by (auto simp: is_alpha_def less_eq_char_def)

lemma digit_chars: "is_digit c \<Longrightarrow> \<not> is_alpha c \<and> c \<notin> {CHR ''('', CHR '':'', CHR '')'', CHR 0x22, CHR ''.'', CHR ''$''}"
  by (auto simp: is_alpha_def less_eq_char_def is_digit_def)

lemma lex_token_first:
  "lex_token (CHR ''('' # r) = Some (KOpen, r)"
  "lex_token (CHR '':'' # r) = (if has_prefix r ''='' then Some (KDecl, tl r) else None)"
  "lex_token (CHR '')'' # r) = (if at_terminator r then Some (KClose, r) else None)"
  "lex_token (CHR 0x22 # r) =
     (if has_prefix (dropWhile in_quotes r) [CHR 0x22] \<and> at_terminator (tl (dropWhile in_quotes r))
      then Some (KStr (takeWhile in_quotes r), tl (dropWhile in_quotes r)) else None)"
  "lex_token (CHR ''.'' # r) =
     (if fst (lex_fields (CHR ''.'' # r)) = []
      then (if at_terminator r then Some (KChain BDot [], r) else None)
      else (if at_terminator (snd (lex_fields (CHR ''.'' # r)))
            then Some (KChain BDot (fst (lex_fields (CHR ''.'' # r))), snd (lex_fields (CHR ''.'' # r))) else None))"
  "lex_token (CHR ''$'' # r) =
     (if takeWhile is_alnum r \<noteq> [] \<and> at_terminator (snd (lex_fields (dropWhile is_alnum r)))
      then Some (KChain (BVar (takeWhile is_alnum r)) (fst (lex_fields (dropWhile is_alnum r))),
                 snd (lex_fields (dropWhile is_alnum r))) else None)"
  "is_alpha c \<Longrightarrow> lex_token (c # r) =
     (if at_terminator (dropWhile is_alnum r) then Some (KIdent (c # takeWhile is_alnum r), dropWhile is_alnum r) else None)"
  "is_digit c \<Longrightarrow> lex_token (c # r) =
     (if (c \<noteq> CHR ''0'' \<or> takeWhile is_digit r = []) \<and> at_terminator (dropWhile is_digit r)
      then Some (KNum (int (digits_value (c # takeWhile is_digit r))), dropWhile is_digit r) else None)"
  "\<not> is_alpha c \<Longrightarrow> \<not> is_digit c \<Longrightarrow> c \<notin> {CHR ''('', CHR '':'', CHR '')'', CHR 0x22, CHR ''.'', CHR ''$''} \<Longrightarrow>
     lex_token (c # r) = None"
          apply (simp add: lex_token_def)
         apply (simp add: lex_token_def Let_def is_alpha_def less_eq_char_def is_digit_def)
        apply (simp add: lex_token_def Let_def)
       apply (simp add: lex_token_def Let_def)
      apply (simp add: lex_token_def Let_def is_alpha_def less_eq_char_def is_digit_def)
     apply (simp add: lex_token_def Let_def is_alpha_def less_eq_char_def is_digit_def)
    apply (frule alpha_chars, simp add: lex_token_def Let_def)
   apply (frule digit_chars, simp add: lex_token_def Let_def)
  apply (simp add: lex_token_def Let_def)
  done

lemma lex_token_append:
  assumes "lex_token s = Some (t, rest)"
  shows "lex_token (s @ z) = Some (t, rest @ z)"
proof -
  from assms obtain c r where s: "s = c # r" by (cases s) (simp_all add: lex_token_def)
  have nn: "at_terminator x \<Longrightarrow> x \<noteq> []" for x by (auto simp: at_terminator_def)
  consider "c = CHR ''(''" | "c = CHR '':''" | "c = CHR '')''" | "c = CHR 0x22" | "is_alpha c" | "c = CHR ''.''"
    | "c = CHR ''$''" | "is_digit c"
    using assms s lex_token_first(9) [of c r] by fastforce
  then show ?thesis
  proof cases
    case 1
    with assms s show ?thesis by (simp add: lex_token_first)
  next
    case 2
    with assms s show ?thesis by (cases r) (auto simp: lex_token_first has_prefix_def split: if_splits)
  next
    case 3
    with assms s show ?thesis by (auto simp: lex_token_first at_terminator_append split: if_splits)
  next
    case 4
    define P where "P = (\<lambda>x. x \<notin> {CHR 0x22, CHR 0x5C, CHR 0x0A})"
    have eq: "lex_token (CHR 0x22 # q) = (if has_prefix (dropWhile P q) [CHR 0x22] \<and> at_terminator (tl (dropWhile P q))
        then Some (KStr (takeWhile P q), tl (dropWhile P q)) else None)" for q
      unfolding P_def by (rule lex_token_first(4))
    from assms have *: "has_prefix (dropWhile P r) [CHR 0x22]" "at_terminator (tl (dropWhile P r))"
        "t = KStr (takeWhile P r)" "rest = tl (dropWhile P r)"
      unfolding s 4 eq by (auto split: if_splits)
    then have ne: "dropWhile P r \<noteq> []" by (auto simp: has_prefix_def simp del: dropWhile_eq_Nil_conv)
    with * show ?thesis
      unfolding s 4 append_Cons eq while_append [OF ne]
      by (cases "dropWhile P r") (auto simp: has_prefix_def at_terminator_append)
  next
    case 5
    with assms s have *: "at_terminator (dropWhile is_alnum r)" "t = KIdent (c # takeWhile is_alnum r)" "rest = dropWhile is_alnum r"
      by (auto simp: lex_token_first split: if_splits)
    from while_append [OF nn [OF *(1)]] * show ?thesis
      unfolding s append_Cons lex_token_first(7) [OF 5] by (simp add: at_terminator_append)
  next
    case 6
    show ?thesis
    proof (cases "fst (lex_fields s) = []")
      case True
      with assms s 6 have *: "at_terminator r" "t = KChain BDot []" "rest = r"
        by (auto simp: lex_token_first split: if_splits)
      then obtain d q where "r = d # q" "\<not> is_alpha d"
        using terminator_no_word by (cases r) (auto simp: at_terminator_def)
      then have "lex_fields (s @ z) = ([], s @ z)" unfolding s by (subst lex_fields.simps) simp
      with * 6 show ?thesis by (simp add: s lex_token_first at_terminator_append)
    next
      case False
      with assms s 6 have *: "at_terminator (snd (lex_fields s))" "t = KChain BDot (fst (lex_fields s))" "rest = snd (lex_fields s)"
        by (auto simp: lex_token_first split: if_splits)
      from lex_fields_append [OF *(1), of z] * False 6 show ?thesis
        by (simp add: s lex_token_first at_terminator_append)
    qed
  next
    case 7
    let ?q = "dropWhile is_alnum r"
    from assms s 7 have *: "takeWhile is_alnum r \<noteq> []" "at_terminator (snd (lex_fields ?q))"
        "t = KChain (BVar (takeWhile is_alnum r)) (fst (lex_fields ?q))" "rest = snd (lex_fields ?q)"
      by (auto simp: lex_token_first split: if_splits)
    then have "?q \<noteq> []" using nil_no_stop by metis
    from while_append [OF this, of z] lex_fields_append [OF *(2), of z] * 7 show ?thesis
      by (simp add: s lex_token_first at_terminator_append)
  next
    case 8
    with assms s have *: "at_terminator (dropWhile is_digit r)" "c \<noteq> CHR ''0'' \<or> takeWhile is_digit r = []"
        "t = KNum (int (digits_value (c # takeWhile is_digit r)))" "rest = dropWhile is_digit r"
      by (auto simp: lex_token_first split: if_splits)
    from while_append [OF nn [OF *(1)]] * show ?thesis
      unfolding s append_Cons lex_token_first(8) [OF 8] by (simp add: at_terminator_append)
  qed
qed

lemma lex_action_append:
  "lex_action n s = Some (ts, rest) \<Longrightarrow> lex_action n (s @ z) = Some (ts, rest @ z)"
proof (induction n s arbitrary: ts rest rule: lex_action.induct)
  case (2 x n s)
  from 2(3) obtain c r where s: "s = c # r" by (cases s) simp_all
  show ?case
  proof (cases "c = CHR ''}''")
    case True
    with 2(3) s show ?thesis by (cases r) (auto simp: has_prefix_def split: if_splits)
  next
    case close: False
    show ?thesis
    proof (cases "is_blank c")
      case True
      with 2(1) [OF s close True] 2(3) s close show ?thesis by simp
    next
      case False
      with 2(3) s close obtain t q where t: "lex_token s = Some (t, q)" by (auto split: option.splits)
      with 2(3) s close False obtain us where us: "lex_action n q = Some (us, rest)" "ts = t # us"
        by (auto split: option.splits)
      from 2(2) [OF s close False t refl us(1)] lex_token_append [OF t, of z] us(2) close False s
      show ?thesis by simp
    qed
  qed
qed simp

lemma lex_action_fuel:
  "lex_action n s = Some x \<Longrightarrow> length n \<le> length m \<Longrightarrow> lex_action m s = Some x"
proof (induction n s arbitrary: x m rule: lex_action.induct)
  case (2 y n s)
  then obtain y' m' where m: "m = y' # m'" "length n \<le> length m'" by (cases m) auto
  from 2(3) obtain c r where s: "s = c # r" by (cases s) simp_all
  show ?case
  proof (cases "c = CHR ''}''")
    case close: False
    show ?thesis
    proof (cases "is_blank c")
      case True
      with 2(1) [OF s close True _ m(2)] 2(3) s m(1) close show ?thesis by simp
    next
      case False
      with 2(3) s close obtain t q where t: "lex_token s = Some (t, q)" by (auto split: option.splits)
      with 2(3) s close False obtain us rest where us: "lex_action n q = Some (us, rest)" "x = (t # us, rest)"
        by (auto split: option.splits)
      from 2(2) [OF s close False t refl us(1) m(2)] t us(2) close False s m(1)
      show ?thesis by simp
    qed
  qed (use 2(3) s m in simp)
qed simp

section \<open>Pieces\<close>

definition action_tokens :: "string \<Rightarrow> token list option" where
  "action_tokens a = (case lex_action (a @ ''}}'') (a @ ''}}'') of Some (ts, []) \<Rightarrow> Some ts | _ \<Rightarrow> None)"

lemma lex_action_tokens:
  assumes "action_tokens a = Some ts"
  shows "lex_action (a @ ''}}'' @ rest) (a @ ''}}'' @ rest) = Some (ts, rest)"
proof -
  from assms have "lex_action (a @ ''}}'') (a @ ''}}'') = Some (ts, [])"
    by (auto simp: action_tokens_def split: option.splits prod.splits list.splits)
  from lex_action_append [OF this, of rest] have "lex_action (a @ ''}}'') (a @ ''}}'' @ rest) = Some (ts, rest)"
    by simp
  then show ?thesis by (rule lex_action_fuel) simp
qed

fun no_open :: "string \<Rightarrow> bool" where
  "no_open (c # d # r) = (\<not> (c = CHR ''{'' \<and> d = CHR ''{'') \<and> no_open (d # r))"
| "no_open _ = True"

lemma no_open_plain: "no_open s \<Longrightarrow> plain_text s"
proof (induction s rule: no_open.induct)
  case (1 c d r)
  show ?case
    unfolding plain_text_def
  proof (intro notI, elim exE)
    fix a b assume ab: "c # d # r = a @ ''{{'' @ b"
    show False
    proof (cases a)
      case Nil
      with ab 1(2) show ?thesis by simp
    next
      case (Cons x a')
      with ab have "d # r = a' @ ''{{'' @ b" by simp
      moreover have "plain_text (d # r)" using 1 by simp
      ultimately show ?thesis unfolding plain_text_def by blast
    qed
  qed
qed (auto simp: plain_text_def Cons_eq_append_conv)

text \<open>A template as its texts and actions, and the items it lexes to.\<close>

fun pieces_text :: "(string \<times> string) list \<Rightarrow> string \<Rightarrow> string" where
  "pieces_text [] fin = fin"
| "pieces_text ((t, a) # ps) fin = t @ ''{{'' @ a @ ''}}'' @ pieces_text ps fin"

fun pieces_items :: "(string \<times> string) list \<Rightarrow> string \<Rightarrow> item list option" where
  "pieces_items [] fin = (if no_open fin then Some [IText fin] else None)"
| "pieces_items ((t, a) # ps) fin =
     (if no_open (t @ ''{'')
      then (case action_tokens a of
              None \<Rightarrow> None
            | Some ts \<Rightarrow>
                (case pieces_items ps fin of None \<Rightarrow> None | Some is \<Rightarrow> Some (IText t # IAct ts # is)))
      else None)"

lemma lex_items_pieces:
  "pieces_items ps fin = Some its \<Longrightarrow> length ps < length n \<Longrightarrow> lex_items n (pieces_text ps fin) = Some its"
proof (induction ps fin arbitrary: its n rule: pieces_items.induct)
  case (1 fin)
  then obtain x m where "n = x # m" by (cases n) auto
  with 1 show ?case by (auto simp: split_open_plain no_open_plain split: if_splits)
next
  case (2 t a ps fin)
  from 2(3) obtain x m where n: "n = x # m" "length ps < length m" by (cases n) auto
  from 2(2) obtain ts js where t: "no_open (t @ ''{'')" and ts: "action_tokens a = Some ts"
    and js: "pieces_items ps fin = Some js" and eqs: "its = IText t # IAct ts # js"
    by (auto split: if_splits option.splits)
  have "split_open (t @ ''{{'' @ a @ ''}}'' @ pieces_text ps fin) = (t, Some (a @ ''}}'' @ pieces_text ps fin))"
    using no_open_plain [OF t] by (rule split_open_found)
  moreover note lex_action_tokens [OF ts, of "pieces_text ps fin"] 2(1) [OF t ts js n(2)]
  ultimately show ?case unfolding pieces_text.simps n(1) lex_items.simps by (simp add: eqs)
qed

lemma pieces_length: "length ps \<le> length (pieces_text ps fin)"
  by (induction ps fin rule: pieces_text.induct) auto

lemma parse_pieces:
  assumes "pieces_items ps fin = Some its" and "p_items its ([], []) = Some (ns, [])"
  shows "parse_nodes (pieces_text ps fin) = Some ns"
proof -
  have "lex_items (CHR 0x00 # pieces_text ps fin) (pieces_text ps fin) = Some its"
    using assms(1) by (rule lex_items_pieces) (simp add: pieces_length less_Suc_eq_le)
  with assms(2) show ?thesis by (simp add: parse_nodes_def)
qed

lemma pieces_items_Nil: "no_open fin \<Longrightarrow> pieces_items [] fin = Some [IText fin]"
  by simp

lemma pieces_items_Cons:
  "no_open (t @ ''{'') \<Longrightarrow> action_tokens a = Some ts \<Longrightarrow> pieces_items ps fin = Some its \<Longrightarrow>
   pieces_items ((t, a) # ps) fin = Some (IText t # IAct ts # its)"
  by simp


text \<open>Parsing the items one at a time, with the variables in scope.\<close>

definition scope :: "(ctl \<times> node list) list \<Rightarrow> string list" where
  "scope st = concat (map (ctl_vars \<circ> fst) st)"

lemma p_items_text: "t \<noteq> [] \<Longrightarrow> p_items its (acc @ [NText t], st) = R \<Longrightarrow> p_items (IText t # its) (acc, st) = R"
  by simp

lemma p_items_end:
  "p_items its (outer @ [close_ctl c acc], st) = R \<Longrightarrow> p_items (IAct [KIdent ''end''] # its) (acc, (c, outer) # st) = R"
  by simp

lemma p_items_else:
  "p_items its ([], (CElse e acc, outer) # st) = R \<Longrightarrow>
   p_items (IAct [KIdent ''else''] # its) (acc, (CIf e, outer) # st) = R"
  by simp

lemma p_items_if:
  "p_pipeline (scope st) ts = Some e \<Longrightarrow> p_items its ([], (CIf e, acc) # st) = R \<Longrightarrow>
   p_items (IAct (KIdent ''if'' # ts) # its) (acc, st) = R"
  by (simp add: scope_def)

lemma p_items_range:
  "p_pipeline (scope st) ts = Some e \<Longrightarrow> p_items its ([], (CRange v e, acc) # st) = R \<Longrightarrow>
   p_items (IAct (KIdent ''range'' # KChain (BVar v) [] # KDecl # ts) # its) (acc, st) = R"
  by (simp add: scope_def)

lemma p_items_out:
  "p_pipeline (scope st) (KChain b fs # ts) = Some e \<Longrightarrow> p_items its (acc @ [NOut e], st) = R \<Longrightarrow>
   p_items (IAct (KChain b fs # ts) # its) (acc, st) = R"
  by (simp add: scope_def)

end
