(* ===== verification/ServerTemplate.thy ===== *)
theory ServerTemplate
  imports TemplateTypes TemplatePieces
begin

text \<open>
  The template of a server, \<^verbatim>\<open>rootfs/etc/nginx/template/server.tmpl\<close>, and what follows from
  its text for every server the controller renders with it: it parses to \<open>server_nodes\<close>, these are
  well-typed on the data of the controller, and executing them prints \<open>server_page\<close>.
\<close>

section \<open>The text\<close>

definition lines :: "string list \<Rightarrow> string" where
  "lines ls = join_with [CHR 0x0A] ls"

definition server_listen :: string where
  "server_listen = lines
    ['';'',
     ''    listen       80;'',
     ''    listen  [::]:80;'',
     ''    listen       443 ssl;'',
     ''    listen  [::]:443 ssl;'',
     [],
     ''    ### tls'',
     ''    '']"

definition server_tls :: string where
  "server_tls = lines
    ['';'',
     ''    ssl_protocols TLSv1 TLSv1.1 TLSv1.2;'',
     ''    ssl_ciphers EECDH+CHACHA20:EECDH+AES128:RSA+AES128:EECDH+AES256:RSA+AES256:EECDH+3DES:RSA+3DES:!MD5;'',
     ''    ssl_prefer_server_ciphers on;'',
     ''    ssl_session_timeout 10m;'',
     ''    ssl_session_cache builtin:1000 shared:SSL:10m;'',
     ''    ssl_buffer_size 1400;'',
     ''    add_header Strict-Transport-Security max-age=15768000;'',
     ''    '']"

definition server_cos :: string where
  "server_cos = lines
    [[],
     ''    add_header '' @ [CHR 0x27] @ ''Access-Control-Allow-Origin'' @ [CHR 0x27] @ '' '' @ [CHR 0x27] @ ''*'' @ [CHR 0x27] @ '';'',
     ''    add_header '' @ [CHR 0x27] @ ''Access-Control-Allow-Methods'' @ [CHR 0x27] @ '' '' @ [CHR 0x27] @ ''GET, POST, OPTIONS'' @ [CHR 0x27] @ '';'',
     ''    add_header '' @ [CHR 0x27] @ ''Access-Control-Allow-Headers'' @ [CHR 0x27] @ '' '' @ [CHR 0x27] @ ''DNT,User-Agent,X-Requested-With,If-Modified-Since,Cache-Control,Content-Type,Range,xfilecategory,xfilename,xfilesize'' @ [CHR 0x27] @ '';'',
     ''    add_header '' @ [CHR 0x27] @ ''Access-Control-Expose-Headers'' @ [CHR 0x27] @ '' '' @ [CHR 0x27] @ ''Content-Length,Content-Range'' @ [CHR 0x27] @ '';'',
     ''    if ($request_method = '' @ [CHR 0x27] @ ''OPTIONS'' @ [CHR 0x27] @ '') {'',
     ''        return 204;'',
     ''    }'',
     ''    '']"

definition proxy_headers :: string where
  "proxy_headers = lines
    [[],
     [],
     ''    '' @ [CHR 0x09] @ ''set $best_http_host      $http_host;'',
     ''        set $pass_server_port    $server_port;'',
     ''        set $pass_port           $pass_server_port;'',
     ''        set $pass_access_scheme  $scheme;'',
     [],
     ''        # Allow websocket connections'',
     ''        proxy_set_header Upgrade $http_upgrade;'',
     ''        proxy_set_header Connection '' @ [CHR 0x22] @ ''upgrade'' @ [CHR 0x22] @ '';'',
     [],
     ''        proxy_set_header X-Real-IP $remote_addr;'',
     ''        proxy_set_header X-Forwarded-For $proxy_add_x_forwarded_for;'',
     ''        proxy_set_header X-Forwarded-For        $remote_addr;'',
     ''        proxy_set_header X-Forwarded-Host       $best_http_host;'',
     ''        proxy_set_header X-Forwarded-Port       $pass_port;'',
     ''        proxy_set_header X-Forwarded-Proto      $pass_access_scheme;'',
     ''        proxy_set_header X-Forwarded-Scheme     $pass_access_scheme;'',
     ''        proxy_set_header X-Scheme               $pass_access_scheme;'',
     ''        # Pass the original X-Forwarded-For'',
     ''        proxy_set_header X-Original-Forwarded-For $http_x_forwarded_for;'',
     [],
     ''        # Custom headers to proxied server'',
     [],
     ''        proxy_connect_timeout                   5s;'',
     ''        proxy_send_timeout                      60s;'',
     ''        proxy_read_timeout                      60s;'',
     [],
     ''        proxy_buffering                         off;'',
     ''        proxy_buffer_size                       4k;'',
     ''        proxy_buffers                           4 4k;'',
     [],
     ''        proxy_max_temp_file_size                1024m;'',
     [],
     ''        proxy_request_buffering                 on;'',
     ''        proxy_http_version                      1.1;'',
     [],
     ''        proxy_cookie_domain                     off;'',
     ''        proxy_cookie_path                       off;'',
     [],
     ''        # In case of errors try the next upstream server before returning an error'',
     ''        proxy_next_upstream                     error timeout;'',
     ''        proxy_next_upstream_timeout             0;'',
     ''        proxy_next_upstream_tries               3;'',
     ''    '' @ [CHR 0x09]]"

definition location_headers :: string where
  "location_headers = lines
    [[],
     [],
     ''        set $best_http_host      $http_host;'',
     ''        set $pass_server_port    $server_port;'',
     ''        set $pass_port           $pass_server_port;'',
     ''        set $pass_access_scheme  $scheme;'',
     [],
     ''        # Allow websocket connections'',
     ''        proxy_set_header Upgrade $http_upgrade;'',
     ''        proxy_set_header Connection '' @ [CHR 0x22] @ ''upgrade'' @ [CHR 0x22] @ '';'',
     [],
     [],
     ''        proxy_set_header X-Real-IP $remote_addr;'',
     ''        proxy_set_header X-Forwarded-For $proxy_add_x_forwarded_for;'',
     ''        proxy_set_header X-Forwarded-For        $remote_addr;'',
     ''        proxy_set_header X-Forwarded-Host       $best_http_host;'',
     ''        proxy_set_header X-Forwarded-Port       $pass_port;'',
     ''        proxy_set_header X-Forwarded-Proto      $pass_access_scheme;'',
     ''        proxy_set_header X-Forwarded-Scheme     $pass_access_scheme;'',
     ''        proxy_set_header X-Scheme               $pass_access_scheme;'',
     ''        # Pass the original X-Forwarded-For'',
     ''        proxy_set_header X-Original-Forwarded-For $http_x_forwarded_for;'',
     [],
     ''        # Custom headers to proxied server'',
     [],
     ''        proxy_connect_timeout                   5s;'',
     ''        proxy_send_timeout                      60s;'',
     ''        proxy_read_timeout                      60s;'',
     [],
     ''        proxy_buffering                         off;'',
     ''        proxy_buffer_size                       4k;'',
     ''        proxy_buffers                           4 4k;'',
     [],
     ''        proxy_max_temp_file_size                1024m;'',
     [],
     ''        proxy_request_buffering                 on;'',
     ''        proxy_http_version                      1.1;'',
     [],
     ''        proxy_cookie_domain                     off;'',
     ''        proxy_cookie_path                       off;'',
     [],
     ''        # In case of errors try the next upstream server before returning an error'',
     ''        proxy_next_upstream                     error timeout;'',
     ''        proxy_next_upstream_timeout             0;'',
     ''        proxy_next_upstream_tries               3;'',
     ''        '']"

definition server_pieces :: "(string \<times> string) list" where
  "server_pieces =
     [(''## start '', '' .Server.HostName ''),
      (lines [[], [], []], '' if .Annotations.Weight.UseWeight ''),
      (lines [[], ''upstream ''], '' .Annotations.Weight.Upstream ''),
      (lines ['' {'', ''    ''], '' range $backend := .Annotations.Weight.SvcList ''),
      (lines [[], ''    server ''], '' $backend ''),
      (lines ['';'', ''    ''], '' end ''),
      (lines [[], ''}'', []], '' else ''),
      (lines [[], []], '' if gt (len .Server.Paths) 0 ''),
      (lines [[], []], '' range $backend := .Server.Paths ''),
      (lines [[], ''upstream ''], '' $backend.Name ''),
      (''-'', '' $backend.IngName ''),
      (''-'', '' $backend.NameSpace ''),
      (lines ['' {'', ''    server ''], '' $backend.Name ''),
      (''.'', '' $backend.NameSpace ''),
      (''.svc:'', '' $backend.Port ''),
      (lines ['';'', ''}'', []], '' end ''),
      (lines [[], []], '' end ''),
      (lines [[], []], '' end ''),
      (lines [[], [], ''server {'', ''    server_name ''], '' .Server.HostName ''),
      (server_listen, '' if .Server.Tls.TlsNoPass ''),
      (lines [[], ''    ssl_certificate ''], '' .Server.Tls.TlsCrt ''),
      (lines ['';'', ''    ssl_certificate_key ''], '' .Server.Tls.TlsKey ''),
      (server_tls, '' if .Annotations.SSLStapling.SSlStapling ''),
      (lines [[], ''    ssl_stapling on;'', ''    ''], '' end ''),
      (lines [[], ''    ''], '' if .Annotations.SSLStapling.SSllStaplingVerify ''),
      (lines [[], ''    ssl_stapling_verify on;'', ''    ''], '' end ''),
      (lines [[], ''    ''], '' end ''),
      (lines [[], [], ''    ### ip allow list'', ''    ''], '' if gt (len .Annotations.AllowList.CIDR) 0 ''),
      (lines [[], ''    ''], '' range $ip := .Annotations.AllowList.CIDR ''),
      (lines [[], ''    allow ''], '' $ip ''),
      (lines ['';'', ''    ''], '' end ''),
      (lines [[], ''    deny all;'', ''    ''], '' end ''),
      (lines [[], [], ''    ### ip deny list'', ''    ''], '' if gt (len .Annotations.DenyList.CIDR) 0 ''),
      (lines [[], ''    ''], '' range $ip := .Annotations.DenyList.CIDR ''),
      (lines [[], ''    deny ''], '' $ip ''),
      (lines ['';'', ''    ''], '' end ''),
      (lines [[], ''    allow all;'', ''    ''], '' end ''),
      (lines [[], [], ''    ### redirect 301'', ''    ''], '' if ne .Annotations.Redirect.Path '' @ [CHR 0x22] @ [CHR 0x22] @ '' ''),
      (lines [[], ''    location ''], ''.Annotations.Redirect.Path''),
      (lines ['' {'', ''        return 301 http://''], ''.Annotations.Redirect.Host''),
      (lines ['';'', ''    }'', ''    ''], '' end ''),
      (lines [[], [], ''    # allow cos'', ''    ''], '' if .Annotations.AllowCos.AllowCos ''),
      (server_cos, '' end ''),
      (lines [[], [], ''    #### proxy external cluster server'', ''    ''], '' if ne .Annotations.Proxy.ProxyPath '' @ [CHR 0x22] @ [CHR 0x22] @ '' ''),
      (lines [[], ''    location ''], '' .Annotations.Proxy.ProxyPath ''),
      (lines ['' {'', ''    '' @ [CHR 0x09]], '' if ne .Annotations.Proxy.ProxyTarget '' @ [CHR 0x22] @ [CHR 0x22] @ '' ''),
      (lines [[], ''    '' @ [CHR 0x09] @ ''rewrite ^''], '' .Annotations.Proxy.ProxyTargetPath ''),
      ('' '', '' .Annotations.Proxy.ProxyTarget ''),
      (lines ['' break;'', ''    '' @ [CHR 0x09]], '' end ''),
      (proxy_headers, '' if .Annotations.Proxy.ProxySSL ''),
      (lines [[], ''    '' @ [CHR 0x09] @ ''proxy_pass https://''], '' .Annotations.Proxy.ProxyHost ''),
      (lines ['';'', ''    '' @ [CHR 0x09]], '' else ''),
      (lines [[], ''    '' @ [CHR 0x09] @ ''proxy_pass http://''], '' .Annotations.Proxy.ProxyHost ''),
      (lines ['';'', ''    '' @ [CHR 0x09]], ''end''),
      (lines [[], ''    '' @ [CHR 0x09] @ ''proxy_redirect                         off;'', ''    }'', ''    ''], '' end ''),
      (lines [[], [], ''    #### backend'', ''    ''], '' if gt (len .Server.Paths) 0 ''),
      (lines [[], ''    ''], '' range $backend := .Server.Paths ''),
      (lines [[], ''     location ''], '' $backend.Path ''),
      (lines ['' {'', ''        ''], '' if ne .Annotations.Rewrite.RewriteTarget  '' @ [CHR 0x22] @ [CHR 0x22] @ '' ''),
      (lines [[], ''        rewrite ^''], '' $backend.TargetPath ''),
      ('' '', '' .Annotations.Rewrite.RewriteTarget ''),
      (lines ['' break;'', ''        ''], '' end ''),
      (location_headers, '' if .Annotations.Weight.UseWeight ''),
      (lines [[], ''        proxy_pass http://''], ''.Annotations.Weight.Upstream''),
      (lines ['';'', ''        ''], '' else ''),
      (lines [[], ''        proxy_pass http://''], '' $backend.Name ''),
      (''-'', '' $backend.IngName ''),
      (''-'', '' $backend.NameSpace ''),
      (lines ['';'', ''        ''], '' end ''),
      (lines [[], [], ''        proxy_redirect                         off;'', ''    }'', ''    ''], '' end ''),
      (lines [[], ''    ''], '' end ''),
      (lines [[], ''}'', ''## end ''], '' .Server.HostName '')]"

definition server_end :: string where
  "server_end = lines [[], []]"

definition server_tmpl :: string where
  "server_tmpl = pieces_text server_pieces server_end"

text \<open>What it parses to.\<close>

definition weight_nodes :: "node list" where
  "weight_nodes =
    [NText (lines [[], ''upstream '']),
    NOut (EChain BDot [''Annotations'', ''Weight'', ''Upstream'']),
    NText (lines ['' {'', ''    '']),
    NRange ''backend'' (EChain BDot [''Annotations'', ''Weight'', ''SvcList''])
      [NText (lines [[], ''    server '']),
      NOut (EChain (BVar ''backend'') []),
      NText (lines ['';'', ''    ''])],
    NText (lines [[], ''}'', []])]"

definition upstream_nodes :: "node list" where
  "upstream_nodes =
    [NText (lines [[], ''upstream '']),
    NOut (EChain (BVar ''backend'') [''Name'']),
    NText (''-''),
    NOut (EChain (BVar ''backend'') [''IngName'']),
    NText (''-''),
    NOut (EChain (BVar ''backend'') [''NameSpace'']),
    NText (lines ['' {'', ''    server '']),
    NOut (EChain (BVar ''backend'') [''Name'']),
    NText (''.''),
    NOut (EChain (BVar ''backend'') [''NameSpace'']),
    NText (''.svc:''),
    NOut (EChain (BVar ''backend'') [''Port'']),
    NText (lines ['';'', ''}'', []])]"

definition tls_nodes :: "node list" where
  "tls_nodes =
    [NText (lines [[], ''    ssl_certificate '']),
    NOut (EChain BDot [''Server'', ''Tls'', ''TlsCrt'']),
    NText (lines ['';'', ''    ssl_certificate_key '']),
    NOut (EChain BDot [''Server'', ''Tls'', ''TlsKey'']),
    NText server_tls,
    NIf (EChain BDot [''Annotations'', ''SSLStapling'', ''SSlStapling''])
      [NText (lines [[], ''    ssl_stapling on;'', ''    ''])]
      [],
    NText (lines [[], ''    '']),
    NIf (EChain BDot [''Annotations'', ''SSLStapling'', ''SSllStaplingVerify''])
      [NText (lines [[], ''    ssl_stapling_verify on;'', ''    ''])]
      [],
    NText (lines [[], ''    ''])]"

definition redirect_nodes :: "node list" where
  "redirect_nodes =
    [NText (lines [[], ''    location '']),
    NOut (EChain BDot [''Annotations'', ''Redirect'', ''Path'']),
    NText (lines ['' {'', ''        return 301 http://'']),
    NOut (EChain BDot [''Annotations'', ''Redirect'', ''Host'']),
    NText (lines ['';'', ''    }'', ''    ''])]"

definition proxy_nodes :: "node list" where
  "proxy_nodes =
    [NText (lines [[], ''    location '']),
    NOut (EChain BDot [''Annotations'', ''Proxy'', ''ProxyPath'']),
    NText (lines ['' {'', ''    '' @ [CHR 0x09]]),
    NIf (ENe (EChain BDot [''Annotations'', ''Proxy'', ''ProxyTarget'']) (EStr []))
      [NText (lines [[], ''    '' @ [CHR 0x09] @ ''rewrite ^'']),
      NOut (EChain BDot [''Annotations'', ''Proxy'', ''ProxyTargetPath'']),
      NText ('' ''),
      NOut (EChain BDot [''Annotations'', ''Proxy'', ''ProxyTarget'']),
      NText (lines ['' break;'', ''    '' @ [CHR 0x09]])]
      [],
    NText proxy_headers,
    NIf (EChain BDot [''Annotations'', ''Proxy'', ''ProxySSL''])
      [NText (lines [[], ''    '' @ [CHR 0x09] @ ''proxy_pass https://'']),
      NOut (EChain BDot [''Annotations'', ''Proxy'', ''ProxyHost'']),
      NText (lines ['';'', ''    '' @ [CHR 0x09]])]
      [NText (lines [[], ''    '' @ [CHR 0x09] @ ''proxy_pass http://'']),
      NOut (EChain BDot [''Annotations'', ''Proxy'', ''ProxyHost'']),
      NText (lines ['';'', ''    '' @ [CHR 0x09]])],
    NText (lines [[], ''    '' @ [CHR 0x09] @ ''proxy_redirect                         off;'', ''    }'', ''    ''])]"

definition location_nodes :: "node list" where
  "location_nodes =
    [NText (lines [[], ''     location '']),
    NOut (EChain (BVar ''backend'') [''Path'']),
    NText (lines ['' {'', ''        '']),
    NIf (ENe (EChain BDot [''Annotations'', ''Rewrite'', ''RewriteTarget'']) (EStr []))
      [NText (lines [[], ''        rewrite ^'']),
      NOut (EChain (BVar ''backend'') [''TargetPath'']),
      NText ('' ''),
      NOut (EChain BDot [''Annotations'', ''Rewrite'', ''RewriteTarget'']),
      NText (lines ['' break;'', ''        ''])]
      [],
    NText location_headers,
    NIf (EChain BDot [''Annotations'', ''Weight'', ''UseWeight''])
      [NText (lines [[], ''        proxy_pass http://'']),
      NOut (EChain BDot [''Annotations'', ''Weight'', ''Upstream'']),
      NText (lines ['';'', ''        ''])]
      [NText (lines [[], ''        proxy_pass http://'']),
      NOut (EChain (BVar ''backend'') [''Name'']),
      NText (''-''),
      NOut (EChain (BVar ''backend'') [''IngName'']),
      NText (''-''),
      NOut (EChain (BVar ''backend'') [''NameSpace'']),
      NText (lines ['';'', ''        ''])],
    NText (lines [[], [], ''        proxy_redirect                         off;'', ''    }'', ''    ''])]"

definition server_nodes :: "node list" where
  "server_nodes =
    [NText (''## start ''),
    NOut (EChain BDot [''Server'', ''HostName'']),
    NText (lines [[], [], []]),
    NIf (EChain BDot [''Annotations'', ''Weight'', ''UseWeight''])
      weight_nodes
      [NText (lines [[], []]),
      NIf (EGt (ELen (EChain BDot [''Server'', ''Paths''])) (ENum 0))
        [NText (lines [[], []]),
        NRange ''backend'' (EChain BDot [''Server'', ''Paths''])
          upstream_nodes,
        NText (lines [[], []])]
        [],
      NText (lines [[], []])],
    NText (lines [[], [], ''server {'', ''    server_name '']),
    NOut (EChain BDot [''Server'', ''HostName'']),
    NText server_listen,
    NIf (EChain BDot [''Server'', ''Tls'', ''TlsNoPass''])
      tls_nodes
      [],
    NText (lines [[], [], ''    ### ip allow list'', ''    '']),
    NIf (EGt (ELen (EChain BDot [''Annotations'', ''AllowList'', ''CIDR''])) (ENum 0))
      [NText (lines [[], ''    '']),
      NRange ''ip'' (EChain BDot [''Annotations'', ''AllowList'', ''CIDR''])
        [NText (lines [[], ''    allow '']),
        NOut (EChain (BVar ''ip'') []),
        NText (lines ['';'', ''    ''])],
      NText (lines [[], ''    deny all;'', ''    ''])]
      [],
    NText (lines [[], [], ''    ### ip deny list'', ''    '']),
    NIf (EGt (ELen (EChain BDot [''Annotations'', ''DenyList'', ''CIDR''])) (ENum 0))
      [NText (lines [[], ''    '']),
      NRange ''ip'' (EChain BDot [''Annotations'', ''DenyList'', ''CIDR''])
        [NText (lines [[], ''    deny '']),
        NOut (EChain (BVar ''ip'') []),
        NText (lines ['';'', ''    ''])],
      NText (lines [[], ''    allow all;'', ''    ''])]
      [],
    NText (lines [[], [], ''    ### redirect 301'', ''    '']),
    NIf (ENe (EChain BDot [''Annotations'', ''Redirect'', ''Path'']) (EStr []))
      redirect_nodes
      [],
    NText (lines [[], [], ''    # allow cos'', ''    '']),
    NIf (EChain BDot [''Annotations'', ''AllowCos'', ''AllowCos''])
      [NText server_cos]
      [],
    NText (lines [[], [], ''    #### proxy external cluster server'', ''    '']),
    NIf (ENe (EChain BDot [''Annotations'', ''Proxy'', ''ProxyPath'']) (EStr []))
      proxy_nodes
      [],
    NText (lines [[], [], ''    #### backend'', ''    '']),
    NIf (EGt (ELen (EChain BDot [''Server'', ''Paths''])) (ENum 0))
      [NText (lines [[], ''    '']),
      NRange ''backend'' (EChain BDot [''Server'', ''Paths''])
        location_nodes,
      NText (lines [[], ''    ''])]
      [],
    NText (lines [[], ''}'', ''## end '']),
    NOut (EChain BDot [''Server'', ''HostName'']),
    NText (lines [[], []])]"

section \<open>Parsing it\<close>

lemma no_open_step: "c \<noteq> CHR ''{'' \<Longrightarrow> no_open (c # r) = no_open r"
  by (cases r) simp_all

lemma no_open_single: "no_open [c]" "no_open []"
  by simp_all

lemma no_open_append_line: "no_open a \<Longrightarrow> no_open (CHR 0x0A # b) \<Longrightarrow> no_open (a @ CHR 0x0A # b)"
  by (induction a rule: no_open.induct) simp_all

lemma no_open_lines:
  "list_all no_open ls \<Longrightarrow> no_open (last ls @ z) \<Longrightarrow> ls \<noteq> [] \<Longrightarrow> no_open (lines ls @ z)"
proof (induction ls)
  case (Cons l ls)
  then show ?case by (cases ls) (auto simp: lines_def no_open_step intro: no_open_append_line)
qed simp

lemma lines_not_Nil: "lines (l # m # ls) \<noteq> []"
  by (simp add: lines_def)

lemma long_texts:
  "no_open (server_listen @ ''{'')" "no_open (server_tls @ ''{'')" "no_open (server_cos @ ''{'')"
  "no_open (proxy_headers @ ''{'')" "no_open (location_headers @ ''{'')"
  unfolding server_listen_def server_tls_def server_cos_def proxy_headers_def location_headers_def
  by (rule no_open_lines, code_simp, code_simp, simp)+

lemma long_texts_not_Nil:
  "server_listen \<noteq> []" "server_tls \<noteq> []" "server_cos \<noteq> []" "proxy_headers \<noteq> []" "location_headers \<noteq> []"
  unfolding server_listen_def server_tls_def server_cos_def proxy_headers_def location_headers_def
  by (rule lines_not_Nil)+

lemma server_actions:
  "action_tokens ('' .Server.HostName '') = Some [KChain BDot [''Server'', ''HostName'']]"
  "action_tokens ('' if .Annotations.Weight.UseWeight '') = Some [KIdent ''if'', KChain BDot [''Annotations'', ''Weight'', ''UseWeight'']]"
  "action_tokens ('' .Annotations.Weight.Upstream '') = Some [KChain BDot [''Annotations'', ''Weight'', ''Upstream'']]"
  "action_tokens ('' range $backend := .Annotations.Weight.SvcList '') = Some [KIdent ''range'', KChain (BVar ''backend'') [], KDecl, KChain BDot [''Annotations'', ''Weight'', ''SvcList'']]"
  "action_tokens ('' $backend '') = Some [KChain (BVar ''backend'') []]"
  "action_tokens ('' end '') = Some [KIdent ''end'']"
  "action_tokens ('' else '') = Some [KIdent ''else'']"
  "action_tokens ('' if gt (len .Server.Paths) 0 '') = Some [KIdent ''if'', KIdent ''gt'', KOpen, KIdent ''len'', KChain BDot [''Server'', ''Paths''], KClose, KNum 0]"
  "action_tokens ('' range $backend := .Server.Paths '') = Some [KIdent ''range'', KChain (BVar ''backend'') [], KDecl, KChain BDot [''Server'', ''Paths'']]"
  "action_tokens ('' $backend.Name '') = Some [KChain (BVar ''backend'') [''Name'']]"
  "action_tokens ('' $backend.IngName '') = Some [KChain (BVar ''backend'') [''IngName'']]"
  "action_tokens ('' $backend.NameSpace '') = Some [KChain (BVar ''backend'') [''NameSpace'']]"
  "action_tokens ('' $backend.Port '') = Some [KChain (BVar ''backend'') [''Port'']]"
  "action_tokens ('' if .Server.Tls.TlsNoPass '') = Some [KIdent ''if'', KChain BDot [''Server'', ''Tls'', ''TlsNoPass'']]"
  "action_tokens ('' .Server.Tls.TlsCrt '') = Some [KChain BDot [''Server'', ''Tls'', ''TlsCrt'']]"
  "action_tokens ('' .Server.Tls.TlsKey '') = Some [KChain BDot [''Server'', ''Tls'', ''TlsKey'']]"
  "action_tokens ('' if .Annotations.SSLStapling.SSlStapling '') = Some [KIdent ''if'', KChain BDot [''Annotations'', ''SSLStapling'', ''SSlStapling'']]"
  "action_tokens ('' if .Annotations.SSLStapling.SSllStaplingVerify '') = Some [KIdent ''if'', KChain BDot [''Annotations'', ''SSLStapling'', ''SSllStaplingVerify'']]"
  "action_tokens ('' if gt (len .Annotations.AllowList.CIDR) 0 '') = Some [KIdent ''if'', KIdent ''gt'', KOpen, KIdent ''len'', KChain BDot [''Annotations'', ''AllowList'', ''CIDR''], KClose, KNum 0]"
  "action_tokens ('' range $ip := .Annotations.AllowList.CIDR '') = Some [KIdent ''range'', KChain (BVar ''ip'') [], KDecl, KChain BDot [''Annotations'', ''AllowList'', ''CIDR'']]"
  "action_tokens ('' $ip '') = Some [KChain (BVar ''ip'') []]"
  "action_tokens ('' if gt (len .Annotations.DenyList.CIDR) 0 '') = Some [KIdent ''if'', KIdent ''gt'', KOpen, KIdent ''len'', KChain BDot [''Annotations'', ''DenyList'', ''CIDR''], KClose, KNum 0]"
  "action_tokens ('' range $ip := .Annotations.DenyList.CIDR '') = Some [KIdent ''range'', KChain (BVar ''ip'') [], KDecl, KChain BDot [''Annotations'', ''DenyList'', ''CIDR'']]"
  "action_tokens ('' if ne .Annotations.Redirect.Path '' @ [CHR 0x22] @ [CHR 0x22] @ '' '') = Some [KIdent ''if'', KIdent ''ne'', KChain BDot [''Annotations'', ''Redirect'', ''Path''], KStr []]"
  "action_tokens (''.Annotations.Redirect.Path'') = Some [KChain BDot [''Annotations'', ''Redirect'', ''Path'']]"
  "action_tokens (''.Annotations.Redirect.Host'') = Some [KChain BDot [''Annotations'', ''Redirect'', ''Host'']]"
  "action_tokens ('' if .Annotations.AllowCos.AllowCos '') = Some [KIdent ''if'', KChain BDot [''Annotations'', ''AllowCos'', ''AllowCos'']]"
  "action_tokens ('' if ne .Annotations.Proxy.ProxyPath '' @ [CHR 0x22] @ [CHR 0x22] @ '' '') = Some [KIdent ''if'', KIdent ''ne'', KChain BDot [''Annotations'', ''Proxy'', ''ProxyPath''], KStr []]"
  "action_tokens ('' .Annotations.Proxy.ProxyPath '') = Some [KChain BDot [''Annotations'', ''Proxy'', ''ProxyPath'']]"
  "action_tokens ('' if ne .Annotations.Proxy.ProxyTarget '' @ [CHR 0x22] @ [CHR 0x22] @ '' '') = Some [KIdent ''if'', KIdent ''ne'', KChain BDot [''Annotations'', ''Proxy'', ''ProxyTarget''], KStr []]"
  "action_tokens ('' .Annotations.Proxy.ProxyTargetPath '') = Some [KChain BDot [''Annotations'', ''Proxy'', ''ProxyTargetPath'']]"
  "action_tokens ('' .Annotations.Proxy.ProxyTarget '') = Some [KChain BDot [''Annotations'', ''Proxy'', ''ProxyTarget'']]"
  "action_tokens ('' if .Annotations.Proxy.ProxySSL '') = Some [KIdent ''if'', KChain BDot [''Annotations'', ''Proxy'', ''ProxySSL'']]"
  "action_tokens ('' .Annotations.Proxy.ProxyHost '') = Some [KChain BDot [''Annotations'', ''Proxy'', ''ProxyHost'']]"
  "action_tokens (''end'') = Some [KIdent ''end'']"
  "action_tokens ('' $backend.Path '') = Some [KChain (BVar ''backend'') [''Path'']]"
  "action_tokens ('' if ne .Annotations.Rewrite.RewriteTarget  '' @ [CHR 0x22] @ [CHR 0x22] @ '' '') = Some [KIdent ''if'', KIdent ''ne'', KChain BDot [''Annotations'', ''Rewrite'', ''RewriteTarget''], KStr []]"
  "action_tokens ('' $backend.TargetPath '') = Some [KChain (BVar ''backend'') [''TargetPath'']]"
  "action_tokens ('' .Annotations.Rewrite.RewriteTarget '') = Some [KChain BDot [''Annotations'', ''Rewrite'', ''RewriteTarget'']]"
  "action_tokens (''.Annotations.Weight.Upstream'') = Some [KChain BDot [''Annotations'', ''Weight'', ''Upstream'']]"
  by code_simp+

lemma server_texts: "list_all (\<lambda>(t, a). no_open (t @ ''{'')) server_pieces"
  unfolding server_pieces_def by (simp add: no_open_step no_open_lines long_texts)

lemma server_end_open: "no_open server_end" "server_end \<noteq> []"
  by (simp_all add: server_end_def lines_def)

lemma server_parses: "parse_nodes server_tmpl = Some server_nodes"
  unfolding server_tmpl_def
  apply (rule parse_pieces)
  using server_texts unfolding server_pieces_def list.pred_inject prod.case
   apply (elim conjE)
   apply (rule pieces_items_Cons, assumption, rule server_actions)+
   apply (rule pieces_items_Nil, rule server_end_open)
  apply ((rule p_items_text, simp add: lines_not_Nil long_texts_not_Nil server_end_open) | rule p_items_end p_items_else
      | (rule p_items_if p_items_range p_items_out, simp add: p_pipeline_def numeral_eq_Suc scope_def))+
  apply (simp add: server_nodes_def weight_nodes_def upstream_nodes_def tls_nodes_def redirect_nodes_def
      proxy_nodes_def location_nodes_def server_end_def)
  done

lemma server_template: "parse_template tr server_tmpl = Inr (Nodes server_nodes)"
  by (simp add: parse_template_def server_parses)

text \<open>On the data of the controller it has a type.\<close>

lemma server_typed: "wt_nodes [] configure_type server_nodes"
  by (simp add: server_nodes_def weight_nodes_def upstream_nodes_def tls_nodes_def redirect_nodes_def
      proxy_nodes_def location_nodes_def configure_type_def server_type_def backend_type_def annotations_type_def
      strings_type_def comparable_def)

section \<open>Executing it\<close>

text \<open>The page of a server, printed directly.\<close>

definition weight_block :: "BackendWeight \<Rightarrow> string" where
  "weight_block bw =
     lines [[], ''upstream ''] @ bw_Upstream bw @ lines ['' {'', ''    ''] @
     concat (map (\<lambda>x. lines [[], ''    server ''] @ x @ lines ['';'', ''    '']) (bw_SvcList bw)) @
     lines [[], ''}'', []]"

definition upstream_name :: "ing_annotations backend \<Rightarrow> string" where
  "upstream_name b = be_Name b @ ''-'' @ be_IngName b @ ''-'' @ be_NameSpace b"

definition upstream_block :: "ing_annotations backend \<Rightarrow> string" where
  "upstream_block b =
     lines [[], ''upstream ''] @ upstream_name b @ lines ['' {'', ''    server ''] @ be_Name b @ ''.'' @
     be_NameSpace b @ ''.svc:'' @ show_int (sint (be_Port b)) @ lines ['';'', ''}'', []]"

definition upstreams :: "ing_annotations \<Rightarrow> ing_annotations backend list \<Rightarrow> string" where
  "upstreams ann bs =
     (if bw_UseWeight (ia_Weight ann) then weight_block (ia_Weight ann)
      else lines [[], []] @
           (if bs = [] then [] else lines [[], []] @ concat (map upstream_block bs) @ lines [[], []]) @
           lines [[], []])"

definition tls_block :: "SSLCert \<Rightarrow> ssl_config \<Rightarrow> string" where
  "tls_block c ss =
     (if \<not> TlsNoPass c then []
      else lines [[], ''    ssl_certificate ''] @ TlsCrt c @ lines ['';'', ''    ssl_certificate_key ''] @ TlsKey c @
           server_tls @
           (if ss_SSlStapling ss then lines [[], ''    ssl_stapling on;'', ''    ''] else []) @ lines [[], ''    ''] @
           (if ss_SSllStaplingVerify ss then lines [[], ''    ssl_stapling_verify on;'', ''    ''] else []) @
           lines [[], ''    ''])"

definition address_block :: "string \<Rightarrow> string \<Rightarrow> string list \<Rightarrow> string" where
  "address_block verb others ips =
     (if ips = [] then []
      else lines [[], ''    ''] @ concat (map (\<lambda>ip. lines [[], ''    '' @ verb @ '' ''] @ ip @ lines ['';'', ''    '']) ips) @
           lines [[], ''    '' @ others @ '' all;'', ''    ''])"

definition redirect_block :: "redirect_config \<Rightarrow> string" where
  "redirect_block rd =
     (if rd_Path rd = [] then []
      else lines [[], ''    location ''] @ rd_Path rd @ lines ['' {'', ''        return 301 http://''] @ rd_Host rd @
           lines ['';'', ''    }'', ''    ''])"

definition proxy_block :: "proxy_config \<Rightarrow> string" where
  "proxy_block px =
     (if px_ProxyPath px = [] then []
      else lines [[], ''    location ''] @ px_ProxyPath px @ lines ['' {'', ''    '' @ [CHR 0x09]] @
           (if px_ProxyTarget px = [] then []
            else lines [[], ''    '' @ [CHR 0x09] @ ''rewrite ^''] @ px_ProxyTargetPath px @ '' '' @ px_ProxyTarget px @
                 lines ['' break;'', ''    '' @ [CHR 0x09]]) @
           proxy_headers @
           lines [[], ''    '' @ [CHR 0x09] @ (if px_ProxySSL px then ''proxy_pass https://'' else ''proxy_pass http://'')] @
           px_ProxyHost px @ lines ['';'', ''    '' @ [CHR 0x09]] @
           lines [[], ''    '' @ [CHR 0x09] @ ''proxy_redirect                         off;'', ''    }'', ''    ''])"

definition location_block :: "ing_annotations backend \<Rightarrow> string" where
  "location_block b =
     (let ann = be_Annotations b
      in lines [[], ''     location ''] @ be_Path b @ lines ['' {'', ''        ''] @
         (if rw_RewriteTarget (ia_Rewrite ann) = [] then []
          else lines [[], ''        rewrite ^''] @ be_TargetPath b @ '' '' @ rw_RewriteTarget (ia_Rewrite ann) @
               lines ['' break;'', ''        '']) @
         location_headers @
         lines [[], ''        proxy_pass http://''] @
         (if bw_UseWeight (ia_Weight ann) then bw_Upstream (ia_Weight ann) else upstream_name b) @
         lines ['';'', ''        ''] @
         lines [[], [], ''        proxy_redirect                         off;'', ''    }'', ''    ''])"

definition server_page :: "ing_annotations \<Rightarrow> ing_annotations server \<Rightarrow> ing_annotations backend list \<Rightarrow> string" where
  "server_page ann s bs =
     ''## start '' @ se_HostName s @ lines [[], [], []] @ upstreams ann bs @
     lines [[], [], ''server {'', ''    server_name ''] @ se_HostName s @ server_listen @
     tls_block (se_Tls s) (ia_SSLStapling ann) @
     lines [[], [], ''    ### ip allow list'', ''    ''] @ address_block ''allow'' ''deny'' (allow_CIDR (ia_AllowList ann)) @
     lines [[], [], ''    ### ip deny list'', ''    ''] @ address_block ''deny'' ''allow'' (deny_CIDR (ia_DenyList ann)) @
     lines [[], [], ''    ### redirect 301'', ''    ''] @ redirect_block (ia_Redirect ann) @
     lines [[], [], ''    # allow cos'', ''    ''] @ (if AllowCosFlag (ia_AllowCos ann) then server_cos else []) @
     lines [[], [], ''    #### proxy external cluster server'', ''    ''] @ proxy_block (ia_Proxy ann) @
     lines [[], [], ''    #### backend'', ''    ''] @
     (if bs = [] then [] else lines [[], ''    ''] @ concat (map location_block bs) @ lines [[], ''    '']) @
     lines [[], ''}'', ''## end ''] @ se_HostName s @ lines [[], []]"

text \<open>The data the template is executed on: the server, the annotations, and fields it does not read.\<close>

definition server_data :: "ing_annotations server \<Rightarrow> ing_annotations \<Rightarrow> (string \<times> tval) list \<Rightarrow> tval" where
  "server_data s ann etc = TStruct ((''Server'', server_value s) # (''Annotations'', annotations_value ann) # etc)"

lemma emap_over_map: "(\<And>x. x \<in> set xs \<Longrightarrow> f (g x) = Inr (h x)) \<Longrightarrow> emap f (map g xs) = Inr (map h xs)"
  by (induction xs) simp_all

lemma server_data_fields:
  "TextTemplate.fields (server_data s ann etc) [''Server'', ''HostName''] = Inr (TStr (se_HostName s))"
  "TextTemplate.fields (server_data s ann etc) [''Server'', ''Tls'', ''TlsNoPass''] = Inr (TBool (TlsNoPass (se_Tls s)))"
  "TextTemplate.fields (server_data s ann etc) [''Annotations'', ''Weight'', ''UseWeight''] =
     Inr (TBool (bw_UseWeight (ia_Weight ann)))"
  "TextTemplate.fields (server_data s ann etc) [''Annotations'', ''AllowList'', ''CIDR''] =
     Inr (TList (map TStr (allow_CIDR (ia_AllowList ann))))"
  "TextTemplate.fields (server_data s ann etc) [''Annotations'', ''DenyList'', ''CIDR''] =
     Inr (TList (map TStr (deny_CIDR (ia_DenyList ann))))"
  "TextTemplate.fields (server_data s ann etc) [''Annotations'', ''Redirect'', ''Path''] = Inr (TStr (rd_Path (ia_Redirect ann)))"
  "TextTemplate.fields (server_data s ann etc) [''Annotations'', ''AllowCos'', ''AllowCos''] =
     Inr (TBool (AllowCosFlag (ia_AllowCos ann)))"
  "TextTemplate.fields (server_data s ann etc) [''Annotations'', ''Proxy'', ''ProxyPath''] = Inr (TStr (px_ProxyPath (ia_Proxy ann)))"
  by (simp_all add: server_data_def server_value_def cert_value_def annotations_value_def strings_value_def)

lemma server_data_paths:
  "se_Paths s = map Some bs \<Longrightarrow>
   TextTemplate.fields (server_data s ann etc) [''Server'', ''Paths''] = Inr (TList (map backend_value bs))"
  by (simp add: server_data_def server_value_def pointer_value_def comp_def)

lemma eval_conditions:
  "TextTemplate.fields dot fs = Inr v \<Longrightarrow> eval vars dot (EChain BDot fs) = Inr v"
  "TextTemplate.fields dot fs = Inr (TList (map g ys)) \<Longrightarrow>
     eval vars dot (EGt (ELen (EChain BDot fs)) (ENum 0)) = Inr (TBool (ys \<noteq> []))"
  "TextTemplate.fields dot fs = Inr (TStr t) \<Longrightarrow>
     eval vars dot (ENe (EChain BDot fs) (EStr [])) = Inr (TBool (t \<noteq> []))"
  by simp_all

lemma exec_weight:
  "exec tr S d vars (server_data s ann etc) weight_nodes =
     Inr (weight_block (ia_Weight ann))"
  by (simp add: server_data_def weight_nodes_def weight_block_def annotations_value_def strings_value_def emap_over_map [where h = "\<lambda>x. lines [[], ''    server ''] @ x @ lines ['';'', ''    '']"])

lemma exec_upstream:
  "exec tr S d ((''backend'', backend_value b) # vars) dot upstream_nodes = Inr (upstream_block b)"
  by (simp add: upstream_nodes_def upstream_block_def upstream_name_def backend_value_def port_value_def)

lemma exec_location:
  "exec tr S d ((''backend'', backend_value b) # vars) (backend_value b) location_nodes = Inr (location_block b)"
  by (simp add: location_nodes_def location_block_def Let_def upstream_name_def backend_value_def annotations_value_def)


lemma exec_tls:
  "TlsNoPass (se_Tls s) \<Longrightarrow>
   exec tr S d vars (server_data s ann etc) tls_nodes =
     Inr (tls_block (se_Tls s) (ia_SSLStapling ann))"
  by (simp add: server_data_def tls_nodes_def tls_block_def annotations_value_def server_value_def cert_value_def)

lemma exec_redirect:
  "rd_Path (ia_Redirect ann) \<noteq> [] \<Longrightarrow>
   exec tr S d vars (server_data s ann etc) redirect_nodes =
     Inr (redirect_block (ia_Redirect ann))"
  by (simp add: server_data_def redirect_nodes_def redirect_block_def annotations_value_def)

lemma exec_proxy:
  "px_ProxyPath (ia_Proxy ann) \<noteq> [] \<Longrightarrow>
   exec tr S d vars (server_data s ann etc) proxy_nodes =
     Inr (proxy_block (ia_Proxy ann))"
  by (simp add: server_data_def proxy_nodes_def proxy_block_def annotations_value_def lines_def)

text \<open>One node at a time.\<close>

lemma exec_steps:
  "exec tr S d vars dot ns = Inr out \<Longrightarrow> exec tr S d vars dot (NText t # ns) = Inr (t @ out)"
  "TextTemplate.fields dot fs = Inr (TStr v) \<Longrightarrow> exec tr S d vars dot ns = Inr out \<Longrightarrow>
     exec tr S d vars dot (NOut (EChain BDot fs) # ns) = Inr (v @ out)"
  "eval vars dot e = Inr (TBool c) \<Longrightarrow> (c \<Longrightarrow> exec tr S d vars dot a = Inr oa) \<Longrightarrow>
     (\<not> c \<Longrightarrow> exec tr S d vars dot b = Inr oa) \<Longrightarrow> exec tr S d vars dot ns = Inr out \<Longrightarrow>
     exec tr S d vars dot (NIf e a b # ns) = Inr (oa @ out)"
  "TextTemplate.fields dot fs = Inr (TList (map g ys)) \<Longrightarrow>
     (\<And>y. exec tr S d ((x, g y) # vars) (g y) a = Inr (h y)) \<Longrightarrow> exec tr S d vars dot ns = Inr out \<Longrightarrow>
     exec tr S d vars dot (NRange x (EChain BDot fs) a # ns) = Inr (concat (map h ys) @ out)"
  by (simp_all add: emap_over_map)

lemma exec_last: "exec tr S d vars dot [NText t] = Inr t"
  by simp

lemma exec_addresses:
  assumes "TextTemplate.fields dot fs = Inr (TList (map TStr ips))" and "ips \<noteq> []"
  shows "exec tr S d vars dot
     [NText (lines [[], ''    '']),
      NRange ''ip'' (EChain BDot fs)
        [NText (lines [[], ''    '' @ verb @ '' '']), NOut (EChain (BVar ''ip'') []), NText (lines ['';'', ''    ''])],
      NText (lines [[], ''    '' @ others @ '' all;'', ''    ''])] = Inr (address_block verb others ips)"
  using assms by (simp add: address_block_def emap_over_map [where h = "\<lambda>ip. lines [[], ''    '' @ verb @ '' ''] @ ip @ lines ['';'', ''    '']"])

lemma exec_upstreams:
  assumes "se_Paths s = map Some bs"
  shows "exec tr S d [] (server_data s ann etc)
    [NText (lines [[], []]),
     NIf (EGt (ELen (EChain BDot [''Server'', ''Paths''])) (ENum 0))
       [NText (lines [[], []]), NRange ''backend'' (EChain BDot [''Server'', ''Paths'']) upstream_nodes,
        NText (lines [[], []])] [],
     NText (lines [[], []])] =
    Inr (lines [[], []] @ (if bs = [] then [] else lines [[], []] @ concat (map upstream_block bs) @ lines [[], []]) @
         lines [[], []])"
proof -
  note paths = server_data_paths [OF assms, of ann etc]
  let ?E = "exec tr S d [] (server_data s ann etc)"
  have "?E [NText (lines [[], []]), NRange ''backend'' (EChain BDot [''Server'', ''Paths'']) upstream_nodes,
      NText (lines [[], []])] = Inr (lines [[], []] @ concat (map upstream_block bs) @ lines [[], []])"
    by (rule exec_steps(1), rule exec_steps(4) [OF paths exec_upstream], rule exec_last)
  moreover have "?E [] = Inr []" by simp
  ultimately show ?thesis
    by (intro exec_steps(1) exec_steps(3) [OF eval_conditions(2) [OF paths]])
       (simp_all only: if_True if_False simp_thms exec_last)
qed

lemma exec_locations:
  assumes "se_Paths s = map Some bs"
  shows "exec tr S d [] (server_data s ann etc)
    [NText (lines [[], ''    '']), NRange ''backend'' (EChain BDot [''Server'', ''Paths'']) location_nodes,
     NText (lines [[], ''    ''])] = Inr (lines [[], ''    ''] @ concat (map location_block bs) @ lines [[], ''    ''])"
  by (rule exec_steps(1), rule exec_steps(4) [OF server_data_paths [OF assms] exec_location], rule exec_last)

text \<open>The whole template.\<close>

lemma exec_server:
  assumes "se_Paths s = map Some bs"
  shows "exec tr S d [] (server_data s ann etc) server_nodes = Inr (server_page ann s bs)"
proof -
  note at = server_data_fields [of s ann etc] and paths = server_data_paths [OF assms, of ann etc]
  note allow = exec_addresses [OF at(4), where verb = "''allow''" and others = "''deny''", unfolded append.simps]
    and deny = exec_addresses [OF at(5), where verb = "''deny''" and others = "''allow''", unfolded append.simps]
  show ?thesis
    unfolding server_nodes_def server_page_def
    apply (rule exec_steps(1), rule exec_steps(2) [OF at(1)], rule exec_steps(1))
    apply (rule exec_steps(3) [OF eval_conditions(1) [OF at(3)]])
      apply (simp add: upstreams_def exec_weight)
     apply (simp add: upstreams_def exec_upstreams [OF assms] del: exec.simps)
    apply (rule exec_steps(1), rule exec_steps(2) [OF at(1)], rule exec_steps(1))
    apply (rule exec_steps(3) [OF eval_conditions(1) [OF at(2)]], erule exec_tls, simp add: tls_block_def)
    apply (rule exec_steps(1), rule exec_steps(3) [OF eval_conditions(2) [OF at(4)]])
      apply (erule allow, simp add: address_block_def)
    apply (rule exec_steps(1), rule exec_steps(3) [OF eval_conditions(2) [OF at(5)]])
      apply (erule deny, simp add: address_block_def)
    apply (rule exec_steps(1), rule exec_steps(3) [OF eval_conditions(3) [OF at(6)]])
      apply (erule exec_redirect, simp add: redirect_block_def)
    apply (rule exec_steps(1), rule exec_steps(3) [OF eval_conditions(1) [OF at(7)]], simp, simp)
    apply (rule exec_steps(1), rule exec_steps(3) [OF eval_conditions(3) [OF at(8)]])
      apply (erule exec_proxy, simp add: proxy_block_def)
    apply (rule exec_steps(1), rule exec_steps(3) [OF eval_conditions(2) [OF paths]])
      apply (simp only: exec_locations [OF assms] if_False, simp)
    apply (rule exec_steps(1), rule exec_steps(2) [OF at(1)], rule exec_last)
    done
qed

lemma server_text_page:
  "se_Paths s = map Some bs \<Longrightarrow>
   server_text tr (Nodes server_nodes) cfg (Some s) = Inr (server_page (cf_Annotations cfg) s bs)"
  using exec_server [of s bs tr "[''serverMain'' \<mapsto> Nodes server_nodes]" maxExecDepth "cf_Annotations cfg"
      "tl (tl (case configure_value cfg of TStruct fs \<Rightarrow> fs))"]
  by (simp add: server_text_def exec_template_def configure_value_def server_data_def pointer_value_def)

section \<open>Properties\<close>

text \<open>Rendering a server with the template of the repository appends exactly its page: the upstreams,
  the server with its host, its certificate, its address lists, its redirect and its proxy, and one
  location per back end, in order.\<close>

theorem server_rendered:
  assumes "os_read (cf_TmplName cfg) w = Inr server_tmpl" and "se_Paths s = map Some bs"
  shows "generateServerBytes tr w (cfg\<lparr>cf_Server := Some s\<rparr>) =
    Inr (cfg\<lparr>cf_Server := Some s, cf_ServerTpl := cf_ServerTpl cfg @ server_page (cf_Annotations cfg) s bs\<rparr>)"
  using generateServerBytes_ok [OF assms(1) server_template] server_text_page [OF assms(2)] by simp

text \<open>C20. No template that is well-typed on the data of the controller can fail on what an ingress
  configures: whatever servers were built, all of them are rendered.\<close>

theorem typed_template_renders:
  assumes "getBackendConfigure n ann w0 = (Inr cfg, w)"
    and "os_read ServerTmpl w = Inr src" and "parse_template tr src = Inr (Nodes ns)"
    and "wt_nodes [] configure_type ns"
  shows "\<exists>c. render_servers tr w (Servers cfg) (backend_configure n ann cfg) = Inr c"
proof -
  let ?c = "backend_configure n ann cfg"
  from assms(1) obtain tls ss where ss: "emap (rule_server n ann tls) (Rules (ing_Spec (nc_ingress n))) = Inr ss"
    and cfg: "Servers cfg = map Some ss"
    by (auto simp: getBackendConfigure_ok)
  have "no_nil_paths (Some s)" if "s \<in> set ss" for s
  proof -
    from that ss obtain v where "rule_server n ann tls v = Inr s"
      by (auto simp: emap_eq_Inr list_all2_conv_all_nth in_set_conv_nth)
    then show ?thesis by (rule rule_server_ok) (auto simp: no_nil_paths_def)
  qed
  then have "\<exists>out. lift_err (server_text tr (Nodes ns) ?c so) = Inr out" if "so \<in> set (Servers cfg)" for so
    using that cfg server_text_typed [OF assms(4)] by auto
  then obtain g where "\<And>so. so \<in> set (Servers cfg) \<Longrightarrow> lift_err (server_text tr (Nodes ns) ?c so) = Inr (g so)"
    by metis
  then have "emap (\<lambda>so. lift_err (server_text tr (Nodes ns) ?c so)) (Servers cfg) = Inr (map g (Servers cfg))"
    by (rule emap_all_Inr)
  then have "map_sum id cf_ServerTpl (render_servers tr w (Servers cfg) ?c) = Inr (concat (map g (Servers cfg)))"
    using render_servers_emap [of ?c w src tr "Nodes ns" "Servers cfg"] assms(2,3) by (simp add: backend_configure_def)
  then show ?thesis by (cases "render_servers tr w (Servers cfg) ?c") auto
qed

theorem typed_template_renders_witness:
  "\<exists>cfg c. getBackendConfigure page_controller (new_annotations sample_ingress)
      (sample_world (page_files(ServerTmpl \<mapsto> server_tmpl))) = (Inr cfg, sample_world (page_files(ServerTmpl \<mapsto> server_tmpl))) \<and>
    render_servers strict_rest (sample_world (page_files(ServerTmpl \<mapsto> server_tmpl))) (Servers cfg)
      (backend_configure page_controller (new_annotations sample_ingress) cfg) = Inr c"
proof -
  let ?w = "sample_world (page_files(ServerTmpl \<mapsto> server_tmpl))"
  have "os_read ServerTmpl ?w = Inr server_tmpl" by (simp add: os_read_ok sample_world_def)
  from typed_template_renders [OF page_configure this server_template server_typed] show ?thesis
    using page_configure by blast
qed

theorem server_rendered_witness:
  "map_sum id cf_ServerTpl (generateServerBytes strict_rest (sample_world (page_files(ServerTmpl \<mapsto> server_tmpl)))
     ((backend_configure page_controller (new_annotations sample_ingress) page_configuration)\<lparr>cf_Server := Some
        \<lparr>se_Name = ''web'', se_NameSpace = ''shop'', se_HostName = ''a.com'', se_Tls = empty_cert, se_Paths = []\<rparr>\<rparr>)) =
   Inr (server_page (new_annotations sample_ingress)
     \<lparr>se_Name = ''web'', se_NameSpace = ''shop'', se_HostName = ''a.com'', se_Tls = empty_cert, se_Paths = []\<rparr> [])"
proof -
  let ?w = "sample_world (page_files(ServerTmpl \<mapsto> server_tmpl))"
  let ?c = "backend_configure page_controller (new_annotations sample_ingress) page_configuration"
  have "os_read (cf_TmplName ?c) ?w = Inr server_tmpl"
    by (simp add: os_read_ok sample_world_def backend_configure_def)
  from server_rendered [OF this, of "\<lparr>se_Name = ''web'', se_NameSpace = ''shop'', se_HostName = ''a.com'',
      se_Tls = empty_cert, se_Paths = []\<rparr>" "[]" strict_rest]
  show ?thesis by (simp add: backend_configure_def)
qed


definition page_of :: "ing_annotations \<Rightarrow> ing_annotations server \<Rightarrow> string" where
  "page_of ann s = server_page ann s (map the (se_Paths s))"

lemma configured_servers:
  assumes "getBackendConfigure n ann w0 = (Inr cfg, w)"
  shows "\<exists>ss. Servers cfg = map Some ss \<and> (\<forall>s\<in>set ss. se_Paths s = map Some (map the (se_Paths s)))"
proof -
  from assms obtain tls ss where ss: "emap (rule_server n ann tls) (Rules (ing_Spec (nc_ingress n))) = Inr ss"
    and cfg: "Servers cfg = map Some ss"
    by (auto simp: getBackendConfigure_ok)
  have "se_Paths s = map Some (map the (se_Paths s))" if "s \<in> set ss" for s
  proof -
    from that ss obtain v where "rule_server n ann tls v = Inr s"
      by (auto simp: emap_eq_Inr list_all2_conv_all_nth in_set_conv_nth)
    then show ?thesis by (rule rule_server_ok) (simp add: comp_def)
  qed
  with cfg show ?thesis by blast
qed

definition closed_text :: "string \<Rightarrow> bool" where
  "closed_text a \<longleftrightarrow> no_open (a @ ''{'')"

lemma no_open_join: "closed_text a \<Longrightarrow> no_open b \<Longrightarrow> no_open (a @ b)"
  unfolding closed_text_def
proof (induction a)
  case (Cons c a)
  show ?case
  proof (cases a)
    case Nil
    with Cons.prems show ?thesis by (cases b) auto
  next
    fix d r assume a: "a = d # r"
    with Cons.prems Cons.IH show ?thesis by simp
  qed
qed simp

lemma configured_pages:
  assumes "getBackendConfigure n ann w0 = (Inr cfg, w)"
  shows "\<exists>ss. Servers cfg = map Some ss \<and>
    emap (\<lambda>so. lift_err (server_text tr (Nodes server_nodes) (backend_configure n ann cfg) so)) (Servers cfg) =
      Inr (map (page_of ann) ss)"
proof -
  let ?c = "backend_configure n ann cfg"
  obtain ss where ss: "Servers cfg = map Some ss"
    and paths: "\<forall>s\<in>set ss. se_Paths s = map Some (map the (se_Paths s))"
    using configured_servers [OF assms] by blast
  have "server_text tr (Nodes server_nodes) ?c (Some s) = Inr (page_of ann s)" if "s \<in> set ss" for s
  proof -
    from that paths have "se_Paths s = map Some (map the (se_Paths s))" by blast
    from server_text_page [OF this, of tr ?c] show ?thesis by (simp add: page_of_def backend_configure_def)
  qed
  then show ?thesis using ss by (simp add: emap_over_map)
qed

text \<open>C6. With the templates of the repository, the configuration that is written to be tested is the
  pages of the servers, one after the other, unless the data of the ingress put an opening delimiter
  into them.\<close>

theorem configuration_text:
  assumes "getBackendConfigure n ann w0 = (Inr cfg, w)"
    and "os_read MainServerTmpl w = Inr main_server_tmpl" and "os_read ServerTmpl w = Inr server_tmpl"
  shows "\<exists>ss. Servers cfg = map Some ss \<and>
    (plain_text (concat (map (page_of ann) ss)) \<longrightarrow>
       generateConfigureBytes tr (backend_configure n ann cfg) w =
       write_test_conf (cf_ConfName (backend_configure n ann cfg)) (concat (map (page_of ann) ss) @ [CHR 0x0A]) w)"
proof -
  let ?c = "backend_configure n ann cfg"
  obtain ss where ss: "Servers cfg = map Some ss"
    "emap (\<lambda>so. lift_err (server_text tr (Nodes server_nodes) ?c so)) (Servers (cf_Cfg ?c)) = Inr (map (page_of ann) ss)"
    using configured_pages [OF assms(1), of tr] by (auto simp: backend_configure_def)
  then show ?thesis
    using ss generateConfigureBytes_plain [of ?c w server_tmpl tr "Nodes server_nodes" "map (page_of ann) ss"] assms(2,3)
      server_template by (auto simp: backend_configure_def)
qed

theorem configuration_text_witness:
  "\<exists>b. generateConfigureBytes strict_rest (backend_configure page_controller (new_annotations sample_ingress) page_configuration)
       (sample_world (page_files(ServerTmpl \<mapsto> server_tmpl))) =
     write_test_conf ''/etc/nginx/conf.d/web-shop'' b (sample_world (page_files(ServerTmpl \<mapsto> server_tmpl)))"
proof -
  let ?w = "sample_world (page_files(ServerTmpl \<mapsto> server_tmpl))"
  let ?ann = "new_annotations sample_ingress"
  let ?s = "\<lparr>se_Name = ''web'', se_NameSpace = ''shop'', se_HostName = ''a.com'', se_Tls = empty_cert, se_Paths = []\<rparr>"
  have r: "os_read MainServerTmpl ?w = Inr main_server_tmpl" "os_read ServerTmpl ?w = Inr server_tmpl"
    by (simp_all add: os_read_ok sample_world_def page_files_def MainServerTmpl_def ServerTmpl_def Pid_def)
  from configuration_text [OF page_configure r, of strict_rest]
  have "plain_text (page_of ?ann ?s) \<longrightarrow>
      generateConfigureBytes strict_rest (backend_configure page_controller ?ann page_configuration) ?w =
      write_test_conf (cf_ConfName (backend_configure page_controller ?ann page_configuration))
        (page_of ?ann ?s @ [CHR 0x0A]) ?w"
    by (auto simp: page_configuration_def)
  moreover have "no_open (page_of ?ann ?s)"
    unfolding page_of_def server_page_def
    by (intro no_open_join)
       (simp_all add: closed_text_def upstreams_def tls_block_def address_block_def redirect_block_def proxy_block_def new_annotations_def
         empty_cert_def no_open_lines no_open_step long_texts lines_def [of "[[], []]"])
  moreover have "cf_ConfName (backend_configure page_controller ?ann page_configuration) = ''/etc/nginx/conf.d/web-shop''"
    by (subst backend_configure_name) (simp_all add: page_ingress, simp add: conf_name_def ConfDir_def)
  ultimately show ?thesis using no_open_plain by (intro exI) simp
qed

section \<open>Upstreams\<close>

text \<open>The line that opens the upstream of a back end.\<close>

definition upstream_line :: "ing_annotations backend \<Rightarrow> string" where
  "upstream_line b = ''upstream '' @ upstream_name b @ '' {''"

lemma upstream_block_line: "\<exists>p q. upstream_block b = p @ upstream_line b @ q"
  by (intro exI [of _ "[CHR 0x0A]"] exI)
     (simp add: upstream_block_def upstream_line_def lines_def)

lemma server_page_upstreams:
  assumes "\<not> bw_UseWeight (ia_Weight ann)" and "bs \<noteq> []"
  shows "\<exists>l r. server_page ann s bs = l @ concat (map upstream_block bs) @ r"
proof -
  have "upstreams ann bs = (lines [[], []] @ lines [[], []]) @ concat (map upstream_block bs) @ (lines [[], []] @ lines [[], []])"
    using assms by (simp add: upstreams_def)
  moreover have "\<exists>r. server_page ann s bs = (''## start '' @ se_HostName s @ lines [[], [], []]) @ upstreams ann bs @ r"
    unfolding server_page_def append_assoc by (intro exI) (rule refl)
  ultimately show ?thesis by (metis append_assoc)
qed

text \<open>C39. Two paths of a host that lead to the same service open the same upstream twice in the
  configuration of the host, which nginx refuses.\<close>

theorem shared_service_duplicates_upstream:
  assumes "rule_server n ann tls v = Inr s" and "\<not> bw_UseWeight (ia_Weight ann)"
    and "ir_HTTP v = Some (xs @ p # ys @ q # zs)"
    and "map_option sb_Name (ib_Service (hp_Backend p)) = map_option sb_Name (ib_Service (hp_Backend q))"
  shows "\<exists>b u x y z. path_backend n ann p = Inr b \<and> u = upstream_line b \<and> page_of ann s = x @ u @ y @ u @ z"
proof -
  from assms(1) obtain bs where bs: "emap (path_backend n ann) (xs @ p # ys @ q # zs) = Inr bs" "se_Paths s = map Some bs"
    using assms(2,3) by (elim rule_server_ok) (auto simp: served_paths_def)
  then obtain bxs b bys c bzs where split: "bs = bxs @ b # bys @ c # bzs"
    and b: "path_backend n ann p = Inr b" and c: "path_backend n ann q = Inr c"
    by (auto simp: emap_eq_Inr list_all2_append1 list_all2_Cons1)
  have name: "upstream_line b = upstream_line c"
    using b c assms(4) by (auto simp: path_backend_ok upstream_line_def upstream_name_def)
  obtain b1 b2 c1 c2 where "upstream_block b = b1 @ upstream_line b @ b2" "upstream_block c = c1 @ upstream_line b @ c2"
    using upstream_block_line [of b] upstream_block_line [of c] name by metis
  then have "concat (map upstream_block bs) =
      (concat (map upstream_block bxs) @ b1) @ upstream_line b @
      (b2 @ concat (map upstream_block bys) @ c1) @ upstream_line b @ (c2 @ concat (map upstream_block bzs))"
    by (simp add: split)
  moreover have "map the (se_Paths s) = bs" using bs(2) by (simp add: comp_def)
  then obtain l r where "page_of ann s = l @ concat (map upstream_block bs) @ r"
    using server_page_upstreams [OF assms(2), of bs s] split by (auto simp: page_of_def)
  ultimately have "page_of ann s = (l @ concat (map upstream_block bxs) @ b1) @ upstream_line b @
      (b2 @ concat (map upstream_block bys) @ c1) @ upstream_line b @ (c2 @ concat (map upstream_block bzs) @ r)"
    by simp
  with b show ?thesis by blast
qed

theorem shared_service_duplicates_upstream_witness:
  "\<exists>s b x y z. rule_server (shop_controller \<lparr>bp_Name = '''', bp_Number = 80\<rparr>) (new_annotations sample_ingress) (\<lambda>_. None)
      \<lparr>ir_Host = ''a.com'', ir_HTTP = Some [shop_path ''/a'' \<lparr>bp_Name = '''', bp_Number = 80\<rparr>,
        shop_path ''/b'' \<lparr>bp_Name = '''', bp_Number = 80\<rparr>]\<rparr> = Inr s \<and>
    page_of (new_annotations sample_ingress) s = x @ upstream_line b @ y @ upstream_line b @ z"
proof -
  let ?n = "shop_controller \<lparr>bp_Name = '''', bp_Number = 80\<rparr>" and ?ann = "new_annotations sample_ingress"
  let ?a = "shop_path ''/a'' \<lparr>bp_Name = '''', bp_Number = 80\<rparr>" and ?b = "shop_path ''/b'' \<lparr>bp_Name = '''', bp_Number = 80\<rparr>"
  let ?v = "\<lparr>ir_Host = ''a.com'', ir_HTTP = Some ([] @ ?a # [] @ ?b # [])\<rparr>"
  have "\<exists>s. rule_server ?n ?ann (\<lambda>_. None) ?v = Inr s"
    by (simp add: shop_controller_def shop_ingress_def sample_ingress_def shop_path_def shop_client_def
        shop_service_def info_resolver_def rule_server_def path_backend_def checkIngressContent_def shop_paths_plain
        new_annotations_def GetService_def GetSvcPort_def port_of_backend_def Let_def)
  then obtain s where s: "rule_server ?n ?ann (\<lambda>_. None) ?v = Inr s" ..
  have "\<not> bw_UseWeight (ia_Weight ?ann)" by (simp add: new_annotations_def)
  from shared_service_duplicates_upstream [OF s this, of "[]" ?a "[]" ?b "[]"] s show ?thesis
    by (auto simp: shop_path_def)
qed

end
