(* ===== verification/Resources.thy ===== *)
theory Resources
  imports Store "HOL-Library.Multiset"
begin

text \<open>
  Package \<^verbatim>\<open>pkg/resources\<close>: the issuer and the certificate the controller keeps for an
  ingress that brings no TLS section. The cluster is a state of any type, and the API server a record
  of functions on it: what it answers to reads, and the three writes the code makes. The issuer and
  the certificate objects are unstructured in the code; of the request that creates one the model
  keeps the fields that vary.
\<close>

record cert_request =
  cr_dnsNames :: "string list"
  cr_issuerRef :: string
  cr_secretName :: string

record 'c api =
  ap_view :: "'c \<Rightarrow> client"
  ap_create_issuer :: "object_key \<Rightarrow> 'c \<Rightarrow> go_error option \<times> 'c"
  ap_create_cert :: "object_key \<Rightarrow> cert_request \<Rightarrow> 'c \<Rightarrow> go_error option \<times> 'c"
  ap_update_cert :: "object_key \<Rightarrow> string list \<Rightarrow> 'c \<Rightarrow> go_error option \<times> 'c" \<comment> \<open>with these names\<close>

definition suffixed :: "ingress \<Rightarrow> string \<Rightarrow> object_key" where
  "suffixed ing suffix = \<lparr>ok_Name = ing_Name ing @ suffix, ok_Namespace = ing_Namespace ing\<rparr>"

text \<open>The resolver of the ingress, reading the cluster as it is now.\<close>

definition info_at :: "'c api \<Rightarrow> ingress \<Rightarrow> 'c \<Rightarrow> IngressInfo" where
  "info_at api ing c = NewIngressInfo (ap_view api c) ing"

text \<open>Comparing sorts both lists where they are: the sorted hosts are what is written afterwards.\<close>

definition domainComparison :: "string list \<Rightarrow> string list \<Rightarrow> bool \<times> string list \<times> string list" where
  "domainComparison d1 d2 = (sort d1 = sort d2, sort d1, sort d2)"

definition reconcileIssuer :: "'c api \<Rightarrow> ingress \<Rightarrow> 'c \<Rightarrow> unit result \<times> 'c" where
  "reconcileIssuer api ing c =
     (case cl_Issuer (ap_view api c) (suffixed ing ''-issuer'') of
        Inr _ \<Rightarrow> (Inr (), c)
      | Inl err \<Rightarrow>
          if IsNotFound err then
            (case ap_create_issuer api (suffixed ing ''-issuer'') c of
               (Some e, c1) \<Rightarrow> (Inl (Err e), c1)
             | (None, c1) \<Rightarrow> (Inr (), c1))
          else (Inl (Err err), c))"

text \<open>Fetching the secret only to see that it is there.\<close>

definition secret_there :: "'c api \<Rightarrow> ingress \<Rightarrow> 'c \<Rightarrow> unit result \<times> 'c" where
  "secret_there api ing c =
     (ebind (GetSecret (info_at api ing c) (suffixed ing ''-secret'')) (\<lambda>_. Inr ()), c)"

definition reconcileCert :: "'c api \<Rightarrow> ingress \<Rightarrow> 'c \<Rightarrow> unit result \<times> 'c" where
  "reconcileCert api ing c =
     (case cl_Certificate (ap_view api c) (suffixed ing ''-cert'') of
        Inl err \<Rightarrow>
          if IsNotFound err then
            (case ap_create_cert api (suffixed ing ''-cert'')
                    \<lparr>cr_dnsNames = GetHostName (info_at api ing c), cr_issuerRef = ing_Name ing @ ''-issuer'',
                     cr_secretName = ing_Name ing @ ''-secret''\<rparr> c of
               (Some e, c1) \<Rightarrow> (Inl (Err e), c1)
             | (None, c1) \<Rightarrow> secret_there api ing c1)
          else (Inl (Err err), c)
      | Inr certificate \<Rightarrow>
          (case ce_dnsNames certificate of
             Inl err \<Rightarrow> (Inl (Err err), c)
           | Inr None \<Rightarrow> (Inr (), c)
           | Inr (Some domains) \<Rightarrow>
               (case domainComparison (GetHostName (info_at api ing c)) domains of
                  (isEqual, hosts, _) \<Rightarrow>
                    if \<not> isEqual then
                      (case ap_update_cert api (suffixed ing ''-cert'') hosts c of
                         (Some e, c1) \<Rightarrow> (Inl (Err e), c1)
                       | (None, c1) \<Rightarrow> secret_there api ing c1)
                    else (Inr (), c))))"

definition ReconcileResource :: "'c api \<Rightarrow> ingress \<Rightarrow> 'c \<Rightarrow> unit result \<times> 'c" where
  "ReconcileResource api ing c =
     (if length (Rules (ing_Spec ing)) = 0 then (Inr (), c)
      else if length (TLS (ing_Spec ing)) = 0 then
        sbind (reconcileIssuer api ing c) (\<lambda>_ c1. reconcileCert api ing c1)
      else (Inr (), c))"

section \<open>Facts\<close>

lemma domainComparison_mset: "fst (domainComparison d1 d2) \<longleftrightarrow> mset d1 = mset d2"
proof
  assume "fst (domainComparison d1 d2)"
  then have "mset (sort d1) = mset (sort d2)" by (simp add: domainComparison_def)
  then show "mset d1 = mset d2" by simp
next
  assume "mset d1 = mset d2"
  then have "sort d1 = sort d2" by (intro properties_for_sort) simp_all
  then show "fst (domainComparison d1 d2)" by (simp add: domainComparison_def)
qed

lemma GetHostName_info [simp]: "GetHostName (info_at api ing c) = map ir_Host (Rules (ing_Spec ing))"
  by (simp add: GetHostName_def info_at_def NewIngressInfo_def)

lemma secret_there_cluster [simp]: "snd (secret_there api ing c) = c"
  by (simp add: secret_there_def)

lemma GetSecret_no_panic: "GetSecret t k = Inl f \<Longrightarrow> \<exists>e. f = Err e"
  by (auto simp: GetSecret_def Let_def split: sum.splits if_splits)

lemma reconcileIssuer_errors: "fst (reconcileIssuer api ing c) = Inl f \<Longrightarrow> \<exists>e. f = Err e"
  by (auto simp: reconcileIssuer_def split: sum.splits if_splits prod.splits option.splits)

lemma secret_there_errors: "fst (secret_there api ing c) = Inl f \<Longrightarrow> \<exists>e. f = Err e"
  using GetSecret_no_panic by (auto simp: secret_there_def ebind_eq_Inl)

lemma reconcileCert_errors: "fst (reconcileCert api ing c) = Inl f \<Longrightarrow> \<exists>e. f = Err e"
  using secret_there_errors
  by (fastforce simp: reconcileCert_def domainComparison_def
      split: sum.splits if_splits prod.splits option.splits)

lemma ReconcileResource_errors:
  assumes "fst (ReconcileResource api ing c) = Inl f"
  shows "\<exists>e. f = Err e"
proof -
  obtain r c1 where i: "reconcileIssuer api ing c = (r, c1)" by (meson surj_pair)
  with assms reconcileIssuer_errors [of api ing c f] reconcileCert_errors [of api ing c1 f] show ?thesis
    by (cases r) (auto simp: ReconcileResource_def split: if_splits)
qed

section \<open>Properties\<close>

text \<open>While the certificate names the hosts of the rules, in any order, and the issuer is there, a
  reconciliation succeeds and writes nothing to the cluster.\<close>

lemma certificate_in_place:
  assumes "TLS (ing_Spec ing) = []"
    and "cl_Issuer (ap_view api c) (suffixed ing ''-issuer'') = Inr ()"
    and "cl_Certificate (ap_view api c) (suffixed ing ''-cert'') = Inr certificate"
    and "ce_dnsNames certificate = Inr (Some domains)"
    and "mset domains = mset (map ir_Host (Rules (ing_Spec ing)))"
  shows "ReconcileResource api ing c = (Inr (), c)"
proof -
  have "sort (map ir_Host (Rules (ing_Spec ing))) = sort domains"
    using assms(5) domainComparison_mset by (simp add: domainComparison_def)
  then show ?thesis
    using assms by (simp add: ReconcileResource_def reconcileIssuer_def reconcileCert_def domainComparison_def)
qed

text \<open>An API server that keeps one certificate: the state is the list of its names.\<close>

definition names_api :: "string list api" where
  "names_api =
     \<lparr>ap_view = (\<lambda>c. \<lparr>cl_Ingress = (\<lambda>_. Inl (ApiNotFound '''')), cl_Service = (\<lambda>_. Inl (ApiNotFound '''')),
        cl_Secret = (\<lambda>_. Inr []), cl_IngressClass = (\<lambda>_. Inl (ApiNotFound '''')), cl_Issuer = (\<lambda>_. Inr ()),
        cl_Certificate = (\<lambda>_. Inr \<lparr>ce_Name = ''web-cert'', ce_dnsNames = Inr (Some c)\<rparr>)\<rparr>),
      ap_create_issuer = (\<lambda>_ c. (None, c)), ap_create_cert = (\<lambda>_ r c. (None, cr_dnsNames r)),
      ap_update_cert = (\<lambda>_ ds c. (None, ds))\<rparr>"

definition two_hosts :: ingress where
  "two_hosts =
     \<lparr>ing_Name = ''web'', ing_Namespace = ''shop'', ing_Annotations = [],
      ing_Spec = \<lparr>IngressClassName = ''nginx'', DefaultBackend = None, TLS = [],
        Rules = [\<lparr>ir_Host = ''b.com'', ir_HTTP = Some []\<rparr>, \<lparr>ir_Host = ''a.com'', ir_HTTP = Some []\<rparr>]\<rparr>\<rparr>"

lemma certificate_in_place_example:
  "ReconcileResource names_api two_hosts [''a.com'', ''b.com''] = (Inr (), [''a.com'', ''b.com''])"
  by (rule certificate_in_place [of _ _ _ "\<lparr>ce_Name = ''web-cert'', ce_dnsNames = Inr (Some [''a.com'', ''b.com''])\<rparr>"
        "[''a.com'', ''b.com'']"])
     (simp_all add: names_api_def two_hosts_def)

text \<open>
  What the code relies on of an update: it is stored as sent, and the issuers stay.
\<close>

definition api_stores_names :: "'c api \<Rightarrow> bool" where
  "api_stores_names api \<longleftrightarrow>
     (\<forall>key ds c c'. ap_update_cert api key ds c = (None, c') \<longrightarrow>
        (\<exists>certificate. cl_Certificate (ap_view api c') key = Inr certificate \<and>
           ce_dnsNames certificate = Inr (Some ds)) \<and>
        cl_Issuer (ap_view api c') = cl_Issuer (ap_view api c))"

text \<open>C31. One reconciliation brings the certificate to the hosts of the rules: afterwards it names them,
  whatever it named before, and the next reconciliation succeeds and writes nothing, although an
  update writes the names sorted.\<close>

theorem certificate_converges:
  assumes "api_stores_names api"
    and "TLS (ing_Spec ing) = []" and "Rules (ing_Spec ing) \<noteq> []"
    and "cl_Issuer (ap_view api c) (suffixed ing ''-issuer'') = Inr ()"
    and "cl_Certificate (ap_view api c) (suffixed ing ''-cert'') = Inr certificate"
    and "ce_dnsNames certificate = Inr (Some domains)"
    and "fst (ap_update_cert api (suffixed ing ''-cert'') (sort (map ir_Host (Rules (ing_Spec ing)))) c) = None"
  shows "\<exists>certificate' names.
    cl_Certificate (ap_view api (snd (ReconcileResource api ing c))) (suffixed ing ''-cert'') = Inr certificate' \<and>
    ce_dnsNames certificate' = Inr (Some names) \<and> mset names = mset (map ir_Host (Rules (ing_Spec ing))) \<and>
    ReconcileResource api ing (snd (ReconcileResource api ing c)) = (Inr (), snd (ReconcileResource api ing c))"
proof -
  let ?hosts = "map ir_Host (Rules (ing_Spec ing))" and ?key = "suffixed ing ''-cert''"
  have "\<exists>certificate' names. cl_Certificate (ap_view api (snd (ReconcileResource api ing c))) ?key = Inr certificate' \<and>
      ce_dnsNames certificate' = Inr (Some names) \<and> mset names = mset ?hosts \<and>
      cl_Issuer (ap_view api (snd (ReconcileResource api ing c))) = cl_Issuer (ap_view api c)"
  proof (cases "mset domains = mset ?hosts")
    case True
    with assms(2,4-6) have "ReconcileResource api ing c = (Inr (), c)" by (intro certificate_in_place)
    with True assms(5,6) show ?thesis by simp
  next
    case False
    obtain c1 where up: "ap_update_cert api ?key (sort ?hosts) c = (None, c1)"
      using assms(7) by (cases "ap_update_cert api ?key (sort ?hosts) c") auto
    have "sort ?hosts \<noteq> sort domains"
      using False domainComparison_mset [of ?hosts domains] by (auto simp: domainComparison_def)
    then have "ReconcileResource api ing c = secret_there api ing c1"
      using assms(2-6) up
      by (simp add: ReconcileResource_def reconcileIssuer_def reconcileCert_def domainComparison_def)
    moreover obtain cert1 where "cl_Certificate (ap_view api c1) ?key = Inr cert1"
        "ce_dnsNames cert1 = Inr (Some (sort ?hosts))" "cl_Issuer (ap_view api c1) = cl_Issuer (ap_view api c)"
      using assms(1) up unfolding api_stores_names_def by blast
    ultimately show ?thesis by simp
  qed
  then obtain certificate' names where after:
    "cl_Certificate (ap_view api (snd (ReconcileResource api ing c))) ?key = Inr certificate'"
    "ce_dnsNames certificate' = Inr (Some names)" "mset names = mset ?hosts"
    "cl_Issuer (ap_view api (snd (ReconcileResource api ing c))) = cl_Issuer (ap_view api c)" by blast
  then have "ReconcileResource api ing (snd (ReconcileResource api ing c)) = (Inr (), snd (ReconcileResource api ing c))"
    using assms(2,4) by (intro certificate_in_place) simp_all
  with after show ?thesis by blast
qed

theorem certificate_converges_witness:
  "snd (ReconcileResource names_api two_hosts [''old.com'']) = [''a.com'', ''b.com''] \<and>
   mset (snd (ReconcileResource names_api two_hosts [''old.com''])) = mset [''b.com'', ''a.com''] \<and>
   ReconcileResource names_api two_hosts [''a.com'', ''b.com''] = (Inr (), [''a.com'', ''b.com''])"
proof -
  have "sort [''b.com'', ''a.com''] = [''a.com'', ''b.com'']" by code_simp
  then have sent: "snd (ReconcileResource names_api two_hosts [''old.com'']) = [''a.com'', ''b.com'']"
    by (simp add: ReconcileResource_def reconcileIssuer_def reconcileCert_def domainComparison_def names_api_def two_hosts_def)
  moreover have "\<exists>certificate' names.
    cl_Certificate (ap_view names_api (snd (ReconcileResource names_api two_hosts [''old.com'']))) (suffixed two_hosts ''-cert'') = Inr certificate' \<and>
    ce_dnsNames certificate' = Inr (Some names) \<and> mset names = mset (map ir_Host (Rules (ing_Spec two_hosts))) \<and>
    ReconcileResource names_api two_hosts (snd (ReconcileResource names_api two_hosts [''old.com''])) =
      (Inr (), snd (ReconcileResource names_api two_hosts [''old.com'']))"
    by (rule certificate_converges [of _ _ _ "\<lparr>ce_Name = ''web-cert'', ce_dnsNames = Inr (Some [''old.com''])\<rparr>"
          "[''old.com'']"])
       (auto simp: names_api_def two_hosts_def api_stores_names_def)
  ultimately show ?thesis by (auto simp: names_api_def two_hosts_def)
qed

end
