(* ===== verification/Annotations.thy ===== *)
theory Annotations
  imports Extractor
begin

text \<open>
  What the annotation groups and the extractor do together, stated of the functions of
  \<^verbatim>\<open>internal/annotations\<close> as the controller calls them: the extraction in any order of the
  groups, its errors, and the values each group accepts.
\<close>

section \<open>The extraction\<close>

lemma all_groups:
  "(\<forall>(n, p)\<in>set (NewAnnotationExtractor r). P n p) \<longleftrightarrow>
   P ''Proxy'' (group_value VProxy proxy_parse proxy_validate) \<and>
   P ''Redirect'' (group_value VRedirect redirect_parse redirect_validate) \<and>
   P ''AllowList'' (group_value VAllowList allow_parse allow_validate) \<and>
   P ''DenyList'' (group_value VDenyList deny_parse deny_validate) \<and>
   P ''Rewrite'' (group_value VRewrite rewrite_parse rewrite_validate) \<and>
   P ''SSLStapling'' (group_value VSSLStapling ssl_parse ssl_validate) \<and>
   P ''AllowCos'' (group_value VAllowCos cos_parse cos_validate) \<and>
   P ''Weight'' (group_value VWeight (weight_parse r) weight_validate)"
  by (simp add: NewAnnotationExtractor_def)

lemma group_value_parse: "ap_Parse (group_value c parse validate) ing = map_sum id c (parse ing)"
  by (simp add: group_value_def)

lemma map_sum_eq_Inr: "map_sum id c r = Inr v \<longleftrightarrow> (\<exists>x. r = Inr x \<and> v = c x)"
  by (cases r) auto

lemma map_sum_id_Inl: "map_sum id c r = Inl f \<longleftrightarrow> r = Inl f"
  by (cases r) auto

lemma extract_loop_values:
  assumes "iteration_of ps (NewAnnotationExtractor (info_resolver t))" and "extract_loop ps ing [] = Inr data"
  shows "\<exists>px rd al dl rw ss co bw.
    proxy_parse ing = Inr px \<and> redirect_parse ing = Inr rd \<and> allow_parse ing = Inr al \<and>
    deny_parse ing = Inr dl \<and> rewrite_parse ing = Inr rw \<and> ssl_parse ing = Inr ss \<and>
    cos_parse ing = Inr co \<and> weight_parse (info_resolver t) ing = Inr bw \<and>
    fill (map_of data) a = a\<lparr>ia_Proxy := px, ia_Rewrite := rw, ia_Redirect := rd, ia_SSLStapling := ss,
      ia_AllowList := al, ia_DenyList := dl, ia_AllowCos := co, ia_Weight := bw\<rparr>"
proof -
  have "\<forall>(n, p)\<in>set (NewAnnotationExtractor (info_resolver t)). \<exists>v. ap_Parse p ing = Inr v \<and> map_of data n = Some v"
    using extract_loop_data [OF assms] by auto
  then show ?thesis
    unfolding all_groups group_value_parse map_sum_eq_Inr by (elim exE conjE) (simp add: fill_def)
qed

lemma Extract_value:
  assumes "mergo_fills mg" and "iteration_of ps (NewAnnotationExtractor (info_resolver t))"
  shows "Extract mg ps ing = Inr a \<longleftrightarrow>
    (\<exists>px rd al dl rw ss co bw.
       proxy_parse ing = Inr px \<and> redirect_parse ing = Inr rd \<and> allow_parse ing = Inr al \<and>
       deny_parse ing = Inr dl \<and> rewrite_parse ing = Inr rw \<and> ssl_parse ing = Inr ss \<and>
       cos_parse ing = Inr co \<and> weight_parse (info_resolver t) ing = Inr bw \<and>
       a = \<lparr>ia_Name = ing_Name ing, ia_Namespace = ing_Namespace ing, ia_Annotations = ing_Annotations ing,
            ia_Proxy = px, ia_Rewrite = rw, ia_Redirect = rd, ia_SSLStapling = ss,
            ia_AllowList = al, ia_DenyList = dl, ia_AllowCos = co, ia_Weight = bw\<rparr>)"
    (is "_ \<longleftrightarrow> ?R a")
proof (cases "extract_loop ps ing []")
  case (Inl f)
  have "\<not> (\<forall>(n, p)\<in>set (NewAnnotationExtractor (info_resolver t)). \<exists>v. ap_Parse p ing = Inr v)"
    using extract_loop_ok_iff [OF assms(2), of ing] Inl by simp
  then have "\<not> ?R a"
    unfolding all_groups group_value_parse map_sum_eq_Inr by blast
  with Inl show ?thesis by (simp add: Extract_def)
next
  case (Inr data)
  have "mg (new_annotations ing) data = (fill (map_of data) (new_annotations ing), None)"
    using assms extract_loop_data_distinct [OF assms(2) Inr] by (simp add: mergo_fills_def)
  then have "Extract mg ps ing = Inr (fill (map_of data) (new_annotations ing))"
    using Inr by (simp add: Extract_def)
  with extract_loop_values [OF assms(2) Inr, of "new_annotations ing"] show ?thesis
    by (elim exE conjE) (simp add: new_annotations_def eq_commute [of a])
qed

text \<open>C12. Extraction does not depend on the order in which the groups run: it returns a value exactly
  when all eight groups parse, and the value has the result of every group in its field.\<close>

theorem extract_any_order:
  assumes "mergo_fills mg" and "iteration_of ps (NewAnnotationExtractor (info_resolver t))"
  shows "Extract mg ps ing = Inr a \<longleftrightarrow>
    (\<exists>px rd al dl rw ss co bw.
       proxy_parse ing = Inr px \<and> redirect_parse ing = Inr rd \<and> allow_parse ing = Inr al \<and>
       deny_parse ing = Inr dl \<and> rewrite_parse ing = Inr rw \<and> ssl_parse ing = Inr ss \<and>
       cos_parse ing = Inr co \<and> weight_parse (info_resolver t) ing = Inr bw \<and>
       a = \<lparr>ia_Name = ing_Name ing, ia_Namespace = ing_Namespace ing, ia_Annotations = ing_Annotations ing,
            ia_Proxy = px, ia_Rewrite = rw, ia_Redirect = rd, ia_SSLStapling = ss,
            ia_AllowList = al, ia_DenyList = dl, ia_AllowCos = co, ia_Weight = bw\<rparr>)"
  using Extract_value [OF assms] .

text \<open>Nothing the annotations ask for ends the process.\<close>

lemma port_no_exit: "GetSvcPort t q \<noteq> Inl Exit"
proof -
  have paths: "backend_in_paths n bs b \<noteq> Inl Exit" for n bs b
    by (induction bs) (auto simp: ebind_eq_Inl)
  have "efold (\<lambda>r b. ebind (deref (ir_HTTP r)) (\<lambda>ps. backend_in_paths n ps b)) rs b0 \<noteq> Inl Exit" for n rs b0
    by (induction rs arbitrary: b0) (auto simp: ebind_eq_Inl paths)
  then have "GetBackend t n \<noteq> Inl Exit" for n by (simp add: GetBackend_def)
  moreover have "port_of_backend t b \<noteq> Inl Exit" for b
    using GetService_error
    by (auto simp: port_of_backend_def ebind_eq_Inl split: sum.splits fault.splits)
  ultimately show ?thesis by (auto simp: GetSvcPort_def ebind_eq_Inl split: port_query.splits)
qed

lemma weight_parse_no_exit: "weight_parse (info_resolver t) ing \<noteq> Inl Exit"
proof -
  have "weight_entry (info_resolver t) s a st \<noteq> Inl Exit" for s a st
    using info.service_error port_no_exit [of t]
    by (auto simp: weight_entry_def Let_def ebind_eq_Inl index_def inspectWeightVal_def info_resolver_def
        split: if_splits sum.splits fault.splits)
  then have entries: "efold (weight_entry (info_resolver t) s) as st \<noteq> Inl Exit" for s as st
    by (induction as arbitrary: st) (auto simp: ebind_eq_Inl)
  have paths: "efold (\<lambda>r _. ebind (deref (ir_HTTP r)) (\<lambda>paths. if same_paths [] paths then Inr ()
      else Inl (Err (NewNotSatisfiableError m)))) rs () \<noteq> Inl Exit" for rs :: "ingress_rule list" and m
    by (induction rs) (auto simp: ebind_eq_Inl split: if_splits)
  show ?thesis
    using entries paths by (auto simp: weight_parse_def weight_check_def ebind_eq_Inl Let_def split: if_splits)
qed

text \<open>A fault of the extraction is one of a group, and one that is no error is of the weight group.\<close>

lemma extract_fault:
  assumes "iteration_of ps (NewAnnotationExtractor (info_resolver t))" and "Extract mg ps ing = Inl f"
  shows "proxy_parse ing = Inl f \<or> redirect_parse ing = Inl f \<or> allow_parse ing = Inl f \<or>
    deny_parse ing = Inl f \<or> rewrite_parse ing = Inl f \<or> weight_parse (info_resolver t) ing = Inl f"
proof -
  have "extract_loop ps ing [] = Inl f" using assms(2) by (auto simp: Extract_def ebind_eq_Inl)
  from extract_loop_error [OF assms(1) this]
  have "\<not> (\<forall>(n, p)\<in>set (NewAnnotationExtractor (info_resolver t)). ap_Parse p ing \<noteq> Inl f)" by blast
  then show ?thesis
    unfolding all_groups group_value_parse map_sum_id_Inl by (simp add: ssl_parse_def cos_parse_def)
qed

lemma extract_panic:
  assumes "iteration_of ps (NewAnnotationExtractor (info_resolver t))" and "Extract mg ps ing = Inl f"
    and "\<And>e. f \<noteq> Err e"
  shows "weight_parse (info_resolver t) ing = Inl f"
proof -
  have "proxy_parse ing \<noteq> Inl f" "redirect_parse ing \<noteq> Inl f" "allow_parse ing \<noteq> Inl f"
      "deny_parse ing \<noteq> Inl f" "rewrite_parse ing \<noteq> Inl f"
    using ip_allow.parse_error [of ing f] ip_deny.parse_error [of ing f] assms(3)
    by (auto simp: proxy_parse_def redirect_parse_def rewrite_parse_def Let_def split: option.splits if_splits)
  with extract_fault [OF assms(1,2)] show ?thesis by blast
qed

text \<open>C13. When extraction returns an error, it is the error of one of the groups and of a kind the
  controller reports; when it panics, the weight group does.\<close>

theorem extract_errors:
  assumes "iteration_of ps (NewAnnotationExtractor (info_resolver t))" and "Extract mg ps ing = Inl f"
  shows "(\<exists>e. f = Err e \<and> aborting e) \<and>
      Inl f \<in> {map_sum id VProxy (proxy_parse ing), map_sum id VRedirect (redirect_parse ing),
        map_sum id VAllowList (allow_parse ing), map_sum id VDenyList (deny_parse ing),
        map_sum id VRewrite (rewrite_parse ing), map_sum id VWeight (weight_parse (info_resolver t) ing)} \<or>
    (\<exists>p. f = Panic p) \<and> weight_parse (info_resolver t) ing = Inl f"
proof (cases f)
  case (Err e)
  with extract_fault [OF assms] have "aborting e"
    using proxy.parse_errors redirect.parse_errors ip_allow.parse_errors ip_deny.parse_errors
      rewrite.parse_errors weight.parse_errors by blast
  with extract_fault [OF assms] Err show ?thesis by auto
next
  case (Panic p)
  with extract_panic [OF assms] show ?thesis by simp
next
  case Exit
  with extract_panic [OF assms] weight_parse_no_exit show ?thesis by simp
qed
section \<open>Address lists\<close>

lemma PassIsIp_digits:
  assumes "PassIsIp s"
  shows "7 \<le> length s" and "length (filter (\<lambda>c. \<not> is_digit c) s) \<le> 3"
    and "is_digit (hd s)" and "is_digit (last s)"
proof -
  from assms obtain a x b y c z d where s: "s = a @ x # b @ y # c @ z # d"
    and u: "a \<noteq> []" "b \<noteq> []" "c \<noteq> []" "d \<noteq> []"
      "list_all is_digit a" "list_all is_digit b" "list_all is_digit c" "list_all is_digit d"
    by (auto simp: PassIsIp_iff)
  then have "1 \<le> length a" "1 \<le> length b" "1 \<le> length c" "1 \<le> length d"
    by (auto simp: Suc_le_eq)
  then show "7 \<le> length s" by (simp add: s)
  have none: "filter (\<lambda>c. \<not> is_digit c) w = []" if "list_all is_digit w" for w
    using that by (simp add: list_all_iff)
  show "length (filter (\<lambda>c. \<not> is_digit c) s) \<le> 3" by (simp add: s none u)
  show "is_digit (hd s)" using u by (cases a) (auto simp: s)
  show "is_digit (last s)" using u by (simp add: s list_all_iff)
qed

lemma digit_no_space: "is_digit c \<Longrightarrow> \<not> is_space c"
  by (auto simp: is_digit_def is_space_def Let_def)

lemma trim_space_ends:
  assumes "s \<noteq> []" and "\<not> is_space (hd s)" and "\<not> is_space (last s)"
  shows "trim_space s = s"
proof -
  have "dropWhile is_space s = s" using assms by (cases s) auto
  moreover have "dropWhile is_space (rev s) = rev s" using assms by (cases s rule: rev_cases) auto
  ultimately show ?thesis by (simp add: trim_space_def)
qed

lemma trim_space_address: "PassIsIp s \<Longrightarrow> trim_space s = s"
  using PassIsIp_digits [of s] by (intro trim_space_ends) (auto simp: digit_no_space)

lemma ip_entries_join:
  assumes "\<forall>a\<in>set as. PassIsIp a \<and> CHR '','' \<notin> set a"
  shows "ip_entries (join_with [CHR '',''] as) = as"
proof (cases "as = []")
  case True
  then show ?thesis by (simp add: ip_entries_def trim_space_def)
next
  case False
  have "map trim_space as = as" using assms trim_space_address by (simp add: map_idI)
  moreover have "filter (\<lambda>a. a \<noteq> []) as = as"
    using assms PassIsIp_digits(1) by (fastforce simp: filter_id_conv)
  ultimately show ?thesis using False assms by (simp add: ip_entries_def split_join)
qed

lemma sorted_list_of_set_iff:
  "finite S \<Longrightarrow> l = sorted_list_of_set S \<longleftrightarrow> sorted l \<and> distinct l \<and> set l = S"
  using sorted_distinct_set_unique by force

lemma allow_range_eq:
  "al = \<lparr>allow_CIDR = sorted_list_of_set (set as)\<rparr> \<longleftrightarrow>
     sorted (allow_CIDR al) \<and> distinct (allow_CIDR al) \<and> set (allow_CIDR al) = set as"
  using sorted_list_of_set_iff [of "set as" "allow_CIDR al"] by (cases al) simp

lemma deny_range_eq:
  "dl = \<lparr>deny_CIDR = sorted_list_of_set (set as)\<rparr> \<longleftrightarrow>
     sorted (deny_CIDR dl) \<and> distinct (deny_CIDR dl) \<and> set (deny_CIDR dl) = set as"
  using sorted_list_of_set_iff [of "set as" "deny_CIDR dl"] by (cases dl) simp

text \<open>An ingress with an allow list, for the instances.\<close>

definition address_ingress :: "string \<Rightarrow> ingress" where
  "address_ingress v =
     \<lparr>ing_Name = ''web'', ing_Namespace = ''shop'',
      ing_Annotations = [(''ingress.nginx.kubebuilder.io/allowList'', v)],
      ing_Spec = \<lparr>IngressClassName = ''nginx'', DefaultBackend = None, TLS = [], Rules = []\<rparr>\<rparr>"

lemma sample_addresses: "PassIsIp ''1.1.1.1''" "PassIsIp ''2.2.2.2''"
  by code_simp+

text \<open>C24. The allow list and the deny list accept an annotation exactly when every entry of it is an
  address, and then hold the entries, sorted and without repetition.\<close>

theorem address_lists:
  "(allow_parse ing = Inr al \<longleftrightarrow>
     (let as = set (ip_entries (annotation ing (GetAnnotationWithPrefix allowListAnnotation)))
      in (\<forall>a\<in>as. PassIsIp a) \<and> sorted (allow_CIDR al) \<and> distinct (allow_CIDR al) \<and> set (allow_CIDR al) = as)) \<and>
   (deny_parse ing = Inr dl \<longleftrightarrow>
     (let as = set (ip_entries (annotation ing (GetAnnotationWithPrefix denyListAnnotation)))
      in (\<forall>a\<in>as. PassIsIp a) \<and> sorted (deny_CIDR dl) \<and> distinct (deny_CIDR dl) \<and> set (deny_CIDR dl) = as))"
  unfolding ip_allow.parse_ok_iff ip_deny.parse_ok_iff Let_def allow_range_eq deny_range_eq
  by blast

theorem address_lists_witness:
  "map_sum id allow_CIDR (allow_parse (address_ingress ''2.2.2.2, 1.1.1.1 ,2.2.2.2'')) = Inr [''1.1.1.1'', ''2.2.2.2'']"
proof -
  let ?ing = "address_ingress ''2.2.2.2, 1.1.1.1 ,2.2.2.2''"
  have e: "ip_entries (annotation ?ing (GetAnnotationWithPrefix allowListAnnotation)) = [''2.2.2.2'', ''1.1.1.1'', ''2.2.2.2'']"
    by code_simp
  have "allow_parse ?ing = Inr \<lparr>allow_CIDR = [''1.1.1.1'', ''2.2.2.2'']\<rparr>"
    using address_lists [of ?ing "\<lparr>allow_CIDR = [''1.1.1.1'', ''2.2.2.2'']\<rparr>" undefined] e
    by (auto simp: sample_addresses less_eq_char_def)
  then show ?thesis by simp
qed

text \<open>A list written as sorted addresses separated by commas is read back as it was written.\<close>

theorem address_list_roundtrip:
  assumes "sorted as" and "distinct as" and "\<forall>a\<in>set as. PassIsIp a \<and> CHR '','' \<notin> set a"
    and "annotation ing (GetAnnotationWithPrefix allowListAnnotation) = join_with [CHR '',''] as"
  shows "allow_parse ing = Inr \<lparr>allow_CIDR = as\<rparr>"
proof -
  have "ip_entries (annotation ing (GetAnnotationWithPrefix allowListAnnotation)) = as"
    using assms by (simp add: ip_entries_join)
  then show ?thesis
    using assms unfolding ip_allow.parse_ok_iff allow_range_eq by simp
qed

theorem address_list_roundtrip_witness:
  "allow_parse (address_ingress ''1.1.1.1,2.2.2.2'') = Inr \<lparr>allow_CIDR = [''1.1.1.1'', ''2.2.2.2'']\<rparr>"
  by (rule address_list_roundtrip)
     (auto simp: sample_addresses less_eq_char_def address_ingress_def annotation_def GetAnnotationWithPrefix_def
        AnnotationsPrefix_def allowListAnnotation_def)

text \<open>C25. What passes as an address has at least seven characters, the first and the last of them
  digits, and at most three characters that are no digits: an address with a prefix length, as the
  comments of both lists show it, never passes.\<close>

theorem address_bounds:
  assumes "PassIsIp s"
  shows "7 \<le> length s \<and> length (filter (\<lambda>c. \<not> is_digit c) s) \<le> 3 \<and>
    is_digit (hd s) \<and> is_digit (last s) \<and>
    s \<noteq> a @ ''.'' @ b @ ''.'' @ c @ ''.'' @ d @ ''/'' @ m"
proof -
  have "s \<noteq> a @ ''.'' @ b @ ''.'' @ c @ ''.'' @ d @ ''/'' @ m"
  proof
    assume "s = a @ ''.'' @ b @ ''.'' @ c @ ''.'' @ d @ ''/'' @ m"
    then have "4 \<le> length (filter (\<lambda>c. \<not> is_digit c) s)" by (simp add: is_digit_def)
    with PassIsIp_digits(2) [OF assms] show False by simp
  qed
  with PassIsIp_digits [OF assms] show ?thesis by simp
qed

theorem address_bounds_witness:
  "PassIsIp ''10.0.0.8'' \<and> length (filter (\<lambda>c. \<not> is_digit c) ''10.0.0.8'') \<le> 3 \<and>
   is_digit (hd ''10.0.0.8'') \<and> is_digit (last ''10.0.0.8'') \<and> PassIsIp ''1234567'' \<and> \<not> PassIsIp ''10.0.0.8/16''"
proof (intro conjI)
  show ip: "PassIsIp ''10.0.0.8''" by code_simp
  from address_bounds [OF ip] show "length (filter (\<lambda>c. \<not> is_digit c) ''10.0.0.8'') \<le> 3"
    "is_digit (hd ''10.0.0.8'')" "is_digit (last ''10.0.0.8'')" by blast+
  show "PassIsIp ''1234567''" by code_simp
  show "\<not> PassIsIp ''10.0.0.8/16''"
    using address_bounds [of "''10.0.0.8/16''" "''10''" "''0''" "''0''" "''8''" "''16''"] by auto
qed

section \<open>Weights\<close>

definition written_entry :: "string \<times> nat \<Rightarrow> string" where
  "written_entry nw = fst nw @ '':weight='' @ show_nat (snd nw)"

definition upstream_server :: "service \<Rightarrow> int32 \<Rightarrow> nat \<Rightarrow> string" where
  "upstream_server svc port w =
     sv_Name svc @ ''.'' @ sv_Namespace svc @ ''.svc:'' @ show_int (sint port) @ '' '' @
     (if w = 0 then ''down'' else ''weight='' @ show_nat w)"

lemma show_nat_weight: "IsWeightPrefix (''weight='' @ show_nat w)"
proof -
  have "show_nat w = ''0'' \<or> (\<exists>d ds. show_nat w = d # ds \<and> is_digit d \<and> d \<noteq> CHR ''0'' \<and> list_all is_digit ds)"
  proof (induction w rule: show_nat.induct)
    case (1 n)
    show ?case
    proof (cases "n < 10")
      case True
      then have "n \<in> {0, 1, 2, 3, 4, 5, 6, 7, 8, 9}" by auto
      then show ?thesis by (subst (1 2) show_nat.simps) (auto simp: digit_char_def is_digit_def)
    next
      case False
      then have "show_nat n = show_nat (n div 10) @ [digit_char (n mod 10)]" by (subst show_nat.simps) simp
      moreover have "show_nat (n div 10) \<noteq> ''0''"
      proof
        assume "show_nat (n div 10) = ''0''"
        then have "n div 10 = digits_value ''0''" by (metis digits_value_show_nat)
        with False show False by (simp add: digits_value_def)
      qed
      ultimately show ?thesis using 1 False by auto
    qed
  qed
  then show ?thesis unfolding IsWeightPrefix_iff by auto
qed

lemma show_nat_zero: "show_nat w = ''0'' \<longleftrightarrow> w = 0"
proof
  assume "show_nat w = ''0''"
  then have "w = digits_value ''0''" by (metis digits_value_show_nat)
  then show "w = 0" by (simp add: digits_value_def)
next
  have "show_nat 0 = ''0''" by code_simp
  then show "w = 0 \<Longrightarrow> show_nat w = ''0''" by simp
qed

lemma digits_absent: "list_all is_digit ds \<Longrightarrow> \<not> is_digit c \<Longrightarrow> c \<notin> set ds"
  by (auto simp: list_all_iff)

lemma written_entry_plain:
  assumes "n \<noteq> []" and "\<not> is_space (hd n)"
  shows "trim_space (written_entry (n, w)) = written_entry (n, w)"
proof (rule trim_space_ends)
  have "is_digit (last (show_nat w))"
    using show_nat_digits [of w] by (simp add: list_all_iff)
  then show "\<not> is_space (last (written_entry (n, w)))"
    by (simp add: written_entry_def digit_no_space)
qed (use assms in \<open>simp_all add: written_entry_def\<close>)

lemma written_entry_split:
  assumes "CHR '':'' \<notin> set n"
  shows "split_on CHR '':'' (written_entry (n, w)) = [n, ''weight='' @ show_nat w]"
proof -
  have "CHR '':'' \<notin> set (''weight='' @ show_nat w)"
    using digits_absent [OF show_nat_digits] by (auto simp: is_digit_def)
  then have 1: "split_on CHR '':'' (''weight='' @ show_nat w) = [''weight='' @ show_nat w]" by (rule split_on_absent)
  have 2: "split_on CHR '':'' n = [n]" using assms by (rule split_on_absent)
  have "split_on CHR '':'' (n @ CHR '':'' # (''weight='' @ show_nat w)) = [n, ''weight='' @ show_nat w]"
    unfolding split_on_append 1 2 by simp
  then show ?thesis by (simp add: written_entry_def)
qed

lemma weight_entry_written:
  assumes "n \<noteq> []" and "\<not> is_space (hd n)" and "CHR '':'' \<notin> set n"
    and "rs_GetService rr n = Inr svc" and "rs_GetSvcPort rr (QName n) = Inr port" and "port \<noteq> 0"
  shows "weight_entry rr s (written_entry (n, w)) (up, l) =
    Inr (add_name svc up, l @ [upstream_server svc port w])"
proof -
  have "inspectWeightVal (''weight='' @ show_nat w) = Inr (if w = 0 then ''down'' else [])"
    using inspectWeightVal_ok [OF show_nat_weight [of w]] show_nat_zero [of w] by simp
  moreover have "written_entry (n, w) \<noteq> []" by (simp add: written_entry_def)
  ultimately show ?thesis
    using assms show_nat_weight [of w]
    by (simp add: weight_entry_def written_entry_plain written_entry_split index_def add_name_def
        upstream_server_def Let_def)
qed

text \<open>C22. Weights written as \<^verbatim>\<open>a:weight=80,b:weight=20\<close> are read back as they were written: the
  upstream has one server per entry, in order, at the port of its service and with the weight
  written, or out of service for a weight of zero, and it is named after the services and the ingress.\<close>

theorem weights_roundtrip:
  assumes "parse_bool (annotation ing (GetAnnotationWithPrefix useWeightAnnotation)) = Some True"
    and "annotation ing (GetAnnotationWithPrefix setWeightAnnotation) = join_with [CHR '',''] (map written_entry ws)"
    and "ws \<noteq> []"
    and "\<And>n w. (n, w) \<in> set ws \<Longrightarrow> n \<noteq> [] \<and> \<not> is_space (hd n) \<and> set n \<inter> {CHR '':'', CHR '',''} = {} \<and>
      rs_GetService rr n = Inr (svc n) \<and> rs_GetSvcPort rr (QName n) = Inr (port n) \<and> port n \<noteq> 0"
    and "\<And>r. r \<in> set (Rules (ing_Spec ing)) \<Longrightarrow> \<exists>ps. ir_HTTP r = Some ps \<and> same_paths [] ps"
  shows "weight_parse rr ing = Inr
    \<lparr>bw_SvcList = map (\<lambda>(n, w). upstream_server (svc n) (port n) w) ws,
     bw_Upstream = fold add_name (map (svc \<circ> fst) ws) [] @ ''-'' @ ing_Name ing @ ''-'' @ ing_Namespace ing,
     bw_UseWeight = True,
     bw_SetWeight = join_with [CHR '',''] (map written_entry ws)\<rparr>"
proof -
  have "CHR '','' \<notin> set (written_entry nw)" if "nw \<in> set ws" for nw
    using assms(4) [of "fst nw" "snd nw"] that digits_absent [OF show_nat_digits, of "CHR '',''" "snd nw"]
    by (auto simp: written_entry_def is_digit_def)
  then have split: "split_on CHR '','' (join_with [CHR '',''] (map written_entry ws)) = map written_entry ws"
    using assms(3) by (intro split_join) auto
  have loop: "efold (weight_entry rr s) (map written_entry vs) (up, l) =
      Inr (fold add_name (map (svc \<circ> fst) vs) up, l @ map (\<lambda>(n, w). upstream_server (svc n) (port n) w) vs)"
    if "set vs \<subseteq> set ws" for vs s up l
    using that
  proof (induction vs arbitrary: up l)
    case (Cons v vs)
    obtain n w where v: "v = (n, w)" by (cases v)
    with Cons.prems have "weight_entry rr s (written_entry v) (up, l) =
        Inr (add_name (svc n) up, l @ [upstream_server (svc n) (port n) w])"
      using assms(4) [of n w] by (simp add: weight_entry_written)
    with Cons v show ?case by simp
  qed simp
  have paths: "efold (\<lambda>r _. ebind (deref (ir_HTTP r)) (\<lambda>ps. if same_paths [] ps then Inr () else Inl (Err e))) rs () = Inr ()"
    if "set rs \<subseteq> set (Rules (ing_Spec ing))" for rs e
    using that by (induction rs) (use assms(5) in fastforce)+
  show ?thesis
    using assms(1-3) split loop [OF subset_refl] paths [OF subset_refl]
    by (simp add: weight_parse_def weight_check_def ann_simps)
qed

definition weighted_ingress :: ingress where
  "weighted_ingress =
     \<lparr>ing_Name = ''web'', ing_Namespace = ''shop'',
      ing_Annotations = [(''ingress.nginx.kubebuilder.io/use-weight'', ''true''),
        (''ingress.nginx.kubebuilder.io/set-weight'', ''a:weight=80,b:weight=0'')],
      ing_Spec = \<lparr>IngressClassName = ''nginx'', DefaultBackend = None, TLS = [],
        Rules = [\<lparr>ir_Host = ''shop.com'', ir_HTTP = Some (map (\<lambda>n.
          \<lparr>hp_Path = ''/buy'', hp_PathType = None, hp_Backend = \<lparr>ib_Service = Some
            \<lparr>sb_Name = n, sb_Port = \<lparr>bp_Name = '''', bp_Number = 80\<rparr>\<rparr>\<rparr>\<rparr>) [''a'', ''b''])\<rparr>]\<rparr>\<rparr>"

definition weighted_client :: client where
  "weighted_client =
     \<lparr>cl_Ingress = (\<lambda>_. Inr weighted_ingress),
      cl_Service = (\<lambda>k. Inr \<lparr>sv_Name = ok_Name k, sv_Namespace = ok_Namespace k,
        sv_Ports = [\<lparr>sp_Name = ''http'', sp_Port = 80\<rparr>]\<rparr>),
      cl_Secret = (\<lambda>_. Inr []), cl_IngressClass = (\<lambda>_. Inr []), cl_Issuer = (\<lambda>_. Inr ()),
      cl_Certificate = (\<lambda>_. Inl (ApiNotFound ''certificate''))\<rparr>"

theorem weights_roundtrip_witness:
  "map_sum id bw_SvcList (weight_parse (info_resolver (NewIngressInfo weighted_client weighted_ingress)) weighted_ingress) =
   Inr [''a.shop.svc:80 weight=80'', ''b.shop.svc:80 down'']"
proof -
  let ?svc = "\<lambda>n. \<lparr>sv_Name = n, sv_Namespace = ''shop'', sv_Ports = [\<lparr>sp_Name = ''http'', sp_Port = 80 :: int32\<rparr>]\<rparr>"
  let ?ws = "[(''a'', 80), (''b'', 0)] :: (string \<times> nat) list"
  let ?port = "\<lambda>_ :: string. 80 :: int32"
  have *: "weight_parse (info_resolver (NewIngressInfo weighted_client weighted_ingress)) weighted_ingress = Inr
    \<lparr>bw_SvcList = map (\<lambda>(n, w). upstream_server (?svc n) (?port n) w) ?ws,
     bw_Upstream = fold add_name (map (?svc \<circ> fst) ?ws) [] @ ''-'' @
       ing_Name weighted_ingress @ ''-'' @ ing_Namespace weighted_ingress,
     bw_UseWeight = True, bw_SetWeight = join_with [CHR '',''] (map written_entry ?ws)\<rparr>"
  proof (rule weights_roundtrip)
    show "parse_bool (annotation weighted_ingress (GetAnnotationWithPrefix useWeightAnnotation)) = Some True"
      by code_simp
    show "annotation weighted_ingress (GetAnnotationWithPrefix setWeightAnnotation) =
        join_with [CHR '',''] (map written_entry ?ws)"
      by code_simp
  qed (auto simp: weighted_ingress_def weighted_client_def NewIngressInfo_def info_resolver_def GetService_def
        GetSvcPort_def GetBackend_def port_of_backend_def is_space_def)
  have "show_nat 80 = ''80''" by code_simp
  then show ?thesis unfolding * by (simp add: upstream_server_def show_int_def)
qed

section \<open>The proxy and an ingress without annotations\<close>

lemma proxy_read_annotations:
  "proxy_read ing =
     \<lparr>px_ProxyPath = annotation ing (GetAnnotationWithPrefix proxyPathAnnotation),
      px_ProxyHost = annotation ing (GetAnnotationWithPrefix proxyHostAnnotation),
      px_ProxyTarget = annotation ing (GetAnnotationWithPrefix proxyTargetAnnotation),
      px_ProxyTargetPath = [],
      px_ProxySSL = (parse_bool (annotation ing (GetAnnotationWithPrefix proxySSLAnnotation)) = Some True),
      px_ProxyEnableRegex = (parse_bool (annotation ing (GetAnnotationWithPrefix proxyEnableRegex)) = Some True)\<rparr>"
  by (simp add: proxy_read_def ann_simps)

lemma proxy_read_parse:
  assumes "proxy_read ing = \<lparr>px_ProxyPath = p, px_ProxyHost = h, px_ProxyTarget = t, px_ProxyTargetPath = [],
    px_ProxySSL = s, px_ProxyEnableRegex = x\<rparr>"
  shows "proxy_parse ing = Inr c \<longleftrightarrow>
    (t = [] \<or> IsTargetPathRegex t) \<and> (IsRegexPatternRegex p \<longleftrightarrow> x \<or> t \<noteq> []) \<and> \<not> (PassIsIp h \<and> s) \<and>
    c = \<lparr>px_ProxyPath = (if IsRegexPatternRegex p then ''~ ^'' @ p else p), px_ProxyHost = h,
         px_ProxyTarget = t, px_ProxyTargetPath = p, px_ProxySSL = s, px_ProxyEnableRegex = x\<rparr>"
proof (cases "proxy_check (proxy_read ing)")
  case None
  then show ?thesis
    using proxy_check_None [of "proxy_read ing"] assms by (auto simp: proxy_parse_def formatProxyPath_def)
next
  case (Some e)
  then show ?thesis
    using proxy_check_None [of "proxy_read ing"] assms by (auto simp: proxy_parse_def)
qed

text \<open>C23. The proxy annotations are accepted exactly when they are consistent: a target is a rewrite
  target, the path is a regular expression exactly when the target or the regex switch asks for one, and
  an address is not to be reached over TLS. The location then is the path, marked as a regular
  expression when it is one, and the path as written is kept for the rewrite rule.\<close>

theorem proxy_consistent:
  "proxy_parse ing = Inr c \<longleftrightarrow>
   (let ann = (\<lambda>k. annotation ing (GetAnnotationWithPrefix k));
        flag = (\<lambda>k. parse_bool (ann k) = Some True)
    in (ann proxyTargetAnnotation = [] \<or> IsTargetPathRegex (ann proxyTargetAnnotation)) \<and>
       (IsRegexPatternRegex (ann proxyPathAnnotation) \<longleftrightarrow>
          flag proxyEnableRegex \<or> ann proxyTargetAnnotation \<noteq> []) \<and>
       \<not> (PassIsIp (ann proxyHostAnnotation) \<and> flag proxySSLAnnotation) \<and>
       c = \<lparr>px_ProxyPath = (if IsRegexPatternRegex (ann proxyPathAnnotation)
                            then ''~ ^'' @ ann proxyPathAnnotation else ann proxyPathAnnotation),
            px_ProxyHost = ann proxyHostAnnotation, px_ProxyTarget = ann proxyTargetAnnotation,
            px_ProxyTargetPath = ann proxyPathAnnotation,
            px_ProxySSL = flag proxySSLAnnotation, px_ProxyEnableRegex = flag proxyEnableRegex\<rparr>)"
  unfolding Let_def proxy_read_parse [OF proxy_read_annotations] by (rule refl)

definition proxy_ingress :: ingress where
  "proxy_ingress =
     \<lparr>ing_Name = ''web'', ing_Namespace = ''shop'',
      ing_Annotations = [(''ingress.nginx.kubebuilder.io/proxy-path'', ''/a(.*)''),
        (''ingress.nginx.kubebuilder.io/proxy-host'', ''b.com''),
        (''ingress.nginx.kubebuilder.io/proxy-target'', ''/$1'')],
      ing_Spec = \<lparr>IngressClassName = ''nginx'', DefaultBackend = None, TLS = [], Rules = []\<rparr>\<rparr>"

theorem proxy_consistent_witness:
  "map_sum id px_ProxyPath (proxy_parse proxy_ingress) = Inr ''~ ^/a(.*)''"
proof -
  have patterns: "IsTargetPathRegex ''/$1''" "IsRegexPatternRegex ''/a(.*)''" "\<not> PassIsIp ''b.com''"
    by code_simp+
  have read: "annotation proxy_ingress (GetAnnotationWithPrefix proxyTargetAnnotation) = ''/$1''"
    "annotation proxy_ingress (GetAnnotationWithPrefix proxyPathAnnotation) = ''/a(.*)''"
    "annotation proxy_ingress (GetAnnotationWithPrefix proxyHostAnnotation) = ''b.com''"
    by code_simp+
  have flags: "parse_bool (annotation proxy_ingress (GetAnnotationWithPrefix proxyEnableRegex)) = None"
    "parse_bool (annotation proxy_ingress (GetAnnotationWithPrefix proxySSLAnnotation)) = None"
    by code_simp+
  have "proxy_parse proxy_ingress = Inr \<lparr>px_ProxyPath = ''~ ^/a(.*)'', px_ProxyHost = ''b.com'', px_ProxyTarget = ''/$1'',
      px_ProxyTargetPath = ''/a(.*)'', px_ProxySSL = False, px_ProxyEnableRegex = False\<rparr>"
    unfolding proxy_consistent Let_def read flags by (simp add: patterns)
  then show ?thesis by simp
qed

lemma no_regex_in_nothing: "\<not> IsRegexPatternRegex []" "\<not> PassIsIp []"
  by (simp_all add: IsRegexPatternRegex_iff PassIsIp_iff)

lemma parse_bool_Nil: "parse_bool [] = None"
  by (simp add: parse_bool_def)

lemma extract_plain:
  assumes "mergo_fills mg" and "iteration_of ps (NewAnnotationExtractor (info_resolver t))"
    and "\<And>k. annotation ing (GetAnnotationWithPrefix k) = []"
  shows "Extract mg ps ing = Inr (new_annotations ing)"
proof -
  have nil: "ip_entries [] = []" by (simp add: ip_entries_def trim_space_def)
  have "proxy_parse ing = Inr (ia_Proxy (new_annotations ing))"
    using assms(3) no_regex_in_nothing
    by (simp add: proxy_parse_def proxy_read_def ann_simps proxy_check_def formatProxyPath_def parse_bool_Nil new_annotations_def)
  moreover have "redirect_parse ing = Inr (ia_Redirect (new_annotations ing))"
    using assms(3) by (simp add: redirect_parse_def redirect_check_def ann_simps new_annotations_def)
  moreover have "allow_parse ing = Inr (ia_AllowList (new_annotations ing))"
      "deny_parse ing = Inr (ia_DenyList (new_annotations ing))"
    using assms(3) nil by (simp_all add: ip_allow.parse_ok_iff ip_deny.parse_ok_iff new_annotations_def)
  moreover have "rewrite_parse ing = Inr (ia_Rewrite (new_annotations ing))"
      "ssl_parse ing = Inr (ia_SSLStapling (new_annotations ing))"
      "cos_parse ing = Inr (ia_AllowCos (new_annotations ing))"
      "weight_parse (info_resolver t) ing = Inr (ia_Weight (new_annotations ing))"
    using assms(3)
    by (simp_all add: rewrite_parse_def ssl_parse_def cos_parse_def weight_parse_def weight_check_def
        ann_simps parse_bool_Nil new_annotations_def)
  moreover obtain data where data: "extract_loop ps ing [] = Inr data"
    using extract_loop_ok_iff [OF assms(2), of ing] calculation
    unfolding all_groups group_value_parse map_sum_eq_Inr by blast
  ultimately have "fill (map_of data) (new_annotations ing) = new_annotations ing"
    using extract_loop_values [OF assms(2) data, of "new_annotations ing"] by (elim exE conjE) simp
  moreover have "mg (new_annotations ing) data = (fill (map_of data) (new_annotations ing), None)"
    using assms extract_loop_data_distinct [OF assms(2) data] by (simp add: mergo_fills_def)
  ultimately show ?thesis using data by (simp add: Extract_def)
qed

section \<open>Instances of the extraction\<close>

definition filling :: mergo where
  "filling a d = (fill (map_of d) a, None)"

lemma filling_fills: "mergo_fills filling"
  by (simp add: mergo_fills_def filling_def)

definition sample_groups :: "ingress \<Rightarrow> Extractor" where
  "sample_groups ing = rev (NewAnnotationExtractor (info_resolver (NewIngressInfo weighted_client ing)))"

lemma sample_groups_iteration:
  "iteration_of (sample_groups ing) (NewAnnotationExtractor (info_resolver (NewIngressInfo weighted_client ing)))"
  by (simp add: iteration_of_def sample_groups_def)

theorem extract_any_order_witness:
  "map_sum id ia_AllowList (Extract filling (sample_groups (address_ingress ''1.1.1.1''))
      (address_ingress ''1.1.1.1'')) = Inr \<lparr>allow_CIDR = [''1.1.1.1'']\<rparr>"
proof -
  let ?ing = "address_ingress ''1.1.1.1''" and ?t = "NewIngressInfo weighted_client (address_ingress ''1.1.1.1'')"
  have "proxy_parse ?ing = Inr (ia_Proxy (new_annotations ?ing))"
      "redirect_parse ?ing = Inr (ia_Redirect (new_annotations ?ing))"
      "deny_parse ?ing = Inr (ia_DenyList (new_annotations ?ing))"
      "rewrite_parse ?ing = Inr (ia_Rewrite (new_annotations ?ing))"
      "ssl_parse ?ing = Inr (ia_SSLStapling (new_annotations ?ing))"
      "cos_parse ?ing = Inr (ia_AllowCos (new_annotations ?ing))"
      "weight_parse (info_resolver ?t) ?ing = Inr (ia_Weight (new_annotations ?ing))"
    by code_simp+
  moreover have "allow_parse ?ing = Inr \<lparr>allow_CIDR = [''1.1.1.1'']\<rparr>" by code_simp
  ultimately show ?thesis
    using extract_any_order [OF filling_fills sample_groups_iteration [of ?ing], of ?ing
        "(new_annotations ?ing)\<lparr>ia_AllowList := \<lparr>allow_CIDR = [''1.1.1.1'']\<rparr>\<rparr>"]
    by (simp add: new_annotations_def)
qed

theorem extract_errors_witness:
  "\<exists>e. Extract filling (sample_groups (address_ingress ''x'')) (address_ingress ''x'') = Inl (Err e) \<and> aborting e"
proof -
  let ?ing = "address_ingress ''x''" and ?t = "NewIngressInfo weighted_client (address_ingress ''x'')"
  have "weight_parse (info_resolver ?t) ?ing = Inr (ia_Weight (new_annotations ?ing))" by code_simp
  moreover have "isl (Extract filling (sample_groups ?ing) ?ing)" by code_simp
  then obtain f where f: "Extract filling (sample_groups ?ing) ?ing = Inl f" by (auto simp: isl_def)
  ultimately show ?thesis
    using extract_errors [OF sample_groups_iteration f] by auto
qed

end
