(* ===== verification/Reconciler.thy ===== *)
theory Reconciler
  imports NginxConf Resources Annotations
begin

text \<open>
  \<^verbatim>\<open>internal/controller/ingress_controller.go\<close>: one reconciliation of one ingress, over the
  state of the cluster and the world of files and commands. What the controller finds around it is a
  record: the API server, the merge library, the order in which the annotation groups are visited,
  the rest of the template package and the commands.
\<close>

record 'c outside =
  rc_api :: "'c api"
  rc_mergo :: mergo
  rc_order :: "Extractor \<Rightarrow> Extractor"
  rc_tr :: template_rest
  rc_env :: nginx_env

definition controller :: string where "controller = ''kubebuilder.io/ingress-nginx''"
definition nginxAnnotationKey :: string where "nginxAnnotationKey = ''kubernetes.io/ingress.class''"
definition nginxAnnotationVal :: string where "nginxAnnotationVal = ''kubebuilder-nginx''"

definition checkController :: "client \<Rightarrow> ingress \<Rightarrow> go_error option" where
  "checkController cl ing =
     (if IngressClassName (ing_Spec ing) = [] \<and> annotation ing nginxAnnotationKey = []
      then Some (Errorf ''select available ingress nginx controller'')
      else if annotation ing nginxAnnotationKey = nginxAnnotationVal then None
      else
        (case cl_IngressClass cl \<lparr>ok_Name = IngressClassName (ing_Spec ing), ok_Namespace = ing_Namespace ing\<rparr> of
           Inl e \<Rightarrow> Some e
         | Inr ctl \<Rightarrow>
             if ctl \<noteq> controller then Some (Errorf ''pls select available ingress nginx controller'') else None))"

definition checkService :: "client \<Rightarrow> object_key \<Rightarrow> go_error option" where
  "checkService cl key =
     (case cl_Service cl key of
        Inl err \<Rightarrow>
          if IsNotFound err then Some (Errorf ''no svc resource available'')
          else Some (Errorf ''unable to fetch svc resource'')
      | Inr _ \<Rightarrow> None)"

text \<open>The service of a back end, checked in the namespace of the ingress: the loop body.\<close>

definition check_backend :: "client \<Rightarrow> ingress \<Rightarrow> ingress_backend \<Rightarrow> go_error list result" where
  "check_backend cl ing b =
     ebind (deref (ib_Service b)) (\<lambda>sb.
       case checkService cl \<lparr>ok_Name = sb_Name sb, ok_Namespace = ing_Namespace ing\<rparr> of
         Some e \<Rightarrow> Inr [e]
       | None \<Rightarrow> Inr [])"

definition check_rules :: "client \<Rightarrow> ingress \<Rightarrow> go_error list result" where
  "check_rules cl ing =
     efold (\<lambda>v errs. ebind (deref (ir_HTTP v)) (\<lambda>paths.
         efold (\<lambda>h errs. ebind (check_backend cl ing (hp_Backend h)) (\<lambda>es. Inr (errs @ es))) paths errs))
       (Rules (ing_Spec ing)) []"

text \<open>An error of the update of the default configuration is dropped.\<close>

fun drop_error :: "unit result \<times> world \<Rightarrow> unit result \<times> world" where
  "drop_error (Inl (Err e), w) = (Inr (), w)"
| "drop_error (r, w) = (r, w)"

definition default_renderer :: RenderTemplate where
  "default_renderer =
     \<lparr>GenerateName = hd (split_on CHR ''.'' MainConf), RenderTemplateName = DefaultTmpl, MainTemplateName = NginxTmpl\<rparr>"

definition clearConf :: "template_rest \<Rightarrow> nginx_env \<Rightarrow> object_key \<Rightarrow> world \<Rightarrow> unit result \<times> world" where
  "clearConf tr env key w =
     (let conf = path_join [ConfDir, ok_Name key @ ''-'' @ ok_Namespace key @ ''.conf'']
      in case os_stat conf w of
           Inl _ \<Rightarrow> drop_error (UpdateDefaultConf tr env default_renderer w)
         | Inr _ \<Rightarrow> (Inr (), CleanConf [conf] w))"

text \<open>The part after the resources: annotations, configuration. The result is the delay of the requeue.\<close>

definition generate :: "'c outside \<Rightarrow> ingress \<Rightarrow> 'c \<Rightarrow> world \<Rightarrow> nat result \<times> world" where
  "generate out ic c w =
     (let rr = info_resolver (info_at (rc_api out) ic c)
      in case Extract (rc_mergo out) (rc_order out (NewAnnotationExtractor rr)) ic of
           Inl (Err _) \<Rightarrow> (Inr 15, w)
         | Inl f \<Rightarrow> (Inl f, w)
         | Inr parsed \<Rightarrow>
             (case GenerateConfigure (rc_tr out) (rc_env out) \<lparr>nc_rr = rr, nc_ingress = ic\<rparr> parsed w of
                (Inl (Err _), w1) \<Rightarrow> (Inr 15, w1)
              | (Inl f, w1) \<Rightarrow> (Inl f, w1)
              | (Inr _, w1) \<Rightarrow> (Inr 0, w1)))"

definition resources_then_generate :: "'c outside \<Rightarrow> ingress \<Rightarrow> 'c \<Rightarrow> world \<Rightarrow> nat result \<times> 'c \<times> world" where
  "resources_then_generate out ic c w =
     (case ReconcileResource (rc_api out) ic c of
        (Inl (Err _), c1) \<Rightarrow> (Inr 15, c1, w)
      | (Inl f, c1) \<Rightarrow> (Inl f, c1, w)
      | (Inr _, c1) \<Rightarrow> (case generate out ic c1 w of (r, w1) \<Rightarrow> (r, c1, w1)))"

definition Reconcile :: "'c outside \<Rightarrow> object_key \<Rightarrow> 'c \<Rightarrow> world \<Rightarrow> nat result \<times> 'c \<times> world" where
  "Reconcile out req c w =
     (let cl = ap_view (rc_api out) c
      in case cl_Ingress cl req of
           Inl _ \<Rightarrow>
             (case clearConf (rc_tr out) (rc_env out) req w of
                (r, w1) \<Rightarrow> (ebind r (\<lambda>_. Inr 0), c, w1))
         | Inr ic \<Rightarrow>
             if checkController cl ic \<noteq> None then (Inr 30, c, w)
             else
               (case (case DefaultBackend (ing_Spec ic) of None \<Rightarrow> Inr [] | Some d \<Rightarrow> check_backend cl ic d) of
                  Inl f \<Rightarrow> (Inl f, c, w)
                | Inr (e # _) \<Rightarrow> (Inr 30, c, w)
                | Inr [] \<Rightarrow>
                    (case check_rules cl ic of
                       Inl f \<Rightarrow> (Inl f, c, w)
                     | Inr errList \<Rightarrow>
                         if length errList > 0 then (Inr 30, c, w)
                         else resources_then_generate out ic c w)))"

section \<open>The checks\<close>

definition service_missing :: "client \<Rightarrow> ingress \<Rightarrow> ingress_backend \<Rightarrow> bool" where
  "service_missing cl ing b \<longleftrightarrow>
     (\<exists>sb e. ib_Service b = Some sb \<and>
        cl_Service cl \<lparr>ok_Name = sb_Name sb, ok_Namespace = ing_Namespace ing\<rparr> = Inl e)"

lemma check_backend_eq:
  "check_backend cl ing b = Inr es \<longleftrightarrow>
     ib_Service b \<noteq> None \<and> (if service_missing cl ing b then \<exists>e. es = [e] \<and> check_backend cl ing b = Inr [e] else es = [])"
  by (cases "ib_Service b")
     (auto simp: check_backend_def checkService_def service_missing_def split: sum.splits option.splits)

lemma check_backend_no_err: "check_backend cl ing b \<noteq> Inl (Err e)"
  by (auto simp: check_backend_def ebind_eq_Inl split: option.splits)

lemma check_paths_ok:
  "efold (\<lambda>h errs. ebind (check_backend cl ing (hp_Backend h)) (\<lambda>es. Inr (errs @ es))) ps errs = Inr out \<Longrightarrow>
   (out = [] \<longleftrightarrow> errs = [] \<and> (\<forall>p\<in>set ps. \<not> service_missing cl ing (hp_Backend p))) \<and>
   (\<forall>p\<in>set ps. ib_Service (hp_Backend p) \<noteq> None)"
proof (induction ps arbitrary: errs)
  case (Cons p ps)
  then obtain es where es: "check_backend cl ing (hp_Backend p) = Inr es"
    and rest: "efold (\<lambda>h errs. ebind (check_backend cl ing (hp_Backend h)) (\<lambda>es. Inr (errs @ es))) ps (errs @ es) = Inr out"
    by (auto simp: ebind_eq_Inr)
  from es have "ib_Service (hp_Backend p) \<noteq> None" and "es = [] \<longleftrightarrow> \<not> service_missing cl ing (hp_Backend p)"
    using check_backend_eq [of cl ing "hp_Backend p" es] by (auto split: if_splits)
  with Cons.IH [OF rest] show ?case by auto
qed simp

lemma check_rules_ok:
  assumes "check_rules cl ing = Inr errs"
  shows "errs = [] \<longleftrightarrow>
    (\<forall>v\<in>set (Rules (ing_Spec ing)). \<forall>ps. ir_HTTP v = Some ps \<longrightarrow> (\<forall>p\<in>set ps. \<not> service_missing cl ing (hp_Backend p)))"
proof -
  have "efold (\<lambda>v errs. ebind (deref (ir_HTTP v)) (\<lambda>paths.
         efold (\<lambda>h errs. ebind (check_backend cl ing (hp_Backend h)) (\<lambda>es. Inr (errs @ es))) paths errs)) vs errs0 = Inr out \<Longrightarrow>
      out = [] \<longleftrightarrow> errs0 = [] \<and> (\<forall>v\<in>set vs. \<forall>ps. ir_HTTP v = Some ps \<longrightarrow> (\<forall>p\<in>set ps. \<not> service_missing cl ing (hp_Backend p)))"
    for vs errs0 out
  proof (induction vs arbitrary: errs0)
    case (Cons v vs)
    then obtain ps errs1 where v: "ir_HTTP v = Some ps"
      and 1: "efold (\<lambda>h errs. ebind (check_backend cl ing (hp_Backend h)) (\<lambda>es. Inr (errs @ es))) ps errs0 = Inr errs1"
      and 2: "efold (\<lambda>v errs. ebind (deref (ir_HTTP v)) (\<lambda>paths.
         efold (\<lambda>h errs. ebind (check_backend cl ing (hp_Backend h)) (\<lambda>es. Inr (errs @ es))) paths errs)) vs errs1 = Inr out"
      by (auto simp: ebind_eq_Inr)
    from Cons.IH [OF 2] check_paths_ok [OF 1] v show ?case by auto
  qed simp
  from this [OF assms [unfolded check_rules_def]] show ?thesis by simp
qed

text \<open>Every pointer to a service or to the paths of a rule is there.\<close>

definition services_named :: "ingress \<Rightarrow> bool" where
  "services_named ic \<longleftrightarrow>
     list_all (\<lambda>v. case ir_HTTP v of None \<Rightarrow> False | Some ps \<Rightarrow> list_all (\<lambda>p. ib_Service (hp_Backend p) \<noteq> None) ps) (Rules (ing_Spec ic)) \<and>
     (case DefaultBackend (ing_Spec ic) of None \<Rightarrow> True | Some d \<Rightarrow> ib_Service d \<noteq> None)"

lemma check_backend_returns: "ib_Service b \<noteq> None \<Longrightarrow> \<exists>es. check_backend cl ing b = Inr es"
  by (auto simp: check_backend_def split: option.split)

lemma check_backend_missing: "service_missing cl ing b \<Longrightarrow> \<exists>e. check_backend cl ing b = Inr [e]"
  by (auto simp: check_backend_def checkService_def service_missing_def split: sum.split)

lemma check_backend_there: "ib_Service b \<noteq> None \<Longrightarrow> \<not> service_missing cl ing b \<Longrightarrow> check_backend cl ing b = Inr []"
  by (cases "ib_Service b") (auto simp: check_backend_def checkService_def service_missing_def split: sum.splits option.splits)

lemma efold_returns:
  assumes "\<And>x s. x \<in> set xs \<Longrightarrow> \<exists>s'. f x s = Inr s'"
  shows "\<exists>s'. efold f xs s = Inr s'"
  using assms
proof (induction xs arbitrary: s)
  case (Cons x xs)
  then obtain s1 where "f x s = Inr s1" by (meson list.set_intros(1))
  with Cons show ?case by simp
qed simp

lemma check_rules_returns:
  assumes "services_named ic"
  shows "\<exists>errs. check_rules cl ic = Inr errs"
  unfolding check_rules_def
proof (rule efold_returns)
  fix v errs assume "v \<in> set (Rules (ing_Spec ic))"
  with assms obtain ps where ps: "ir_HTTP v = Some ps" "\<And>p. p \<in> set ps \<Longrightarrow> ib_Service (hp_Backend p) \<noteq> None"
    unfolding services_named_def list_all_iff by (auto split: option.splits)
  have "\<exists>out. efold (\<lambda>h errs. ebind (check_backend cl ic (hp_Backend h)) (\<lambda>es. Inr (errs @ es))) ps errs = Inr out"
  proof (rule efold_returns)
    fix p s assume "p \<in> set ps"
    then obtain es where "check_backend cl ic (hp_Backend p) = Inr es" using ps(2) check_backend_returns by blast
    then show "\<exists>s'. ebind (check_backend cl ic (hp_Backend p)) (\<lambda>es. Inr (s @ es)) = Inr s'" by simp
  qed
  with ps(1) show "\<exists>out. ebind (deref (ir_HTTP v)) (\<lambda>paths.
      efold (\<lambda>h errs. ebind (check_backend cl ic (hp_Backend h)) (\<lambda>es. Inr (errs @ es))) paths errs) = Inr out" by simp
qed

lemma check_rules_no_err: "check_rules cl ing \<noteq> Inl (Err e)"
proof -
  have inner: "efold (\<lambda>h errs. ebind (check_backend cl ing (hp_Backend h)) (\<lambda>es. Inr (errs @ es))) ps errs \<noteq> Inl (Err e)"
    for ps errs
    by (induction ps arbitrary: errs) (auto simp: ebind_eq_Inl check_backend_no_err)
  have "efold (\<lambda>v errs. ebind (deref (ir_HTTP v)) (\<lambda>paths.
         efold (\<lambda>h errs. ebind (check_backend cl ing (hp_Backend h)) (\<lambda>es. Inr (errs @ es))) paths errs)) vs errs0 \<noteq> Inl (Err e)"
    for vs errs0
    by (induction vs arbitrary: errs0) (auto simp: ebind_eq_Inl inner)
  then show ?thesis by (simp add: check_rules_def)
qed

section \<open>Outcomes\<close>

lemma drop_error_no_err: "fst (drop_error rw) \<noteq> Inl (Err e)"
  by (cases rw rule: drop_error.cases) auto

lemma clearConf_no_err: "fst (clearConf tr env key w) \<noteq> Inl (Err e)"
  using drop_error_no_err by (simp add: clearConf_def Let_def split: sum.splits)

text \<open>A reconciliation ends: done, or to be repeated after 15 or 30 seconds, or the process does.\<close>

definition reconcile_outcomes :: "nat result set" where
  "reconcile_outcomes = {Inr 0, Inr 15, Inr 30, Inl Exit, Inl (Panic NilDereference), Inl (Panic IndexOutOfRange)}"

lemma non_error_outcome: "f \<noteq> Err e' \<Longrightarrow> (\<And>e. f \<noteq> Err e) \<Longrightarrow> Inl f \<in> reconcile_outcomes"
proof (cases f)
  case (Panic p)
  then show ?thesis by (cases p) (auto simp: reconcile_outcomes_def)
qed (auto simp: reconcile_outcomes_def)

lemma fault_outcome: "(\<And>e. f \<noteq> Err e) \<Longrightarrow> Inl f \<in> reconcile_outcomes"
  using non_error_outcome by metis

lemma delay_outcome [simp]:
  "Inr 0 \<in> reconcile_outcomes" "Inr 15 \<in> reconcile_outcomes" "Inr 30 \<in> reconcile_outcomes"
  by (simp_all add: reconcile_outcomes_def)

lemma generate_outcome: "fst (generate out ic c w) \<in> reconcile_outcomes"
  by (auto simp: generate_def Let_def intro: fault_outcome split: sum.splits fault.splits prod.splits)

lemma resources_outcome: "fst (resources_then_generate out ic c w) \<in> reconcile_outcomes"
proof (cases "ReconcileResource (rc_api out) ic c")
  case (Pair r c1)
  show ?thesis
  proof (cases r)
    case (Inl f)
    with Pair show ?thesis by (cases f) (auto simp: resources_then_generate_def intro: fault_outcome)
  next
    case (Inr u)
    with Pair generate_outcome [of out ic c1 w] show ?thesis
      by (auto simp: resources_then_generate_def split: prod.splits)
  qed
qed

text \<open>The steps before anything is written.\<close>

lemma Reconcile_found:
  assumes "cl_Ingress (ap_view (rc_api out) c) req = Inr ic"
    and "checkController (ap_view (rc_api out) c) ic = None"
    and "\<And>d. DefaultBackend (ing_Spec ic) = Some d \<Longrightarrow> check_backend (ap_view (rc_api out) c) ic d = Inr []"
    and "check_rules (ap_view (rc_api out) c) ic = Inr []"
  shows "Reconcile out req c w = resources_then_generate out ic c w"
  using assms by (auto simp: Reconcile_def Let_def split: option.splits)

section \<open>The log of a reconciliation\<close>

lemma UpdateDefaultConf_log:
  "\<exists>es. events (snd (UpdateDefaultConf tr env rt w)) = events w @ es \<and> signals_tested env es"
proof -
  let ?cfg = "TStruct [(''Server'', server_value (\<lparr>se_Name = [], se_NameSpace = [], se_HostName = [],
      se_Tls = empty_cert, se_Paths = []\<rparr> :: ing_annotations server))]"
  obtain r w1 where 1: "rt_Render tr rt ?cfg w = (r, w1)" by (meson surj_pair)
  have gen: "events w2 = events w" if "rt_Generate rt b w = (q, w2)" for b q w2
  proof -
    obtain e v where v: "os_write (GenerateName rt @ ''-test.conf'') b w = (e, v)" by (meson surj_pair)
    with that os_write_touches [OF v] show ?thesis
      by (cases e) (auto simp: rt_Generate_def Let_def split: sum.splits if_splits)
  qed
  have ev: "events w1 = events w"
    using 1 unfolding rt_Render_def by (elim sbind_cases) (auto dest: gen)
  from nginx_reload.signals_after [OF 1 this] show ?thesis by (simp add: UpdateDefaultConf_def)
qed

lemma drop_error_world: "snd (drop_error rw) = snd rw"
  by (cases rw rule: drop_error.cases) auto

lemma clearConf_log:
  "\<exists>es. events (snd (clearConf tr env key w)) = events w @ es \<and> signals_tested env es"
proof (cases "os_stat (path_join [ConfDir, ok_Name key @ ''-'' @ ok_Namespace key @ ''.conf'']) w")
  case (Inl e)
  then show ?thesis
    using UpdateDefaultConf_log [of tr env default_renderer w] by (simp add: clearConf_def drop_error_world)
next
  case (Inr n)
  then show ?thesis using CleanConf_frame by (auto simp: clearConf_def intro: exI [of _ "[]"])
qed

lemma GenerateConfigure_log:
  "\<exists>es. events (snd (GenerateConfigure tr env n ann w)) = events w @ es \<and> signals_tested env es"
proof -
  obtain es es' where "events (snd (GenerateConfigure tr env n ann w)) = events w @ es @ es'"
      "tested_then_hup env es" "tested_then_hup env es'"
    using GenerateConfigure_two_logs by blast
  then show ?thesis
    using signals_tested_append tested_then_hup_signals by (intro exI [of _ "es @ es'"]) simp
qed

lemma generate_log:
  "\<exists>es. events (snd (generate out ic c w)) = events w @ es \<and> signals_tested (rc_env out) es"
proof -
  let ?rr = "info_resolver (info_at (rc_api out) ic c)"
  have none: "\<exists>es. events w = events w @ es \<and> signals_tested (rc_env out) es" by (intro exI [of _ "[]"]) simp
  show ?thesis
  proof (cases "Extract (rc_mergo out) (rc_order out (NewAnnotationExtractor ?rr)) ic")
    case (Inl f)
    with none show ?thesis by (cases f) (simp_all add: generate_def)
  next
    case (Inr parsed)
    obtain r w1 where g: "GenerateConfigure (rc_tr out) (rc_env out) \<lparr>nc_rr = ?rr, nc_ingress = ic\<rparr> parsed w = (r, w1)"
      by (meson surj_pair)
    have "snd (generate out ic c w) = w1"
      using Inr g by (auto simp: generate_def split: sum.splits fault.splits)
    then show ?thesis
      using GenerateConfigure_log [of "rc_tr out" "rc_env out" "\<lparr>nc_rr = ?rr, nc_ingress = ic\<rparr>" parsed w] g by simp
  qed
qed

lemma resources_log:
  "\<exists>es. events (snd (snd (resources_then_generate out ic c w))) = events w @ es \<and> signals_tested (rc_env out) es"
proof -
  obtain r c1 where r: "ReconcileResource (rc_api out) ic c = (r, c1)" by (meson surj_pair)
  obtain q w1 where g: "generate out ic c1 w = (q, w1)" by (meson surj_pair)
  show ?thesis
  proof (cases r)
    case (Inl f)
    with r show ?thesis by (cases f) (auto simp: resources_then_generate_def intro: exI [of _ "[]"])
  next
    case (Inr u)
    with r g generate_log [of out ic c1 w] show ?thesis by (simp add: resources_then_generate_def)
  qed
qed

section \<open>Properties\<close>

text \<open>A reconciliation never returns an error to the manager: it is done, or asks to be repeated
  after 15 or 30 seconds, unless it panics or the process ends.\<close>

theorem reconcile_never_fails: "fst (Reconcile out req c w) \<in> reconcile_outcomes"
proof (cases "cl_Ingress (ap_view (rc_api out) c) req")
  case (Inl e)
  obtain r w1 where k: "clearConf (rc_tr out) (rc_env out) req w = (r, w1)" by (meson surj_pair)
  then have "r \<noteq> Inl (Err x)" for x using clearConf_no_err [of "rc_tr out" "rc_env out" req w] by simp
  with Inl k show ?thesis
    by (cases r) (auto simp: Reconcile_def Let_def intro: fault_outcome)
next
  case (Inr ic)
  let ?cl = "ap_view (rc_api out) c"
  show ?thesis
  proof (cases "checkController ?cl ic")
    case None
    let ?d = "case DefaultBackend (ing_Spec ic) of None \<Rightarrow> Inr [] | Some d \<Rightarrow> check_backend ?cl ic d"
    have d: "?d \<noteq> Inl (Err e)" for e by (simp add: check_backend_no_err split: option.split)
    have R: "Reconcile out req c w = (case ?d of Inl f \<Rightarrow> (Inl f, c, w) | Inr (e # _) \<Rightarrow> (Inr 30, c, w)
        | Inr [] \<Rightarrow> (case check_rules ?cl ic of Inl f \<Rightarrow> (Inl f, c, w)
           | Inr errs \<Rightarrow> if length errs > 0 then (Inr 30, c, w) else resources_then_generate out ic c w))"
      using Inr None by (simp add: Reconcile_def Let_def)
    show ?thesis
    proof (cases ?d)
      case (Inl f)
      then show ?thesis using d unfolding R Inl by (auto intro: fault_outcome)
    next
      case (Inr es)
      have "fst (case check_rules ?cl ic of Inl f \<Rightarrow> (Inl f, c, w)
           | Inr errs \<Rightarrow> if length errs > 0 then (Inr 30, c, w) else resources_then_generate out ic c w)
        \<in> reconcile_outcomes"
        using check_rules_no_err [of ?cl ic] resources_outcome [of out ic c w]
        by (cases "check_rules ?cl ic") (auto intro: fault_outcome)
      then show ?thesis unfolding R Inr by (cases es) simp_all
    qed
  qed (use Inr in \<open>simp add: Reconcile_def\<close>)
qed

text \<open>C11. Whatever a reconciliation runs into, every signal it sends to nginx comes right after a
  configuration test that did not fail.\<close>

theorem reconcile_tests_before_signal:
  "\<exists>es. events (snd (snd (Reconcile out req c w))) = events w @ es \<and> signals_tested (rc_env out) es"
proof -
  have none: "\<exists>es. events w = events w @ es \<and> signals_tested (rc_env out) es" by (intro exI [of _ "[]"]) simp
  show ?thesis
  proof (cases "cl_Ingress (ap_view (rc_api out) c) req")
    case (Inl e)
    obtain r w1 where k: "clearConf (rc_tr out) (rc_env out) req w = (r, w1)" by (meson surj_pair)
    with Inl clearConf_log [of "rc_tr out" "rc_env out" req w] show ?thesis by (simp add: Reconcile_def)
  next
    case (Inr ic)
    have "snd (snd (Reconcile out req c w)) \<in> {w, snd (snd (resources_then_generate out ic c w))}"
      using Inr by (simp add: Reconcile_def Let_def split: sum.splits list.splits option.splits)
    then show ?thesis using none resources_log [of out ic c w] by auto
  qed
qed

text \<open>C26. An ingress of another controller, or with a default back end or, when every back end names a
  service, a back end of a rule whose service is missing, is left alone: neither the cluster nor a file
  changes, and the ingress is looked at again after 30 seconds.\<close>

theorem foreign_or_incomplete_untouched:
  assumes "cl_Ingress (ap_view (rc_api out) c) req = Inr ic"
    and "checkController (ap_view (rc_api out) c) ic \<noteq> None \<or>
      (\<exists>d. DefaultBackend (ing_Spec ic) = Some d \<and> service_missing (ap_view (rc_api out) c) ic d) \<or>
      services_named ic \<and>
      (\<exists>v ps p. v \<in> set (Rules (ing_Spec ic)) \<and> ir_HTTP v = Some ps \<and> p \<in> set ps \<and>
         service_missing (ap_view (rc_api out) c) ic (hp_Backend p))"
  shows "Reconcile out req c w = (Inr 30, c, w)"
proof (cases "checkController (ap_view (rc_api out) c) ic")
  case (Some e)
  then show ?thesis using assms(1) by (simp add: Reconcile_def)
next
  case None
  let ?cl = "ap_view (rc_api out) c"
  show ?thesis
  proof (cases "\<exists>d. DefaultBackend (ing_Spec ic) = Some d \<and> service_missing ?cl ic d")
    case True
    then obtain d e where "DefaultBackend (ing_Spec ic) = Some d" "check_backend ?cl ic d = Inr [e]"
      using check_backend_missing by blast
    with assms(1) None show ?thesis by (simp add: Reconcile_def)
  next
    case False
    with assms(2) None have named: "services_named ic"
      and missing: "\<exists>v ps p. v \<in> set (Rules (ing_Spec ic)) \<and> ir_HTTP v = Some ps \<and> p \<in> set ps \<and>
        service_missing ?cl ic (hp_Backend p)" by blast+
    obtain errs where errs: "check_rules ?cl ic = Inr errs" using check_rules_returns [OF named] by blast
    then have "errs \<noteq> []" using check_rules_ok [OF errs] missing by blast
    moreover have "(case DefaultBackend (ing_Spec ic) of None \<Rightarrow> Inr [] | Some d \<Rightarrow> check_backend ?cl ic d) = Inr []"
      using named False by (auto simp: services_named_def check_backend_there split: option.splits)
    ultimately show ?thesis using assms(1) None errs by (simp add: Reconcile_def)
  qed
qed

definition quiet_outside :: "unit outside" where
  "quiet_outside =
     \<lparr>rc_api = \<lparr>ap_view = (\<lambda>_. \<lparr>cl_Ingress = (\<lambda>_. Inr (shop_ingress \<lparr>bp_Name = '''', bp_Number = 80\<rparr>)),
          cl_Service = (\<lambda>_. Inl (ApiNotFound ''service'')), cl_Secret = (\<lambda>_. Inl (ApiNotFound ''secret'')),
          cl_IngressClass = (\<lambda>_. Inr controller), cl_Issuer = (\<lambda>_. Inr ()),
          cl_Certificate = (\<lambda>_. Inl (ApiNotFound ''certificate''))\<rparr>),
        ap_create_issuer = (\<lambda>_ c. (None, c)), ap_create_cert = (\<lambda>_ _ c. (None, c)), ap_update_cert = (\<lambda>_ _ c. (None, c))\<rparr>,
      rc_mergo = (\<lambda>a d. (fill (map_of d) a, None)), rc_order = id, rc_tr = strict_rest, rc_env = sample_env RunOk\<rparr>"

text \<open>An ingress with a default back end only.\<close>

definition default_only_ingress :: ingress where
  "default_only_ingress = sample_ingress\<lparr>ing_Spec := (ing_Spec sample_ingress)
     \<lparr>DefaultBackend := Some \<lparr>ib_Service = Some \<lparr>sb_Name = ''cart'', sb_Port = \<lparr>bp_Name = '''', bp_Number = 80\<rparr>\<rparr>\<rparr>, Rules := []\<rparr>\<rparr>"

theorem foreign_or_incomplete_untouched_witness:
  "Reconcile quiet_outside \<lparr>ok_Name = ''web'', ok_Namespace = ''shop''\<rparr> () sample_disk = (Inr 30, (), sample_disk) \<and>
   (\<exists>out :: unit outside. cl_Ingress (ap_view (rc_api out) ()) \<lparr>ok_Name = ''web'', ok_Namespace = ''shop''\<rparr> = Inr default_only_ingress \<and>
     Reconcile out \<lparr>ok_Name = ''web'', ok_Namespace = ''shop''\<rparr> () sample_disk = (Inr 30, (), sample_disk))"
proof (intro conjI)
  show "Reconcile quiet_outside \<lparr>ok_Name = ''web'', ok_Namespace = ''shop''\<rparr> () sample_disk = (Inr 30, (), sample_disk)"
    by (rule foreign_or_incomplete_untouched [where ic = "shop_ingress \<lparr>bp_Name = '''', bp_Number = 80\<rparr>"])
       (simp add: quiet_outside_def, intro disjI2 conjI exI [of _ "shop_path ''/a'' \<lparr>bp_Name = '''', bp_Number = 80\<rparr>"],
        auto simp: quiet_outside_def shop_ingress_def sample_ingress_def shop_path_def service_missing_def services_named_def)
  let ?out = "quiet_outside\<lparr>rc_api := (rc_api quiet_outside)\<lparr>ap_view :=
    \<lambda>c. (ap_view (rc_api quiet_outside) c)\<lparr>cl_Ingress := \<lambda>_. Inr default_only_ingress\<rparr>\<rparr>\<rparr>"
  have "Reconcile ?out \<lparr>ok_Name = ''web'', ok_Namespace = ''shop''\<rparr> () sample_disk = (Inr 30, (), sample_disk)"
    by (rule foreign_or_incomplete_untouched [where ic = default_only_ingress])
       (simp_all add: quiet_outside_def default_only_ingress_def service_missing_def)
  then show "\<exists>out :: unit outside. cl_Ingress (ap_view (rc_api out) ()) \<lparr>ok_Name = ''web'', ok_Namespace = ''shop''\<rparr> = Inr default_only_ingress \<and>
     Reconcile out \<lparr>ok_Name = ''web'', ok_Namespace = ''shop''\<rparr> () sample_disk = (Inr 30, (), sample_disk)"
    by (intro exI [of _ ?out]) simp
qed

text \<open>C30. Any error of the read of an ingress, not only that it is gone, removes its installed
  configuration: after one failed read of the API server the file is deleted, everything else stays,
  and the reconciliation counts as done.\<close>

theorem read_error_clears_configuration:
  assumes "cl_Ingress (ap_view (rc_api out) c) req = Inl e"
    and "conf = conf_name (ok_Name req) (ok_Namespace req) @ ''.conf''"
    and "CHR ''/'' \<notin> set (ok_Name req @ ok_Namespace req)"
    and "files w conf = Some old" and "healthy w conf"
  shows "Reconcile out req c w = (Inr 0, c, set_file conf None w)"
proof -
  have "plain_name (ok_Name req @ ''-'' @ ok_Namespace req @ ''.conf'')"
    using assms(3) by (intro plain_nameI) auto
  then have "path_join [ConfDir, ok_Name req @ ''-'' @ ok_Namespace req @ ''.conf''] = conf"
    using assms(2) by (simp add: conf_dir_join conf_name_def)
  then have "clearConf (rc_tr out) (rc_env out) req w = (Inr (), set_file conf None w)"
    using assms(4,5) by (simp add: clearConf_def os_stat_def CleanConf_simps CleanConf1_healthy)
  then show ?thesis using assms(1) by (simp add: Reconcile_def)
qed

definition failing_outside :: "unit outside" where
  "failing_outside = quiet_outside\<lparr>rc_api := (rc_api quiet_outside)
     \<lparr>ap_view := (\<lambda>c. (ap_view (rc_api quiet_outside) c)\<lparr>cl_Ingress := (\<lambda>_. Inl (ApiError ''etcdserver: request timed out''))\<rparr>)\<rparr>\<rparr>"

theorem read_error_clears_configuration_witness:
  "files (snd (snd (Reconcile failing_outside \<lparr>ok_Name = ''web'', ok_Namespace = ''shop''\<rparr> ()
      (sample_world sample_files)))) ''/etc/nginx/conf.d/web-shop.conf'' = None"
proof -
  have conf: "conf_name ''web'' ''shop'' @ ''.conf'' = sample_name @ ''.conf''"
    by (simp add: conf_name_def ConfDir_def sample_name_def)
  have "Reconcile failing_outside \<lparr>ok_Name = ''web'', ok_Namespace = ''shop''\<rparr> () (sample_world sample_files) =
      (Inr 0, (), set_file (sample_name @ ''.conf'') None (sample_world sample_files))"
    by (rule read_error_clears_configuration [where e = "ApiError ''etcdserver: request timed out''" and old = "''server a''"])
       (simp_all add: failing_outside_def quiet_outside_def conf sample_facts sample_facts(1) [unfolded healthy_conf_def])
  then show ?thesis by (simp add: sample_name_def)
qed

lemma reconcile_done_steps:
  assumes "cl_Ingress (ap_view (rc_api out) c) req = Inr ic"
    and "Reconcile out req c w = (Inr 0, c1, w1)"
  shows "checkController (ap_view (rc_api out) c) ic = None \<and>
    (\<forall>v\<in>set (Rules (ing_Spec ic)). \<forall>ps. ir_HTTP v = Some ps \<longrightarrow>
       (\<forall>p\<in>set ps. \<not> service_missing (ap_view (rc_api out) c) ic (hp_Backend p))) \<and>
    ReconcileResource (rc_api out) ic c = (Inr (), c1) \<and>
    (\<exists>rr parsed. rr = info_resolver (info_at (rc_api out) ic c1) \<and>
       Extract (rc_mergo out) (rc_order out (NewAnnotationExtractor rr)) ic = Inr parsed \<and>
       GenerateConfigure (rc_tr out) (rc_env out) \<lparr>nc_rr = rr, nc_ingress = ic\<rparr> parsed w = (Inr (), w1))"
proof -
  let ?cl = "ap_view (rc_api out) c"
  have ctl: "checkController ?cl ic = None"
    using assms by (auto simp: Reconcile_def Let_def split: if_splits)
  have rules: "check_rules ?cl ic = Inr []" and step: "resources_then_generate out ic c w = (Inr 0, c1, w1)"
    using assms ctl by (auto simp: Reconcile_def Let_def split: sum.splits list.splits option.splits if_splits)
  obtain r c2 where rr: "ReconcileResource (rc_api out) ic c = (r, c2)" by (meson surj_pair)
  obtain q w2 where g: "generate out ic c2 w = (q, w2)" by (meson surj_pair)
  have res: "r = Inr ()" "c2 = c1" "q = Inr 0" "w2 = w1"
    using step rr g by (auto simp: resources_then_generate_def split: sum.splits fault.splits)
  let ?rr = "info_resolver (info_at (rc_api out) ic c1)"
  obtain parsed where p: "Extract (rc_mergo out) (rc_order out (NewAnnotationExtractor ?rr)) ic = Inr parsed"
    using g res by (auto simp: generate_def Let_def split: sum.splits fault.splits)
  moreover have "GenerateConfigure (rc_tr out) (rc_env out) \<lparr>nc_rr = ?rr, nc_ingress = ic\<rparr> parsed w = (Inr (), w1)"
    using g res p by (auto simp: generate_def Let_def split: sum.splits fault.splits prod.splits)
  ultimately show ?thesis
    using ctl check_rules_ok [OF rules] rr res by blast
qed

text \<open>When a reconciliation of an ingress that is there reports that it is done, every step was done:
  the ingress is of this controller, its services are there, its certificate is reconciled, its
  annotations were extracted, and its configuration was generated and loaded without an error.\<close>

theorem reconcile_done:
  assumes "cl_Ingress (ap_view (rc_api out) c) req = Inr ic"
    and "Reconcile out req c w = (Inr 0, c1, w1)"
  shows "checkController (ap_view (rc_api out) c) ic = None \<and>
    (\<forall>v\<in>set (Rules (ing_Spec ic)). \<forall>ps. ir_HTTP v = Some ps \<longrightarrow>
       (\<forall>p\<in>set ps. \<not> service_missing (ap_view (rc_api out) c) ic (hp_Backend p))) \<and>
    ReconcileResource (rc_api out) ic c = (Inr (), c1) \<and>
    (\<exists>rr parsed. rr = info_resolver (info_at (rc_api out) ic c1) \<and>
       Extract (rc_mergo out) (rc_order out (NewAnnotationExtractor rr)) ic = Inr parsed \<and>
       GenerateConfigure (rc_tr out) (rc_env out) \<lparr>nc_rr = rr, nc_ingress = ic\<rparr> parsed w = (Inr (), w1))"
  using reconcile_done_steps [OF assms] .

definition idle_ingress :: ingress where
  "idle_ingress = sample_ingress\<lparr>ing_Annotations := [(nginxAnnotationKey, nginxAnnotationVal)],
     ing_Spec := \<lparr>IngressClassName = [], DefaultBackend = None, TLS = [], Rules = []\<rparr>\<rparr>"

definition idle_outside :: "unit outside" where
  "idle_outside = quiet_outside\<lparr>rc_api := (rc_api quiet_outside)
     \<lparr>ap_view := (\<lambda>c. (ap_view (rc_api quiet_outside) c)\<lparr>cl_Ingress := (\<lambda>_. Inr idle_ingress)\<rparr>)\<rparr>\<rparr>"

theorem reconcile_done_witness:
  "checkController (ap_view (rc_api idle_outside) ()) idle_ingress = None \<and>
   ReconcileResource (rc_api idle_outside) idle_ingress () = (Inr (), ())"
proof -
  let ?rr = "info_resolver (info_at (rc_api idle_outside) idle_ingress ())"
  have mg: "mergo_fills (rc_mergo idle_outside)"
    by (simp add: mergo_fills_def idle_outside_def quiet_outside_def)
  have order: "iteration_of (rc_order idle_outside (NewAnnotationExtractor ?rr)) (NewAnnotationExtractor ?rr)"
    by (simp add: iteration_of_def idle_outside_def quiet_outside_def)
  have plain: "annotation idle_ingress (GetAnnotationWithPrefix k) = []" for k
    by (simp add: annotation_def idle_ingress_def GetAnnotationWithPrefix_def AnnotationsPrefix_def nginxAnnotationKey_def)
  have spec: "Rules (ing_Spec idle_ingress) = []" "DefaultBackend (ing_Spec idle_ingress) = None"
    by (simp_all add: idle_ingress_def)
  have ing: "cl_Ingress (ap_view (rc_api idle_outside) ()) req = Inr idle_ingress" for req
    by (simp add: idle_outside_def)
  have ctl: "checkController cl idle_ingress = None" for cl
    by (simp add: checkController_def idle_ingress_def annotation_def nginxAnnotationKey_def nginxAnnotationVal_def)
  have "generate idle_outside idle_ingress () sample_disk = (Inr 0, sample_disk)"
    using extract_plain [OF mg order plain] by (simp add: generate_def GenerateConfigure_def spec)
  then have "resources_then_generate idle_outside idle_ingress () sample_disk = (Inr 0, (), sample_disk)"
    by (simp add: resources_then_generate_def ReconcileResource_def spec)
  then have "Reconcile idle_outside \<lparr>ok_Name = ''web'', ok_Namespace = ''shop''\<rparr> () sample_disk = (Inr 0, (), sample_disk)"
    by (subst Reconcile_found [OF ing ctl]) (simp_all add: spec check_rules_def)
  from reconcile_done [OF ing this] show ?thesis by blast
qed

end
