(* ===== verification/DefaultTemplate.thy ===== *)
theory DefaultTemplate
  imports ServerTemplate Reconciler
begin

text \<open>
  The main configuration and the default back end: \<^verbatim>\<open>nginx.tmpl\<close> and
  \<^verbatim>\<open>defaultBackend.tmpl\<close> under \<^verbatim>\<open>rootfs/etc/nginx/template\<close>, what they render to for
  an ingress with a default back end, and what they render to when the controller clears a
  configuration that is not there.
\<close>

section \<open>The texts\<close>

definition default_listen :: string where
  "default_listen = lines
    [''server {'',
     ''    listen       80;'',
     ''    listen  [::]:80;'',
     ''    listen       443 ssl;'',
     ''    listen  [::]:443 ssl;'',
     ''    server_name  _;'',
     [],
     ''    ssl_certificate /etc/nginx/ssl/default.pem;'',
     ''    ssl_certificate_key /etc/nginx/ssl/default.key;'',
     ''    ssl_protocols TLSv1 TLSv1.1 TLSv1.2;'',
     ''    ssl_ciphers EECDH+CHACHA20:EECDH+AES128:RSA+AES128:EECDH+AES256:RSA+AES256:EECDH+3DES:RSA+3DES:!MD5;'',
     ''    ssl_prefer_server_ciphers on;'',
     ''    ssl_session_timeout 10m;'',
     ''    ssl_session_cache builtin:1000 shared:SSL:10m;'',
     ''    ssl_buffer_size 1400;'',
     ''    add_header Strict-Transport-Security max-age=15768000;'',
     [],
     ''    '']"

definition default_headers :: string where
  "default_headers = lines
    [[],
     ''    location / {'',
     ''        set $best_http_host      $http_host;'',
     ''        set $pass_server_port    $server_port;'',
     ''        set $pass_port           $pass_server_port;'',
     ''        set $pass_access_scheme  $scheme;'',
     [],
     ''        # Allow websocket connections'',
     ''        proxy_set_header Upgrade $http_upgrade;'',
     ''        proxy_set_header Connection '' @ [CHR 0x22] @ ''upgrade'' @ [CHR 0x22] @ '';'',
     [],
     ''        proxy_set_header X-Real-IP $remote_addr;'',
     ''        proxy_set_header X-Forwarded-For $proxy_add_x_forwarded_for;'',
     ''        proxy_set_header X-Forwarded-For        $remote_addr;'',
     ''        proxy_set_header X-Forwarded-Host       $best_http_host;'',
     ''        proxy_set_header X-Forwarded-Port       $pass_port;'',
     ''        proxy_set_header X-Forwarded-Proto      $pass_access_scheme;'',
     ''        proxy_set_header X-Forwarded-Scheme     $pass_access_scheme;'',
     ''        proxy_set_header X-Scheme               $pass_access_scheme;'',
     ''        # Pass the original X-Forwarded-For'',
     ''        proxy_set_header X-Original-Forwarded-For $http_x_forwarded_for;'',
     [],
     ''        proxy_connect_timeout                   5s;'',
     ''        proxy_send_timeout                      60s;'',
     ''        proxy_read_timeout                      60s;'',
     [],
     ''        proxy_buffering                         off;'',
     ''        proxy_buffer_size                       4k;'',
     ''        proxy_buffers                           4 4k;'',
     [],
     ''        proxy_max_temp_file_size                1024m;'',
     [],
     ''        proxy_request_buffering                 on;'',
     ''        proxy_http_version                      1.1;'',
     [],
     ''        proxy_cookie_domain                     off;'',
     ''        proxy_cookie_path                       off;'',
     [],
     ''        # In case of errors try the next upstream server before returning an error'',
     ''        proxy_next_upstream                     error timeout;'',
     ''        proxy_next_upstream_timeout             0;'',
     ''        proxy_next_upstream_tries               3;'',
     ''        proxy_pass http://'']"

definition default_index :: string where
  "default_index = lines
    [[],
     ''    location / {'',
     ''        # root   /usr/share/nginx/html;'',
     ''        index  index.html index.htm;'',
     ''    }'',
     ''    '']"

definition default_end :: string where
  "default_end = lines
    [[],
     [],
     ''    error_page   500 502 503 504  /50x.html;'',
     ''    location = /50x.html {'',
     ''        root   /usr/share/nginx/html;'',
     ''    }'',
     ''}'',
     []]"

definition default_pieces :: "(string \<times> string) list" where
  "default_pieces =
     [(default_listen, '' if eq (len .Server.Paths) 1 ''),
      (lines [[], ''    ''], '' range $backend := .Server.Paths ''),
      (default_headers, '' $backend.Name ''),
      (''.'', '' $backend.NameSpace ''),
      (''.svc:'', '' $backend.Port ''),
      (lines ['';'', ''        proxy_redirect                         off;'', ''    }'', ''    ''], '' end ''),
      (lines [[], ''    ''], '' else ''),
      (default_index, '' end '')]"

definition default_tmpl :: string where
  "default_tmpl = pieces_text default_pieces default_end"

definition default_nodes :: "node list" where
  "default_nodes =
    [NText default_listen,
    NIf (EEq (ELen (EChain BDot [''Server'', ''Paths''])) (ENum 1))
      [NText (lines [[], ''    '']),
      NRange ''backend'' (EChain BDot [''Server'', ''Paths''])
        [NText default_headers,
        NOut (EChain (BVar ''backend'') [''Name'']),
        NText (''.''),
        NOut (EChain (BVar ''backend'') [''NameSpace'']),
        NText (''.svc:''),
        NOut (EChain (BVar ''backend'') [''Port'']),
        NText (lines ['';'', ''        proxy_redirect                         off;'', ''    }'', ''    ''])],
      NText (lines [[], ''    ''])]
      [NText default_index],
    NText default_end]"

definition nginx_head :: string where
  "nginx_head = lines
    [''worker_processes  4;'',
     ''#error_log  /var/log/nginx/error.log notice;'',
     ''daemon off;'',
     ''pid        /var/run/nginx.pid;'',
     ''worker_rlimit_nofile 1047552;'',
     ''worker_shutdown_timeout 240s ;'',
     [],
     ''events {'',
     ''        multi_accept        on;'',
     ''        worker_connections  16384;'',
     ''        use                 epoll;'',
     ''}'',
     [],
     ''http {'',
     ''    include       /etc/nginx/mime.types;'',
     ''    default_type  application/octet-stream;'',
     ''    proxy_headers_hash_max_size     2048;'',
     ''    proxy_headers_hash_bucket_size  128;'',
     [],
     ''    log_format  main  '' @ [CHR 0x27] @ ''$remote_addr - $remote_user [$time_local] '' @ [CHR 0x22] @ ''$request'' @ [CHR 0x22] @ '' '' @ [CHR 0x27],
     ''                      '' @ [CHR 0x27] @ ''$status $body_bytes_sent '' @ [CHR 0x22] @ ''$http_referer'' @ [CHR 0x22] @ '' '' @ [CHR 0x27],
     ''                      '' @ [CHR 0x27] @ [CHR 0x22] @ ''$http_user_agent'' @ [CHR 0x22] @ '' '' @ [CHR 0x22] @ ''$http_x_forwarded_for'' @ [CHR 0x22] @ [CHR 0x27] @ '';'',
     [],
     ''    access_log  /var/log/nginx/access.log  main;'',
     ''    error_log  /var/log/nginx/error.log notice;'',
     ''    sendfile        on;'',
     ''    #tcp_nopush     on;'',
     [],
     ''    keepalive_timeout  65;'',
     [],
     ''    # gzip  on;'',
     [],
     ''    '']"

definition nginx_tail :: string where
  "nginx_tail = lines [[], [], ''    include /etc/nginx/conf.d/*.conf;'', ''}'', [], []]"

definition nginx_tmpl :: string where
  "nginx_tmpl = pieces_text [(nginx_head, '' template '' @ [CHR 0x22] @ ''servers'' @ [CHR 0x22] @ '' '')] nginx_tail"

section \<open>Parsing them\<close>

lemma p_items_template:
  "p_items its (acc @ [NTemplate n], st) = R \<Longrightarrow> p_items (IAct [KIdent ''template'', KStr n] # its) (acc, st) = R"
  by simp

lemma default_texts_open:
  "no_open (default_listen @ ''{'')" "no_open (default_headers @ ''{'')" "no_open (default_index @ ''{'')"
  "no_open (nginx_head @ ''{'')"
  unfolding default_listen_def default_headers_def default_index_def nginx_head_def
  by (rule no_open_lines, code_simp, code_simp, simp)+

lemma default_texts_not_Nil:
  "default_listen \<noteq> []" "default_headers \<noteq> []" "default_index \<noteq> []" "default_end \<noteq> []" "nginx_head \<noteq> []" "nginx_tail \<noteq> []"
  unfolding default_listen_def default_headers_def default_index_def default_end_def nginx_head_def nginx_tail_def
  by (rule lines_not_Nil)+

lemma last_texts_open: "no_open default_end" "no_open nginx_tail"
  by code_simp+

lemma default_actions:
  "action_tokens '' if eq (len .Server.Paths) 1 '' =
     Some [KIdent ''if'', KIdent ''eq'', KOpen, KIdent ''len'', KChain BDot [''Server'', ''Paths''], KClose, KNum 1]"
  "action_tokens ('' template '' @ [CHR 0x22] @ ''servers'' @ [CHR 0x22] @ '' '') = Some [KIdent ''template'', KStr ''servers'']"
  by code_simp+

lemma default_pieces_open: "list_all (\<lambda>(t, a). no_open (t @ ''{'')) default_pieces"
  unfolding default_pieces_def by (simp add: no_open_step no_open_lines default_texts_open)

lemma default_parses: "parse_nodes default_tmpl = Some default_nodes"
  unfolding default_tmpl_def
  apply (rule parse_pieces)
  using default_pieces_open unfolding default_pieces_def list.pred_inject prod.case
   apply (elim conjE)
   apply (rule pieces_items_Cons, assumption, (rule server_actions default_actions))+
   apply (rule pieces_items_Nil, rule last_texts_open)
  apply ((rule p_items_text, simp add: lines_not_Nil default_texts_not_Nil) | rule p_items_end p_items_else
      | (rule p_items_if p_items_range p_items_out, simp add: p_pipeline_def numeral_eq_Suc scope_def))+
  apply (simp add: default_nodes_def)
  done

lemma nginx_parses: "parse_nodes nginx_tmpl = Some [NText nginx_head, NTemplate ''servers'', NText nginx_tail]"
  unfolding nginx_tmpl_def
  apply (rule parse_pieces)
   apply (rule pieces_items_Cons [OF default_texts_open(4) default_actions(2)])
   apply (rule pieces_items_Nil, rule last_texts_open)
  apply (rule p_items_text, rule default_texts_not_Nil, rule p_items_template, rule p_items_text, rule default_texts_not_Nil)
  apply simp
  done

section \<open>Executing them\<close>

definition default_location :: "ing_annotations backend \<Rightarrow> string" where
  "default_location b =
     default_headers @ be_Name b @ ''.'' @ be_NameSpace b @ ''.svc:'' @ show_int (sint (be_Port b)) @
     lines ['';'', ''        proxy_redirect                         off;'', ''    }'', ''    '']"

definition default_page :: "ing_annotations backend list \<Rightarrow> string" where
  "default_page bs =
     default_listen @
     (if length bs = 1 then lines [[], ''    ''] @ concat (map default_location bs) @ lines [[], ''    ''] else default_index) @
     default_end"

definition main_page :: "string \<Rightarrow> string" where
  "main_page page = nginx_head @ page @ nginx_tail"

lemma exec_default:
  assumes "TextTemplate.fields dot [''Server'', ''Paths''] = Inr (TList (map backend_value bs))"
  shows "exec tr S d [] dot default_nodes = Inr (default_page bs)"
proof -
  have range: "exec tr S d [] dot [NText (lines [[], ''    '']), NRange ''backend'' (EChain BDot [''Server'', ''Paths''])
        [NText default_headers, NOut (EChain (BVar ''backend'') [''Name'']), NText (''.''),
         NOut (EChain (BVar ''backend'') [''NameSpace'']), NText (''.svc:''), NOut (EChain (BVar ''backend'') [''Port'']),
         NText (lines ['';'', ''        proxy_redirect                         off;'', ''    }'', ''    ''])],
      NText (lines [[], ''    ''])] =
      Inr (lines [[], ''    ''] @ concat (map default_location bs) @ lines [[], ''    ''])"
    by (rule exec_steps(1), rule exec_steps(4) [OF assms], simp add: default_location_def backend_value_def port_value_def)
       (rule exec_last)
  have cond: "eval [] dot (EEq (ELen (EChain BDot [''Server'', ''Paths''])) (ENum 1)) = Inr (TBool (length bs = 1))"
    using assms by auto
  show ?thesis
    unfolding default_nodes_def default_page_def
    by (rule exec_steps(1), rule exec_steps(3) [OF cond]) (simp_all only: range if_True if_False exec_last simp_thms)
qed

lemma main_template: "parse_template tr nginx_tmpl = Inr (Nodes [NText nginx_head, NTemplate ''servers'', NText nginx_tail])"
  "parse_template tr default_tmpl = Inr (Nodes default_nodes)"
  by (simp_all add: parse_template_def nginx_parses default_parses)

lemma include_main:
  assumes "plain_text page"
  shows "include_servers tr (Nodes [NText nginx_head, NTemplate ''servers'', NText nginx_tail]) page = Inr (main_page page)"
  using assms
  by (simp add: include_servers_def parse_template_plain exec_template_def maxExecDepth_Suc main_page_def)

lemma empty_page_plain: "plain_text (default_page [])"
proof -
  have "no_open (default_listen @ default_index @ default_end)"
    by (intro no_open_join last_texts_open) (simp_all add: closed_text_def default_texts_open)
  then show ?thesis using no_open_plain by (simp add: default_page_def)
qed

section \<open>The configuration of the default back end\<close>

lemma main_name: "hd (split_on CHR ''.'' MainConf) = ''/etc/nginx/nginx''"
  by code_simp

lemma default_backends:
  assumes "getDefaultBackendConfigure n ann = Inr cfg"
  obtains d sb svc port where "DefaultBackend (ing_Spec (nc_ingress n)) = Some d" and "ib_Service d = Some sb"
    and "rs_GetService (nc_rr n) (sb_Name sb) = Inr svc" and "rs_GetSvcPort (nc_rr n) (QBackend d) = Inr port" and "port \<noteq> 0"
    and "Servers cfg = [Some \<lparr>se_Name = ing_Name (nc_ingress n), se_NameSpace = ing_Namespace (nc_ingress n),
      se_HostName = ''default'', se_Tls = empty_cert, se_Paths = [Some
        \<lparr>be_Name = sv_Name svc, be_IngName = [], be_NameSpace = sv_Namespace svc, be_Path = ''/'',
         be_ServiceBackend = ib_Service d, be_Port = port, be_TargetPath = [],
         be_Annotations = ann, be_RewritePath = []\<rparr>]\<rparr>]"
  using assms
  by (auto simp: getDefaultBackendConfigure_def ebind_eq_Inr deref_eq_Inr Let_def split: if_splits)

text \<open>With the templates of the repository, a default back end is written to be tested as the main
  configuration around a server that passes everything to the service of the back end, at a port of
  that service that is not zero, unless the service put an opening delimiter into it.\<close>

theorem default_backend_text:
  assumes "getDefaultBackendConfigure n ann = Inr cfg"
    and "os_read NginxTmpl w = Inr nginx_tmpl" and "os_read DefaultTmpl w = Inr default_tmpl"
  shows "\<exists>b d sb svc. DefaultBackend (ing_Spec (nc_ingress n)) = Some d \<and> ib_Service d = Some sb \<and>
    rs_GetService (nc_rr n) (sb_Name sb) = Inr svc \<and> be_Name b = sv_Name svc \<and> be_NameSpace b = sv_Namespace svc \<and>
    rs_GetSvcPort (nc_rr n) (QBackend d) = Inr (be_Port b) \<and> be_Port b \<noteq> 0 \<and>
    (plain_text (default_page [b]) \<longrightarrow>
       generateConfigureBytes tr (default_configure ann cfg) w =
       write_test_conf ''/etc/nginx/nginx'' (main_page (default_page [b])) w)"
proof -
  let ?c = "default_configure ann cfg"
  from assms(1) obtain d sb svc port where d: "DefaultBackend (ing_Spec (nc_ingress n)) = Some d" "ib_Service d = Some sb"
      "rs_GetService (nc_rr n) (sb_Name sb) = Inr svc" "rs_GetSvcPort (nc_rr n) (QBackend d) = Inr port" "port \<noteq> 0"
    and servers: "Servers cfg = [Some \<lparr>se_Name = ing_Name (nc_ingress n), se_NameSpace = ing_Namespace (nc_ingress n),
      se_HostName = ''default'', se_Tls = empty_cert, se_Paths = [Some
        \<lparr>be_Name = sv_Name svc, be_IngName = [], be_NameSpace = sv_Namespace svc, be_Path = ''/'',
         be_ServiceBackend = ib_Service d, be_Port = port, be_TargetPath = [],
         be_Annotations = ann, be_RewritePath = []\<rparr>]\<rparr>]"
    by (rule default_backends)
  define b where "b = \<lparr>be_Name = sv_Name svc, be_IngName = [], be_NameSpace = sv_Namespace svc, be_Path = ''/'',
         be_ServiceBackend = ib_Service d, be_Port = port, be_TargetPath = [], be_Annotations = ann, be_RewritePath = []\<rparr>"
  let ?s = "\<lparr>se_Name = ing_Name (nc_ingress n), se_NameSpace = ing_Namespace (nc_ingress n),
      se_HostName = ''default'', se_Tls = empty_cert, se_Paths = [Some b]\<rparr>"
  have "TextTemplate.fields (configure_value (?c\<lparr>cf_Server := Some ?s\<rparr>)) [''Server'', ''Paths''] =
      Inr (TList (map backend_value [b]))"
    by (simp add: configure_value_def server_value_def pointer_value_def)
  then have "server_text tr (Nodes default_nodes) ?c (Some ?s) = Inr (default_page [b])"
    by (simp add: server_text_def exec_template_def exec_default)
  moreover have "generateServerBytes tr w (?c\<lparr>cf_Server := Some ?s\<rparr>) =
      ebind (lift_err (server_text tr (Nodes default_nodes) ?c (Some ?s)))
        (\<lambda>out. Inr (?c\<lparr>cf_Server := Some ?s, cf_ServerTpl := cf_ServerTpl ?c @ out\<rparr>))"
    using generateServerBytes_ok [OF _ main_template(2), of ?c w tr "Some ?s"] assms(3) by (simp add: default_configure_def)
  ultimately have "render_servers tr w (Servers (cf_Cfg ?c)) ?c =
      Inr (?c\<lparr>cf_Server := Some ?s, cf_ServerTpl := cf_ServerTpl ?c @ default_page [b]\<rparr>)"
    using servers by (simp add: default_configure_def b_def)
  then have "generateConfigureBytes tr ?c w = write_test_conf ''/etc/nginx/nginx'' (main_page (default_page [b])) w"
    if "plain_text (default_page [b])"
    using that assms(2) main_template(1) [of tr] main_name
    by (simp add: generateConfigureBytes_def default_configure_def include_main)
  then show ?thesis using d by (intro exI [of _ b] exI [of _ d] exI [of _ sb] exI [of _ svc]) (simp add: b_def)
qed

section \<open>Clearing a configuration that is not there\<close>

lemma cleared_rendering:
  assumes "os_read NginxTmpl w = Inr nginx_tmpl" and "os_read DefaultTmpl w = Inr default_tmpl"
    and "wfault w ''/etc/nginx/nginx-test.conf'' = Writable"
  shows "UpdateDefaultConf tr env default_renderer w =
    Reload env ''/etc/nginx/nginx'' (set_file ''/etc/nginx/nginx-test.conf'' (Some (main_page (default_page []))) w)"
proof -
  let ?s = "\<lparr>se_Name = [], se_NameSpace = [], se_HostName = [], se_Tls = empty_cert, se_Paths = []\<rparr> :: ing_annotations server"
  have "TextTemplate.fields (TStruct [(''Server'', server_value ?s)]) [''Server'', ''Paths''] = Inr (TList (map backend_value []))"
    by (simp add: server_value_def)
  from exec_default [OF this] have "rt_Render tr default_renderer (TStruct [(''Server'', server_value ?s)]) w =
      rt_Generate default_renderer (main_page (default_page [])) w"
    using assms(1,2) main_template include_main [OF empty_page_plain]
    by (simp add: rt_Render_def default_renderer_def exec_template_def)
  moreover have "rt_Generate default_renderer (main_page (default_page [])) w =
      (Inr (), set_file ''/etc/nginx/nginx-test.conf'' (Some (main_page (default_page []))) w)"
    using assms(3) by (simp add: rt_Generate_def default_renderer_def main_name os_write_def os_stat_def)
  ultimately show ?thesis by (simp add: UpdateDefaultConf_def Let_def) (simp add: default_renderer_def main_name)
qed

text \<open>C27. A reconciliation of an ingress that cannot be read and has no configuration of its own resets the
  main configuration to the static page, whatever default back end another ingress has set: the new
  main configuration does not depend on what was installed.\<close>

theorem missing_ingress_resets_default:
  assumes "cl_Ingress (ap_view (rc_api out) c) req = Inl e"
    and "CHR ''/'' \<notin> set (ok_Name req @ ok_Namespace req)"
    and "files w (conf_name (ok_Name req) (ok_Namespace req) @ ''.conf'') = None"
    and "os_read NginxTmpl w = Inr nginx_tmpl" and "os_read DefaultTmpl w = Inr default_tmpl"
    and "healthy_conf w ''/etc/nginx/nginx''"
    and "files w MainConf = Some old" "old \<noteq> []" "sha1_hex old \<noteq> sha1_hex (main_page (default_page []))"
    and "\<not> failed_run (ne_test (rc_env out) (under_test ''/etc/nginx/nginx'' old (main_page (default_page [])) (files w)))"
  shows "files (snd (snd (Reconcile out req c w))) MainConf = Some (main_page (default_page []))"
proof -
  let ?m = "''/etc/nginx/nginx''" and ?new = "main_page (default_page [])"
  let ?w = "set_file ''/etc/nginx/nginx-test.conf'' (Some ?new) w"
  have new: "?new \<noteq> []" using default_texts_not_Nil by (simp add: main_page_def)
  have main: "MainConf = ?m @ ''.conf''" by (simp add: MainConf_def)
  have "plain_name (ok_Name req @ ''-'' @ ok_Namespace req @ ''.conf'')"
    using assms(2) by (intro plain_nameI) auto
  then have "path_join [ConfDir, ok_Name req @ ''-'' @ ok_Namespace req @ ''.conf''] =
      conf_name (ok_Name req) (ok_Namespace req) @ ''.conf''"
    by (simp add: conf_dir_join conf_name_def)
  then have "clearConf (rc_tr out) (rc_env out) req w = drop_error (UpdateDefaultConf (rc_tr out) (rc_env out) default_renderer w)"
    using assms(3) by (simp add: clearConf_def os_stat_def)
  also have "UpdateDefaultConf (rc_tr out) (rc_env out) default_renderer w = reload (rc_env out) ?m ?w"
    using assms(4-6) by (subst cleared_rendering) (simp_all add: Reload_def healthy_conf_def healthy_def)
  finally have "clearConf (rc_tr out) (rc_env out) req w = drop_error (reload (rc_env out) ?m ?w)" .
  then have "snd (snd (Reconcile out req c w)) = snd (reload (rc_env out) ?m ?w)"
    using assms(1) drop_error_world [of "reload (rc_env out) ?m ?w"]
    by (cases "drop_error (reload (rc_env out) ?m ?w)") (simp add: Reconcile_def)
  moreover have "files (snd (reload (rc_env out) ?m ?w)) (?m @ ''.conf'') = Some ?new"
  proof -
    have "under_test ?m old ?new (files ?w) = under_test ?m old ?new (files w)"
      by (simp add: under_test_def fun_eq_iff)
    with reload_changed_installed [of ?w ?m old ?new "rc_env out"] assms(6-10) new show ?thesis
      by (simp add: installed_def main)
  qed
  ultimately show ?thesis by (simp only: main)
qed

section \<open>Instances\<close>

definition main_files :: "string \<Rightarrow> file_map" where
  "main_files old = [NginxTmpl \<mapsto> nginx_tmpl, DefaultTmpl \<mapsto> default_tmpl, MainConf \<mapsto> old]"

lemma main_files_read:
  "os_read NginxTmpl (sample_world (main_files old)) = Inr nginx_tmpl"
  "os_read DefaultTmpl (sample_world (main_files old)) = Inr default_tmpl"
  "files (sample_world (main_files old)) MainConf = Some old"
  "files (sample_world (main_files old)) ''/etc/nginx/conf.d/web-shop.conf'' = None"
  by (simp_all add: os_read_ok sample_world_def main_files_def NginxTmpl_def DefaultTmpl_def MainConf_def)

definition default_controller :: NginxController where
  "default_controller = (shop_controller \<lparr>bp_Name = '''', bp_Number = 80\<rparr>)
     \<lparr>nc_ingress := sample_ingress\<lparr>ing_Spec := (ing_Spec sample_ingress)
        \<lparr>DefaultBackend := Some (hp_Backend (shop_path ''/'' \<lparr>bp_Name = '''', bp_Number = 80\<rparr>))\<rparr>\<rparr>\<rparr>"

theorem default_backend_text_witness:
  "\<exists>cfg b. be_Name b = ''cart'' \<and>
     getDefaultBackendConfigure default_controller (new_annotations sample_ingress) = Inr cfg \<and>
     (plain_text (default_page [b]) \<longrightarrow>
       generateConfigureBytes strict_rest (default_configure (new_annotations sample_ingress) cfg) (sample_world (main_files ''old'')) =
       write_test_conf ''/etc/nginx/nginx'' (main_page (default_page [b])) (sample_world (main_files ''old'')))"
proof -
  have svc: "rs_GetService (nc_rr default_controller) ''cart'' = Inr shop_service"
    "DefaultBackend (ing_Spec (nc_ingress default_controller)) = Some (hp_Backend (shop_path ''/'' \<lparr>bp_Name = '''', bp_Number = 80\<rparr>))"
    by (simp_all add: default_controller_def shop_controller_def shop_ingress_def sample_ingress_def shop_client_def
        info_resolver_def GetService_def)
  have "\<exists>cfg. getDefaultBackendConfigure default_controller (new_annotations sample_ingress) = Inr cfg"
    by (simp add: getDefaultBackendConfigure_def default_controller_def shop_controller_def shop_ingress_def sample_ingress_def
        shop_path_def shop_client_def shop_service_def info_resolver_def GetService_def GetSvcPort_def port_of_backend_def Let_def)
  then obtain cfg where cfg: "getDefaultBackendConfigure default_controller (new_annotations sample_ingress) = Inr cfg" ..
  from default_backend_text [OF cfg main_files_read(1,2)] obtain b where "be_Name b = ''cart''"
    "plain_text (default_page [b]) \<longrightarrow>
       generateConfigureBytes strict_rest (default_configure (new_annotations sample_ingress) cfg) (sample_world (main_files ''old'')) =
       write_test_conf ''/etc/nginx/nginx'' (main_page (default_page [b])) (sample_world (main_files ''old''))"
    using svc by (auto simp: shop_path_def shop_service_def)
  with cfg show ?thesis by blast
qed

theorem missing_ingress_resets_default_witness:
  "\<exists>old. files (sample_world (main_files old)) MainConf = Some old \<and> old \<noteq> main_page (default_page []) \<and>
    files (snd (snd (Reconcile failing_outside \<lparr>ok_Name = ''web'', ok_Namespace = ''shop''\<rparr> ()
      (sample_world (main_files old))))) MainConf = Some (main_page (default_page []))"
proof -
  obtain old where old: "old \<noteq> []" "sha1_hex old \<noteq> sha1_hex (main_page (default_page []))"
  proof (cases "sha1_hex ''server a'' = sha1_hex (main_page (default_page []))")
    case True
    with sample_digests that [of "''server b''"] show ?thesis by simp
  next
    case False
    with that [of "''server a''"] show ?thesis by simp
  qed
  let ?req = "\<lparr>ok_Name = ''web'', ok_Namespace = ''shop''\<rparr>" and ?w = "sample_world (main_files old)"
  have req: "cl_Ingress (ap_view (rc_api failing_outside) ()) ?req = Inl (ApiError ''etcdserver: request timed out'')"
    by (simp add: failing_outside_def)
  have name: "CHR ''/'' \<notin> set (ok_Name ?req @ ok_Namespace ?req)" by simp
  have conf: "files ?w (conf_name (ok_Name ?req) (ok_Namespace ?req) @ ''.conf'') = None"
    using main_files_read(4) by (simp add: conf_name_def ConfDir_def)
  have accepted: "\<not> failed_run (ne_test (rc_env failing_outside) f)" for f
    by (simp add: failing_outside_def quiet_outside_def sample_env_def)
  have healthy: "healthy_conf ?w ''/etc/nginx/nginx''" by (rule sample_facts)
  from missing_ingress_resets_default [OF req name conf main_files_read(1,2) healthy main_files_read(3) old accepted]
  have reset: "files (snd (snd (Reconcile failing_outside ?req () ?w))) MainConf = Some (main_page (default_page []))" .
  have "old \<noteq> main_page (default_page [])" using old(2) by blast
  with reset main_files_read(3) show ?thesis by blast
qed

end
