(* ===== verification/Convergence.thy ===== *)
theory Convergence
  imports DefaultTemplate
begin

text \<open>
  The controller as a whole: what configuration an ingress should have is a function of the cluster,
  without a disk and without an order, and the theorems relate \<^verbatim>\<open>Reconcile\<close> to it: what a
  reconciliation that is done leaves, that it does nothing more when there is nothing to do, what it may
  touch, and where a queue of reconciliations ends.
\<close>

section \<open>The certificates of an ingress, without the files\<close>

text \<open>The map from hosts to certificates that \<^verbatim>\<open>generateTlsFile\<close> returns, and the error it logs.\<close>

fun hosts_certs ::
    "NginxController \<Rightarrow> string \<Rightarrow> string list \<Rightarrow> SSLCert \<Rightarrow> tls_map \<Rightarrow> (go_error option \<times> SSLCert \<times> tls_map) result" where
  "hosts_certs n secretName [] ssl ht = Inr (None, ssl, ht)"
| "hosts_certs n secretName (host # hosts) ssl ht =
     (case rs_GetTlsData (nc_rr n) \<lparr>ok_Name = secretName, ok_Namespace = ing_Namespace (nc_ingress n)\<rparr> of
        Inl (Err e) \<Rightarrow> Inr (Some e, ssl, ht)
      | Inl f \<Rightarrow> Inl f
      | Inr data \<Rightarrow>
          if data \<noteq> [] \<and> GetDnsRegex host = [] then Inr (Some (Errorf (host @ '' not a valid host'')), ssl, ht)
          else
            (let ssl1 = (entry_certs (ca_file n host) data ssl)\<lparr>TlsNoPass := True\<rparr>
             in hosts_certs n secretName hosts ssl1 (ht(host \<mapsto> ssl1))))"

fun secrets_certs ::
    "NginxController \<Rightarrow> ingress_tls list \<Rightarrow> SSLCert \<Rightarrow> tls_map \<Rightarrow> (go_error option \<times> SSLCert \<times> tls_map) result" where
  "secrets_certs n [] ssl ht = Inr (None, ssl, ht)"
| "secrets_certs n (secret # secrets) ssl ht =
     ebind (hosts_certs n (it_SecretName secret) (it_Hosts secret) ssl ht) (\<lambda>(err, ssl1, ht1).
       case err of Some e \<Rightarrow> Inr (Some e, ssl1, ht1) | None \<Rightarrow> secrets_certs n secrets ssl1 ht1)"

definition issued_certs :: "NginxController \<Rightarrow> (tls_map \<times> go_error option) result" where
  "issued_certs n =
     (let ing = nc_ingress n
      in case rs_GetTlsData (nc_rr n) \<lparr>ok_Name = ing_Name ing @ ''-secret'', ok_Namespace = ing_Namespace ing\<rparr> of
           Inl (Err e) \<Rightarrow> Inr (Map.empty, Some e)
         | Inl f \<Rightarrow> Inl f
         | Inr data \<Rightarrow>
             (let ssl = (entry_certs (crd_file (crd_prefix ing)) data empty_cert)\<lparr>TlsNoPass := True\<rparr>
              in Inr (\<lambda>h. if h \<in> ir_Host ` set (Rules (ing_Spec ing)) then Some ssl else None, None)))"

definition desired_certs :: "NginxController \<Rightarrow> (tls_map \<times> go_error option) result" where
  "desired_certs n =
     (if TLS (ing_Spec (nc_ingress n)) \<noteq> []
      then ebind (secrets_certs n (TLS (ing_Spec (nc_ingress n))) empty_cert Map.empty) (\<lambda>(err, _, ht). Inr (ht, err))
      else issued_certs n)"

text \<open>Where the files go: names without a slash stay in the certificate directory.\<close>

definition ssl_files :: "string set" where
  "ssl_files = {SslPath @ ''/'' @ f | f. CHR ''/'' \<notin> set f}"

definition plain_certs :: "NginxController \<Rightarrow> bool" where
  "plain_certs n \<longleftrightarrow> CHR ''/'' \<notin> set (ing_Name (nc_ingress n) @ ing_Namespace (nc_ingress n)) \<and>
     ing_Name (nc_ingress n) \<noteq> [] \<and> ing_Namespace (nc_ingress n) \<noteq> [] \<and>
     (\<forall>t\<in>set (TLS (ing_Spec (nc_ingress n))). CHR ''/'' \<notin> set (concat (it_Hosts t))) \<and>
     (\<forall>key data. rs_GetTlsData (nc_rr n) key = Inr data \<longrightarrow> CHR ''/'' \<notin> set (concat (map fst data)))"

lemma ca_file_in:
  assumes "CHR ''/'' \<notin> set (host @ ing_Namespace (nc_ingress n) @ k)" and "ing_Namespace (nc_ingress n) \<noteq> []"
  shows "ca_file n host k \<in> ssl_files"
proof -
  have "3 \<le> length (host @ ''-'' @ ing_Namespace (nc_ingress n) @ ''-'' @ k)"
    using assms(2) by (cases "ing_Namespace (nc_ingress n)") auto
  then have "plain_name (host @ ''-'' @ ing_Namespace (nc_ingress n) @ ''-'' @ k)"
    using assms(1) by (intro plain_nameI) auto
  then have "ca_file n host k = SslPath @ ''/'' @ host @ ''-'' @ ing_Namespace (nc_ingress n) @ ''-'' @ k"
    by (simp add: ca_file_def ssl_dir_join)
  then show ?thesis using assms(1) by (auto simp: ssl_files_def)
qed

lemma crd_file_in:
  assumes "CHR ''/'' \<notin> set (ing_Name ing @ ing_Namespace ing @ k)" and "ing_Namespace ing \<noteq> []"
  shows "crd_file (crd_prefix ing) k \<in> ssl_files"
proof -
  have "3 \<le> length (crd_prefix ing)" using assms(2) by (cases "ing_Namespace ing") (auto simp: crd_prefix_def)
  then have "crd_file (crd_prefix ing) k = SslPath @ ''/'' @ crd_prefix ing @ k"
    using assms(1) by (intro crd_file_plain) (auto simp: crd_prefix_def)
  then show ?thesis using assms(1) by (auto simp: ssl_files_def crd_prefix_def)
qed

text \<open>What writing the entries of a secret leaves, when their files are in the directory.\<close>

definition certs_written :: "world \<Rightarrow> world \<Rightarrow> bool" where
  "certs_written w w' \<longleftrightarrow> touches_only ssl_files w w' \<and> events w' = events w"

lemma certs_written_refl [simp]: "certs_written w w"
  by (simp add: certs_written_def)

lemma certs_written_trans: "certs_written w w' \<Longrightarrow> certs_written w' w'' \<Longrightarrow> certs_written w w''"
  unfolding certs_written_def by (elim conjE, intro conjI, erule (1) touches_only_trans) simp

lemma certs_written_writable: "certs_written w w' \<Longrightarrow> all_writable w' = all_writable w"
  by (simp add: certs_written_def touches_only_def all_writable_def)

lemma entry_files_written:
  assumes "\<And>k. k \<in> fst ` set data \<Longrightarrow> file k \<in> ssl_files"
  shows "certs_written w (entry_files file data w)"
  using assms
proof (induction data arbitrary: w)
  case (Cons x data)
  have "certs_written w (set_file (file (fst x)) (Some (snd x)) w)"
    using Cons.prems by (auto simp: certs_written_def touches_only_def)
  moreover have "certs_written w1 (entry_files file data w1)" for w1 using Cons by auto
  ultimately show ?case by (cases x) (auto simp: entry_simps intro: certs_written_trans)
qed (simp add: entry_simps)

lemma slash_free_keys: "CHR ''/'' \<notin> set (concat (map fst data)) \<Longrightarrow> k \<in> fst ` set data \<Longrightarrow> CHR ''/'' \<notin> set k"
  by auto

lemma ca_hosts_certs:
  assumes "all_writable w" and "plain_certs n" and "CHR ''/'' \<notin> set (concat hosts)"
  shows "\<exists>w'. ca_hosts n s hosts ssl ht w = (hosts_certs n s hosts ssl ht, w') \<and> certs_written w w'"
  using assms(1,3)
proof (induction hosts arbitrary: ssl ht w)
  case (Cons host hosts)
  let ?key = "\<lparr>ok_Name = s, ok_Namespace = ing_Namespace (nc_ingress n)\<rparr>"
  show ?case
  proof (cases "rs_GetTlsData (nc_rr n) ?key")
    case (Inl f)
    then show ?thesis by (cases f) auto
  next
    case data: (Inr data)
    have in_dir: "ca_file n host k \<in> ssl_files" if "k \<in> fst ` set data" for k
    proof (rule ca_file_in)
      have "CHR ''/'' \<notin> set (concat (map fst data))" using data assms(2) unfolding plain_certs_def by blast
      then have "CHR ''/'' \<notin> set k" using that by (rule slash_free_keys)
      then show "CHR ''/'' \<notin> set (host @ ing_Namespace (nc_ingress n) @ k)"
        using assms(2) Cons.prems(2) by (simp add: plain_certs_def)
    qed (use assms(2) in \<open>simp add: plain_certs_def\<close>)
    show ?thesis
    proof (cases "data \<noteq> [] \<and> GetDnsRegex host = []")
      case True
      then obtain k v rest where "data = (k, v) # rest" by (cases data) auto
      with True data show ?thesis by (intro exI [of _ w]) simp
    next
      case False
      let ?w1 = "entry_files (ca_file n host) data w" and ?ssl1 = "entry_certs (ca_file n host) data ssl"
      have e: "ca_entries n host data ssl w = ((None, ?ssl1), ?w1)"
        using False Cons.prems(1) by (cases "data = []") (auto simp: entry_simps ca_entries_written)
      have w1: "certs_written w ?w1" by (intro entry_files_written in_dir)
      have "all_writable ?w1" "CHR ''/'' \<notin> set (concat hosts)" using Cons.prems by simp_all
      from Cons.IH [OF this, of "?ssl1\<lparr>TlsNoPass := True\<rparr>" "ht(host \<mapsto> ?ssl1\<lparr>TlsNoPass := True\<rparr>)"]
      obtain w' where "ca_hosts n s hosts (?ssl1\<lparr>TlsNoPass := True\<rparr>) (ht(host \<mapsto> ?ssl1\<lparr>TlsNoPass := True\<rparr>)) ?w1 =
          (hosts_certs n s hosts (?ssl1\<lparr>TlsNoPass := True\<rparr>) (ht(host \<mapsto> ?ssl1\<lparr>TlsNoPass := True\<rparr>)), w')"
          "certs_written ?w1 w'" by blast
      moreover have "certs_written w w'" using certs_written_trans [OF w1] calculation(2) .
      moreover have "hosts_certs n s (host # hosts) ssl ht =
          hosts_certs n s hosts (?ssl1\<lparr>TlsNoPass := True\<rparr>) (ht(host \<mapsto> ?ssl1\<lparr>TlsNoPass := True\<rparr>))"
        using data False by (simp only: hosts_certs.simps sum.case if_False Let_def)
      ultimately show ?thesis using data e by (intro exI [of _ w']) (simp add: Let_def)
    qed
  qed
qed simp

lemma ca_secrets_certs:
  assumes "all_writable w" and "plain_certs n" and "\<forall>t\<in>set ts. CHR ''/'' \<notin> set (concat (it_Hosts t))"
  shows "\<exists>w'. ca_secrets n ts ssl ht w = (secrets_certs n ts ssl ht, w') \<and> certs_written w w'"
  using assms(1,3)
proof (induction ts arbitrary: ssl ht w)
  case (Cons t ts)
  from ca_hosts_certs [OF Cons.prems(1) assms(2), of "it_Hosts t"] Cons.prems(2) obtain w1 where
    1: "ca_hosts n (it_SecretName t) (it_Hosts t) ssl ht w = (hosts_certs n (it_SecretName t) (it_Hosts t) ssl ht, w1)"
      "certs_written w w1" by fastforce
  then have "all_writable w1" using Cons.prems(1) certs_written_writable by blast
  note IH = Cons.IH [OF this]
  show ?case
  proof (cases "hosts_certs n (it_SecretName t) (it_Hosts t) ssl ht")
    case (Inl f)
    with 1 show ?thesis by auto
  next
    case (Inr a)
    obtain err ssl1 ht1 where a: "a = (err, ssl1, ht1)" by (metis surj_pair)
    from IH [of ssl1 ht1] Cons.prems(2) obtain w' where
      "ca_secrets n ts ssl1 ht1 w1 = (secrets_certs n ts ssl1 ht1, w')" "certs_written w1 w'" by auto
    with 1 Inr a certs_written_trans show ?thesis by (cases err) auto
  qed
qed simp

lemma generateTlsFile_certs:
  assumes "all_writable w" and "plain_certs n"
  shows "\<exists>w'. generateTlsFile n w = (desired_certs n, w') \<and> certs_written w w'"
proof (cases "TLS (ing_Spec (nc_ingress n)) = []")
  case True
  let ?ing = "nc_ingress n"
  show ?thesis
  proof (cases "rs_GetTlsData (nc_rr n) \<lparr>ok_Name = ing_Name ?ing @ ''-secret'', ok_Namespace = ing_Namespace ?ing\<rparr>")
    case (Inl f)
    with True show ?thesis
      by (cases f) (auto simp: generateTlsFile_def desired_certs_def issued_certs_def generateCrdTlsFile_def Let_def)
  next
    case (Inr data)
    then have "CHR ''/'' \<notin> set (concat (map fst data))" using assms(2) unfolding plain_certs_def by blast
    then have "CHR ''/'' \<notin> set k" if "k \<in> fst ` set data" for k using that by (rule slash_free_keys)
    then have "crd_file (crd_prefix ?ing) k \<in> ssl_files" if "k \<in> fst ` set data" for k
      using that assms(2) by (intro crd_file_in) (auto simp: plain_certs_def)
    then have w': "certs_written w (entry_files (crd_file (crd_prefix ?ing)) data w)" by (rule entry_files_written)
    have "generateTlsFile n w = (desired_certs n, entry_files (crd_file (crd_prefix ?ing)) data w)"
      unfolding generateTlsFile_def desired_certs_def issued_certs_def
      using generateCrdTlsFile_ok [OF assms(1) Inr] True Inr by (simp add: host_map fun_eq_iff Let_def)
    with w' show ?thesis by blast
  qed
next
  case False
  from ca_secrets_certs [OF assms, of "TLS (ing_Spec (nc_ingress n))" empty_cert Map.empty] assms(2)
  obtain w' where "ca_secrets n (TLS (ing_Spec (nc_ingress n))) empty_cert Map.empty w =
      (secrets_certs n (TLS (ing_Spec (nc_ingress n))) empty_cert Map.empty, w')" "certs_written w w'"
    by (auto simp: plain_certs_def)
  with False show ?thesis
    by (cases "secrets_certs n (TLS (ing_Spec (nc_ingress n))) empty_cert Map.empty")
       (auto simp: generateTlsFile_def desired_certs_def generateCaTlsFile_def)
qed

section \<open>The configuration an ingress should have\<close>

text \<open>What the eight groups make of the annotations.\<close>

definition desired_annotations :: "IngressInfo \<Rightarrow> ingress \<Rightarrow> ing_annotations result" where
  "desired_annotations t ing =
     ebind (proxy_parse ing) (\<lambda>px. ebind (redirect_parse ing) (\<lambda>rd. ebind (allow_parse ing) (\<lambda>al.
     ebind (deny_parse ing) (\<lambda>dl. ebind (rewrite_parse ing) (\<lambda>rw. ebind (ssl_parse ing) (\<lambda>ss.
     ebind (cos_parse ing) (\<lambda>co. ebind (weight_parse (info_resolver t) ing) (\<lambda>bw.
       Inr \<lparr>ia_Name = ing_Name ing, ia_Namespace = ing_Namespace ing, ia_Annotations = ing_Annotations ing,
            ia_Proxy = px, ia_Rewrite = rw, ia_Redirect = rd, ia_SSLStapling = ss,
            ia_AllowList = al, ia_DenyList = dl, ia_AllowCos = co, ia_Weight = bw\<rparr>))))))))"

definition controller_of :: "client \<Rightarrow> ingress \<Rightarrow> NginxController" where
  "controller_of cl ing = \<lparr>nc_rr = info_resolver (NewIngressInfo cl ing), nc_ingress = ing\<rparr>"

definition desired_text :: "NginxController \<Rightarrow> ing_annotations \<Rightarrow> string result" where
  "desired_text n ann =
     ebind (desired_certs n) (\<lambda>(tls, _).
     ebind (emap (rule_server n ann tls) (Rules (ing_Spec (nc_ingress n)))) (\<lambda>ss.
       Inr (concat (map (page_of ann) ss) @ [CHR 0x0A])))"

definition desired_conf :: "client \<Rightarrow> ingress \<Rightarrow> string result" where
  "desired_conf cl ing =
     ebind (desired_annotations (NewIngressInfo cl ing) ing) (\<lambda>ann. desired_text (controller_of cl ing) ann)"

lemma Extract_desired:
  assumes "mergo_fills mg" and "iteration_of ps (NewAnnotationExtractor (info_resolver t))"
  shows "Extract mg ps ing = Inr a \<longleftrightarrow> desired_annotations t ing = Inr a"
  unfolding Extract_value [OF assms] desired_annotations_def by (auto simp: ebind_eq_Inr)

text \<open>The disk, the templates of the repository, and nginx, when nothing is wrong with them.\<close>

definition healthy_disk :: "world \<Rightarrow> bool" where
  "healthy_disk w \<longleftrightarrow> (\<forall>p. healthy w p)"

definition templates_there :: "world \<Rightarrow> bool" where
  "templates_there w \<longleftrightarrow> files w MainServerTmpl = Some main_server_tmpl \<and> files w ServerTmpl = Some server_tmpl"

definition accepts_all :: "nginx_env \<Rightarrow> bool" where
  "accepts_all env \<longleftrightarrow> (\<forall>f. \<not> failed_run (ne_test env f))"

definition nginx_up :: "nginx_env \<Rightarrow> bool" where
  "nginx_up env \<longleftrightarrow> (\<exists>pid. \<forall>w. restarts env pid w)"

definition ing_conf :: "ingress \<Rightarrow> string" where
  "ing_conf ing = conf_name (ing_Name ing) (ing_Namespace ing)"

definition own_files :: "ingress \<Rightarrow> string set" where
  "own_files ing = {ing_conf ing @ ''.conf'', ing_conf ing @ ''-test.conf'', ing_conf ing @ ''.tmp'',
     ''/etc/nginx/'' @ ing_Name ing @ ''-'' @ ing_Namespace ing @ ''-test.conf''}"

lemma healthy_disk_touches: "touches_only ps w w' \<Longrightarrow> healthy_disk w' = healthy_disk w"
  by (simp add: healthy_disk_def touches_only_healthy)

lemma healthy_disk_conf [simp]: "healthy_disk w \<Longrightarrow> healthy_conf w name"
  by (simp add: healthy_disk_def healthy_conf_def)

lemma healthy_disk_writable: "healthy_disk w \<Longrightarrow> all_writable w"
  by (simp add: healthy_disk_def all_writable_def healthy_def)

lemma plain_text_prefix: "plain_text (a @ b) \<Longrightarrow> plain_text a"
  unfolding plain_text_def by (metis append.assoc)

text \<open>The paths, told apart by how they begin.\<close>

lemma paths_apart:
  "ing_conf ing @ x \<notin> ssl_files" "MainServerTmpl \<notin> ssl_files" "ServerTmpl \<notin> ssl_files"
  "ing_conf ing @ x \<noteq> MainServerTmpl" "ing_conf ing @ x \<noteq> ServerTmpl"
  "''/etc/nginx/'' @ x \<noteq> MainServerTmpl" "''/etc/nginx/'' @ x \<noteq> ServerTmpl"
  by (auto simp: ing_conf_def conf_name_def ConfDir_def ssl_files_def SslPath_def MainServerTmpl_def ServerTmpl_def)

lemma templates_kept:
  assumes "touches_only (ssl_files \<union> own_files ing) w w'"
  shows "templates_there w' = templates_there w"
proof -
  have "MainServerTmpl \<notin> ssl_files \<union> own_files ing" "ServerTmpl \<notin> ssl_files \<union> own_files ing"
    using paths_apart(2,3) not_sym [OF paths_apart(4)] not_sym [OF paths_apart(5)]
      not_sym [OF paths_apart(6)] not_sym [OF paths_apart(7)] by (simp_all add: own_files_def)
  with assms show ?thesis by (simp add: touches_only_def templates_there_def)
qed

section \<open>The update of the back ends\<close>

text \<open>Up to the reload: the desired text is in the test file, or there is none and the update fails.\<close>

lemma update_writes_desired:
  assumes "healthy_disk w" and "templates_there w" and "plain_certs n" and "plain_ingress (nc_ingress n)"
    and "desired_text n ann = Inr text" and "plain_text text"
  shows "\<exists>w1. generateBackendTemplate tr env n ann w = reload env (ing_conf (nc_ingress n)) w1 \<and> healthy_disk w1 \<and>
    files w1 (ing_conf (nc_ingress n) @ ''-test.conf'') = Some text \<and> events w1 = events w \<and>
    files w1 (ing_conf (nc_ingress n) @ ''.conf'') = files w (ing_conf (nc_ingress n) @ ''.conf'') \<and>
    touches_only (ssl_files \<union> own_files (nc_ingress n)) w w1 \<and>
    (\<exists>cfg v. getBackendConfigure n ann w = (Inr cfg, v) \<and>
       generateConfigureBytes tr (backend_configure n ann cfg) v = (Inr (), w1) \<and>
       cf_ConfName (backend_configure n ann cfg) = ing_conf (nc_ingress n))"
proof -
  let ?ing = "nc_ingress n"
  from assms(5) obtain tls err ss where d: "desired_certs n = Inr (tls, err)"
      "emap (rule_server n ann tls) (Rules (ing_Spec ?ing)) = Inr ss" "text = concat (map (page_of ann) ss) @ [CHR 0x0A]"
    by (auto simp: desired_text_def ebind_eq_Inr)
  from generateTlsFile_certs [OF healthy_disk_writable [OF assms(1)] assms(3)] obtain w0 where
    w0: "generateTlsFile n w = (desired_certs n, w0)" "certs_written w w0" by blast
  let ?cfg = "\<lparr>Servers = map Some ss\<rparr> :: ing_annotations configuration"
  have cfg: "getBackendConfigure n ann w = (Inr ?cfg, w0)"
    using w0(1) d(1,2) by (auto simp: getBackendConfigure_ok)
  have h0: "healthy_disk w0" and f0: "\<And>p. p \<notin> ssl_files \<Longrightarrow> files w0 p = files w p"
    using w0(2) assms(1) healthy_disk_touches by (auto simp: certs_written_def touches_only_def)
  have "os_read MainServerTmpl w0 = Inr main_server_tmpl" "os_read ServerTmpl w0 = Inr server_tmpl"
    using h0 assms(2) f0 paths_apart(2,3) by (simp_all add: os_read_ok healthy_disk_def healthy_def templates_there_def)
  moreover have "plain_text (concat (map (page_of ann) ss))" using assms(6) d(3) plain_text_prefix by blast
  ultimately have "rendered tr n ann ?cfg w0 text"
    using configured_pages [OF cfg, of tr] server_template d(3) unfolding rendered_def
    by (intro exI [of _ server_tmpl] exI [of _ "Nodes server_nodes"] exI [of _ "map (page_of ann) ss"]) (auto dest: map_injective)
  from rendered_reloaded [OF this assms(4) refl _ cfg] h0 obtain w1 where w1:
      "generateBackendTemplate tr env n ann w = reload env (ing_conf ?ing) w1"
      "files w1 (ing_conf ?ing @ ''-test.conf'') = Some text" "events w1 = events w0"
      "files w1 (ing_conf ?ing @ ''.conf'') = files w0 (ing_conf ?ing @ ''.conf'')"
      "touches_only {ing_conf ?ing @ ''-test.conf'', path_join [''/etc/nginx'', path_base (ing_conf ?ing @ ''-test.conf'')]} w0 w1"
      "generateConfigureBytes tr (backend_configure n ann ?cfg) w0 = (Inr (), w1)"
      "cf_ConfName (backend_configure n ann ?cfg) = ing_conf ?ing"
    unfolding ing_conf_def by force
  have "path_join [''/etc/nginx'', path_base (ing_conf ?ing @ ''-test.conf'')] =
      ''/etc/nginx/'' @ ing_Name ?ing @ ''-'' @ ing_Namespace ?ing @ ''-test.conf''"
    using assms(4) by (simp add: ing_conf_def copy_path plain_ingress_def)
  then have "touches_only (own_files ?ing) w0 w1"
    using w1(5) by (auto simp: own_files_def elim: touches_only_mono)
  then have "touches_only (ssl_files \<union> own_files ?ing) w w1"
    using w0(2) by (auto simp: certs_written_def touches_only_def)
  moreover have "healthy_disk w1" using w1(5) h0 healthy_disk_touches by blast
  moreover have "files w0 (ing_conf ?ing @ ''.conf'') = files w (ing_conf ?ing @ ''.conf'')"
    using f0 paths_apart(1) by blast
  moreover have "\<exists>cfg v. getBackendConfigure n ann w = (Inr cfg, v) \<and>
      generateConfigureBytes tr (backend_configure n ann cfg) v = (Inr (), w1) \<and>
      cf_ConfName (backend_configure n ann cfg) = ing_conf ?ing"
    using cfg w1(6,7) by blast
  ultimately show ?thesis using w1(1-4) w0(2) unfolding certs_written_def by (intro exI [of _ w1]) simp
qed

lemma update_needs_desired:
  assumes "healthy_disk w" and "plain_certs n" and "fst (generateBackendTemplate tr env n ann w) = Inr ()"
  shows "\<exists>text. desired_text n ann = Inr text"
proof -
  from generateTlsFile_certs [OF healthy_disk_writable [OF assms(1)] assms(2)] obtain w0 where
    w0: "generateTlsFile n w = (desired_certs n, w0)" by blast
  obtain r w1 where g: "getBackendConfigure n ann w = (r, w1)" by (meson surj_pair)
  with assms(3) obtain cfg where "r = Inr cfg" by (cases r) (auto simp: generateBackendTemplate_def)
  with w0 g obtain tls err ss where "desired_certs n = Inr (tls, err)"
      "emap (rule_server n ann tls) (Rules (ing_Spec (nc_ingress n))) = Inr ss"
    by (auto simp: getBackendConfigure_ok)
  then show ?thesis by (simp add: desired_text_def)
qed

text \<open>A reload that nginx accepts, and one that has nothing to do.\<close>

lemma reload_accepted:
  assumes h: "healthy_conf w name" and new: "files w (name @ ''-test.conf'') = Some new" "new \<noteq> []"
    and old: "files w (name @ ''.conf'') \<noteq> Some []" and "accepts_all env" and "nginx_up env"
  shows "fst (reload env name w) = Inr () \<and>
    (\<exists>cur. files (snd (reload env name w)) (name @ ''.conf'') = Some cur \<and> sha1_hex cur = sha1_hex new \<and> cur \<noteq> [])"
proof -
  from assms(6) obtain pid where up: "\<And>w. restarts env pid w" by (auto simp: nginx_up_def)
  have ok: "\<not> failed_run (ne_test env f)" for f using assms(5) by (simp add: accepts_all_def)
  show ?thesis
  proof (cases "files w (name @ ''.conf'')")
    case None
    with reload_first_ok [OF h None new ok up] reload_first_load [OF h None new, of env] new(2) ok show ?thesis by simp
  next
    case (Some cur)
    with old have ne: "cur \<noteq> []" by simp
    show ?thesis
    proof (cases "sha1_hex cur = sha1_hex new")
      case True
      from reload_unchanged [OF h Some new(1) this, of env] ne True show ?thesis by (simp add: settled_def)
    next
      case False
      have "fst (reload env name w) = Inr ()"
        using reload_passed [OF h Some ne new False ok] gracefulRestart_ok [OF up] by (simp add: deferred_returns)
      with reload_changed_installed [OF h Some ne new False, of env] ok new(2) show ?thesis
        by (simp add: installed_def)
    qed
  qed
qed

lemma update_outcome:
  assumes "healthy_disk w" and "templates_there w" and "plain_certs n" and "plain_ingress (nc_ingress n)"
    and "desired_text n ann = Inr text" and "plain_text text"
  shows "touches_only (ssl_files \<union> own_files (nc_ingress n)) w (snd (generateBackendTemplate tr env n ann w))"
    and "fst (generateBackendTemplate tr env n ann w) = Inr () \<Longrightarrow>
      \<exists>cur. files (snd (generateBackendTemplate tr env n ann w)) (ing_conf (nc_ingress n) @ ''.conf'') = Some cur \<and>
        sha1_hex cur = sha1_hex text"
    and "accepts_all env \<Longrightarrow> nginx_up env \<Longrightarrow> files w (ing_conf (nc_ingress n) @ ''.conf'') \<noteq> Some [] \<Longrightarrow>
      fst (generateBackendTemplate tr env n ann w) = Inr () \<and>
      (\<exists>cur. files (snd (generateBackendTemplate tr env n ann w)) (ing_conf (nc_ingress n) @ ''.conf'') = Some cur \<and>
        sha1_hex cur = sha1_hex text \<and> cur \<noteq> [])"
    and "files w (ing_conf (nc_ingress n) @ ''.conf'') = Some cur \<Longrightarrow> sha1_hex cur = sha1_hex text \<Longrightarrow>
      fst (generateBackendTemplate tr env n ann w) = Inr () \<and>
      events (snd (generateBackendTemplate tr env n ann w)) = events w \<and>
      files (snd (generateBackendTemplate tr env n ann w)) (ing_conf (nc_ingress n) @ ''.conf'') = Some cur"
proof -
  let ?ing = "nc_ingress n"
  from update_writes_desired [OF assms] obtain w1 where w1:
    "generateBackendTemplate tr env n ann w = reload env (ing_conf ?ing) w1" "healthy_disk w1"
    "files w1 (ing_conf ?ing @ ''-test.conf'') = Some text" "events w1 = events w"
    "files w1 (ing_conf ?ing @ ''.conf'') = files w (ing_conf ?ing @ ''.conf'')"
    "touches_only (ssl_files \<union> own_files ?ing) w w1" by blast
  have h: "healthy_conf w1 (ing_conf ?ing)" using w1(2) by simp
  have ne: "text \<noteq> []" using assms(5) by (auto simp: desired_text_def ebind_eq_Inr)
  obtain r w2 where 2: "reload env (ing_conf ?ing) w1 = (r, w2)" by (meson surj_pair)
  have "touches_only (ssl_files \<union> own_files ?ing) w1 w2"
    using reload_frame [OF 2] by (auto simp: own_files_def elim: touches_only_mono)
  then show "touches_only (ssl_files \<union> own_files ?ing) w (snd (generateBackendTemplate tr env n ann w))"
    using w1(1,6) 2 touches_only_trans by simp
  show "\<exists>cur. files (snd (generateBackendTemplate tr env n ann w)) (ing_conf ?ing @ ''.conf'') = Some cur \<and>
        sha1_hex cur = sha1_hex text" if "fst (generateBackendTemplate tr env n ann w) = Inr ()"
    using reload_success [OF h w1(3) ne, of env] that w1(1) by simp
  show "fst (generateBackendTemplate tr env n ann w) = Inr () \<and>
      (\<exists>cur. files (snd (generateBackendTemplate tr env n ann w)) (ing_conf ?ing @ ''.conf'') = Some cur \<and>
        sha1_hex cur = sha1_hex text \<and> cur \<noteq> [])"
    if "accepts_all env" "nginx_up env" "files w (ing_conf ?ing @ ''.conf'') \<noteq> Some []"
    using reload_accepted [OF h w1(3) ne _ that(1,2)] that(3) w1(1,5) by simp
  show "fst (generateBackendTemplate tr env n ann w) = Inr () \<and>
      events (snd (generateBackendTemplate tr env n ann w)) = events w \<and>
      files (snd (generateBackendTemplate tr env n ann w)) (ing_conf ?ing @ ''.conf'') = Some cur"
    if "files w (ing_conf ?ing @ ''.conf'') = Some cur" "sha1_hex cur = sha1_hex text"
    using reload_unchanged [OF h _ w1(3), of cur env] that w1(1,4,5) by (simp add: settled_def)
qed

section \<open>What a reconciliation may touch\<close>

text \<open>The files of a configuration name, and the main configuration.\<close>

definition conf_files :: "string \<Rightarrow> string set" where
  "conf_files name = {name @ ''.conf'', name @ ''-test.conf'', name @ ''.tmp'',
     path_join [''/etc/nginx'', path_base (name @ ''-test.conf'')]}"

definition main_conf_files :: "string set" where
  "main_conf_files = conf_files ''/etc/nginx/nginx''"

definition reconcile_files :: "object_key \<Rightarrow> string set" where
  "reconcile_files req =
     conf_files (path_join [ConfDir, ok_Name req @ ''-'' @ ok_Namespace req]) \<union>
     {path_join [ConfDir, ok_Name req @ ''-'' @ ok_Namespace req @ ''.conf'']} \<union>
     main_conf_files \<union> range (\<lambda>x. path_join [SslPath, x])"

lemma write_test_conf_frame: "touches_only (conf_files name) w (snd (write_test_conf name b w))"
proof -
  obtain e w1 where 1: "os_write (name @ ''-test.conf'') b w = (e, w1)" by (meson surj_pair)
  obtain e2 w2 where 2: "os_write (path_join [''/etc/nginx'', path_base (name @ ''-test.conf'')]) b w1 = (e2, w2)"
    by (meson surj_pair)
  have "touches_only (conf_files name) w w1" "touches_only (conf_files name) w1 w2"
    using os_write_touches [OF 1] os_write_touches [OF 2] by (auto simp: conf_files_def elim: touches_only_mono)
  moreover from this have "touches_only (conf_files name) w w2" by (rule touches_only_trans)
  ultimately show ?thesis
    using 1 2 by (cases e) (auto simp: write_test_conf_def Let_def split: sum.split)
qed

lemma bytes_frame: "touches_only (conf_files (cf_ConfName cfg)) w (snd (generateConfigureBytes tr cfg w))"
  unfolding generateConfigureBytes_def
  by (cases "ebind (lift_err (os_read (cf_MainTmpl cfg) w)) (\<lambda>mainTmplStr.
            ebind (lift_err (parse_template tr mainTmplStr)) (\<lambda>mainTmpl.
            ebind (render_servers tr w (Servers (cf_Cfg cfg)) cfg) (\<lambda>cfg'.
              include_servers tr mainTmpl (cf_ServerTpl cfg'))))") (simp_all add: write_test_conf_frame)

lemma Reload_conf_frame: "touches_only (conf_files name) w (snd (Reload env name w))"
proof -
  obtain r w1 where 1: "reload env name w = (r, w1)" by (meson surj_pair)
  from reload_frame [OF this] show ?thesis
    by (auto simp: 1 Reload_def conf_files_def elim: touches_only_mono)
qed

lemma sbind_frame:
  assumes "touches_only ps w (snd m)" and "\<And>a w1. touches_only ps w1 (snd (f a w1))"
  shows "touches_only ps w (snd (sbind m f))"
  using assms touches_only_trans by (cases "(m, f)" rule: sbind.cases) fastforce+

lemma tls_frame: "touches_only (range (\<lambda>x. path_join [SslPath, x])) w (snd (generateTlsFile n w))"
  using generateTlsFile_ssl [of n w] by (cases "generateTlsFile n w") (auto simp: ssl_only_def)

lemma configure_frame: "touches_only (range (\<lambda>x. path_join [SslPath, x])) w (snd (getBackendConfigure n ann w))"
  unfolding getBackendConfigure_def
  by (rule sbind_frame [OF tls_frame]) (simp split: prod.split)

lemma backend_frame:
  "touches_only (conf_files (path_join [ConfDir, ing_Name (nc_ingress n) @ ''-'' @ ing_Namespace (nc_ingress n)]) \<union>
     range (\<lambda>x. path_join [SslPath, x])) w (snd (generateBackendTemplate tr env n ann w))"
proof -
  have name: "cf_ConfName (backend_configure n ann cfg) = path_join [ConfDir, ing_Name (nc_ingress n) @ ''-'' @ ing_Namespace (nc_ingress n)]"
    for cfg by (simp add: backend_configure_def)
  show ?thesis
    unfolding generateBackendTemplate_def name
    using touches_only_mono [OF configure_frame [of w n ann]]
      touches_only_mono [OF bytes_frame [of "backend_configure n ann cfg" for cfg, unfolded name]]
      touches_only_mono [OF Reload_conf_frame]
    by (intro sbind_frame) auto
qed

lemma default_frame: "touches_only main_conf_files w (snd (generateDefaultBackendTemplate tr env n ann w))"
proof -
  have name: "cf_ConfName (default_configure ann cfg) = ''/etc/nginx/nginx''" for cfg
    by (simp add: default_configure_def main_name)
  show ?thesis
    unfolding generateDefaultBackendTemplate_def name main_conf_files_def
    using bytes_frame [of "default_configure ann cfg" for cfg, unfolded name] Reload_conf_frame
    by (intro sbind_frame) simp_all
qed

lemma static_frame: "touches_only main_conf_files w (snd (UpdateDefaultConf tr env default_renderer w))"
proof -
  have gen: "touches_only (conf_files (GenerateName rt)) w (snd (rt_Generate rt b w))" for rt b w
  proof -
    obtain e w1 where 1: "os_write (GenerateName rt @ ''-test.conf'') b w = (e, w1)" by (meson surj_pair)
    have "touches_only (conf_files (GenerateName rt)) w w1"
      using os_write_touches [OF 1] by (auto simp: conf_files_def elim: touches_only_mono)
    then show ?thesis using 1 by (cases e) (auto simp: rt_Generate_def Let_def split: sum.split)
  qed
  have render: "touches_only (conf_files (GenerateName rt)) w (snd (rt_Render tr rt data w))" for rt data w
    unfolding rt_Render_def by (rule sbind_frame) (simp_all add: gen)
  have name: "GenerateName default_renderer = ''/etc/nginx/nginx''" by (simp add: default_renderer_def main_name)
  show ?thesis
    unfolding UpdateDefaultConf_def Let_def main_conf_files_def name
    using render [of default_renderer, unfolded name] Reload_conf_frame by (intro sbind_frame) simp_all
qed

lemma GenerateConfigure_frame:
  "touches_only (conf_files (path_join [ConfDir, ing_Name (nc_ingress n) @ ''-'' @ ing_Namespace (nc_ingress n)]) \<union>
     main_conf_files \<union> range (\<lambda>x. path_join [SslPath, x])) w (snd (GenerateConfigure tr env n ann w))"
  (is "touches_only ?S _ _")
proof -
  have 1: "touches_only ?S w (snd (generateBackendTemplate tr env n ann w))" for w
    by (rule touches_only_mono [OF backend_frame]) auto
  have 2: "touches_only ?S w (snd (generateDefaultBackendTemplate tr env n ann w))" for w
    by (rule touches_only_mono [OF default_frame]) auto
  show ?thesis unfolding GenerateConfigure_def using 1 2 by (intro sbind_frame) auto
qed

lemma clearConf_frame:
  "touches_only (insert (path_join [ConfDir, ok_Name key @ ''-'' @ ok_Namespace key @ ''.conf'']) main_conf_files) w
     (snd (clearConf tr env key w))"
proof (cases "os_stat (path_join [ConfDir, ok_Name key @ ''-'' @ ok_Namespace key @ ''.conf'']) w")
  case (Inl e)
  moreover have "touches_only (insert (path_join [ConfDir, ok_Name key @ ''-'' @ ok_Namespace key @ ''.conf'']) main_conf_files) w
      (snd (UpdateDefaultConf tr env default_renderer w))"
    by (rule touches_only_mono [OF static_frame]) auto
  ultimately show ?thesis by (simp add: clearConf_def drop_error_world)
next
  case (Inr n)
  moreover have "touches_only (insert (path_join [ConfDir, ok_Name key @ ''-'' @ ok_Namespace key @ ''.conf'']) main_conf_files) w
      (CleanConf [path_join [ConfDir, ok_Name key @ ''-'' @ ok_Namespace key @ ''.conf'']] w)"
    by (rule touches_only_mono [OF CleanConf_frame [THEN conjunct1]]) auto
  ultimately show ?thesis by (simp add: clearConf_def)
qed

lemma generate_frame:
  assumes "ing_Name ic = ok_Name req" and "ing_Namespace ic = ok_Namespace req"
  shows "touches_only (reconcile_files req) w (snd (generate out ic c w))"
proof -
  let ?rr = "info_resolver (info_at (rc_api out) ic c)"
  show ?thesis
  proof (cases "Extract (rc_mergo out) (rc_order out (NewAnnotationExtractor ?rr)) ic")
    case (Inl f)
    then show ?thesis by (cases f) (simp_all add: generate_def)
  next
    case (Inr parsed)
    let ?n = "\<lparr>nc_rr = ?rr, nc_ingress = ic\<rparr>"
    have "snd (generate out ic c w) = snd (GenerateConfigure (rc_tr out) (rc_env out) ?n parsed w)"
      using Inr by (auto simp: generate_def split: sum.split fault.split prod.split)
    moreover have "touches_only (reconcile_files req) w (snd (GenerateConfigure (rc_tr out) (rc_env out) ?n parsed w))"
      by (rule touches_only_mono [OF GenerateConfigure_frame]) (auto simp: reconcile_files_def assms)
    ultimately show ?thesis by simp
  qed
qed

lemma resources_frame:
  assumes "ing_Name ic = ok_Name req" and "ing_Namespace ic = ok_Namespace req"
  shows "touches_only (reconcile_files req) w (snd (snd (resources_then_generate out ic c w)))"
proof -
  obtain r c1 where r: "ReconcileResource (rc_api out) ic c = (r, c1)" by (meson surj_pair)
  obtain q w1 where g: "generate out ic c1 w = (q, w1)" by (meson surj_pair)
  show ?thesis
  proof (cases r)
    case (Inl f)
    with r show ?thesis by (cases f) (simp_all add: resources_then_generate_def)
  next
    case (Inr u)
    with r g generate_frame [OF assms, of w out c1] show ?thesis by (simp add: resources_then_generate_def)
  qed
qed

section \<open>One reconciliation, composed\<close>

text \<open>An ingress of this controller whose services, certificate and annotations are in order.\<close>

definition ready :: "'c outside \<Rightarrow> 'c \<Rightarrow> ingress \<Rightarrow> bool" where
  "ready out c ic \<longleftrightarrow>
     checkController (ap_view (rc_api out) c) ic = None \<and> check_rules (ap_view (rc_api out) c) ic = Inr [] \<and>
     DefaultBackend (ing_Spec ic) = None \<and> Rules (ing_Spec ic) \<noteq> [] \<and>
     ReconcileResource (rc_api out) ic c = (Inr (), c) \<and> plain_ingress ic \<and>
     plain_certs (controller_of (ap_view (rc_api out) c) ic) \<and>
     (\<exists>t. desired_conf (ap_view (rc_api out) c) ic = Inr t \<and> plain_text t)"

definition in_sync :: "client \<Rightarrow> ingress \<Rightarrow> world \<Rightarrow> bool" where
  "in_sync cl ic w \<longleftrightarrow>
     (\<exists>t cur. desired_conf cl ic = Inr t \<and> files w (ing_conf ic @ ''.conf'') = Some cur \<and> sha1_hex cur = sha1_hex t)"

text \<open>The libraries around the controller do what they document.\<close>

definition libraries_ok :: "'c outside \<Rightarrow> bool" where
  "libraries_ok out \<longleftrightarrow> mergo_fills (rc_mergo out) \<and> (\<forall>e. iteration_of (rc_order out e) e)"

lemma controller_of_ingress [simp]: "nc_ingress (controller_of cl ic) = ic"
  by (simp add: controller_of_def)

lemma Extract_ready:
  assumes "libraries_ok out"
  shows "Extract (rc_mergo out) (rc_order out (NewAnnotationExtractor (info_resolver (info_at (rc_api out) ic c)))) ic = Inr a \<longleftrightarrow>
    desired_annotations (NewIngressInfo (ap_view (rc_api out) c) ic) ic = Inr a"
  unfolding info_at_def using assms by (intro Extract_desired) (auto simp: libraries_ok_def)

text \<open>A reconciliation of a ready ingress is the update of its back ends.\<close>

lemma Reconcile_ready:
  assumes "libraries_ok out" and "ready out c ic" and "cl_Ingress (ap_view (rc_api out) c) req = Inr ic"
  shows "\<exists>t ann. desired_conf (ap_view (rc_api out) c) ic = Inr t \<and> plain_text t \<and>
    desired_text (controller_of (ap_view (rc_api out) c) ic) ann = Inr t \<and>
    (\<forall>w r w1. generateBackendTemplate (rc_tr out) (rc_env out) (controller_of (ap_view (rc_api out) c) ic) ann w = (r, w1) \<longrightarrow>
       (r = Inr () \<longrightarrow> Reconcile out req c w = (Inr 0, c, w1)) \<and>
       ((\<exists>e. r = Inl (Err e)) \<longrightarrow> Reconcile out req c w = (Inr 15, c, w1)))"
proof -
  let ?cl = "ap_view (rc_api out) c"
  from assms(2) obtain t where t: "desired_conf ?cl ic = Inr t" "plain_text t" by (auto simp: ready_def)
  then obtain ann where ann: "desired_annotations (NewIngressInfo ?cl ic) ic = Inr ann"
      "desired_text (controller_of ?cl ic) ann = Inr t"
    by (auto simp: desired_conf_def ebind_eq_Inr)
  have n: "\<lparr>nc_rr = info_resolver (info_at (rc_api out) ic c), nc_ingress = ic\<rparr> = controller_of ?cl ic"
    by (simp add: controller_of_def info_at_def)
  have "(r = Inr () \<longrightarrow> Reconcile out req c w = (Inr 0, c, w1)) \<and>
      ((\<exists>e. r = Inl (Err e)) \<longrightarrow> Reconcile out req c w = (Inr 15, c, w1))"
    if g: "generateBackendTemplate (rc_tr out) (rc_env out) (controller_of ?cl ic) ann w = (r, w1)" for w r w1
  proof -
    have "GenerateConfigure (rc_tr out) (rc_env out) (controller_of ?cl ic) ann w = (r, w1)"
      using assms(2) g by (cases r) (simp_all add: GenerateConfigure_def ready_def)
    then have "r = Inr () \<Longrightarrow> generate out ic c w = (Inr 0, w1)" "r = Inl (Err e) \<Longrightarrow> generate out ic c w = (Inr 15, w1)" for e
      using Extract_ready [OF assms(1), of ic c ann] ann(1) by (simp_all add: generate_def Let_def n)
    moreover have "Reconcile out req c w = resources_then_generate out ic c w"
      using assms(2,3) by (intro Reconcile_found) (auto simp: ready_def)
    ultimately show ?thesis using assms(2) by (auto simp: ready_def resources_then_generate_def)
  qed
  with t ann show ?thesis by blast
qed

text \<open>A configuration that nginx rejects.\<close>

definition rejects :: "nginx_env \<Rightarrow> string \<Rightarrow> string \<Rightarrow> bool" where
  "rejects env name t \<longleftrightarrow> (\<forall>f. f (name @ ''.conf'') = Some t \<longrightarrow> (\<exists>m. ne_test env f = RunExit m))"

lemma ready_update:
  assumes "libraries_ok out" and "ready out c ic" and "cl_Ingress (ap_view (rc_api out) c) req = Inr ic"
    and "healthy_disk w" and "templates_there w"
  shows "accepts_all (rc_env out) \<Longrightarrow> nginx_up (rc_env out) \<Longrightarrow> files w (ing_conf ic @ ''.conf'') \<noteq> Some [] \<Longrightarrow>
      \<exists>w1. Reconcile out req c w = (Inr 0, c, w1) \<and> touches_only (ssl_files \<union> own_files ic) w w1 \<and>
        in_sync (ap_view (rc_api out) c) ic w1 \<and> files w1 (ing_conf ic @ ''.conf'') \<noteq> Some []"
    and "in_sync (ap_view (rc_api out) c) ic w \<Longrightarrow>
      \<exists>w1. Reconcile out req c w = (Inr 0, c, w1) \<and> touches_only (ssl_files \<union> own_files ic) w w1 \<and>
        files w1 (ing_conf ic @ ''.conf'') = files w (ing_conf ic @ ''.conf'') \<and> events w1 = events w"
proof -
  let ?cl = "ap_view (rc_api out) c"
  from Reconcile_ready [OF assms(1-3)] obtain t ann where
    t: "desired_conf ?cl ic = Inr t" "plain_text t" "desired_text (controller_of ?cl ic) ann = Inr t"
    and R: "\<And>w w1. generateBackendTemplate (rc_tr out) (rc_env out) (controller_of ?cl ic) ann w = (Inr (), w1) \<Longrightarrow>
       Reconcile out req c w = (Inr 0, c, w1)" by blast
  obtain r w1 where g: "generateBackendTemplate (rc_tr out) (rc_env out) (controller_of ?cl ic) ann w = (r, w1)"
    by (meson surj_pair)
  have plain: "plain_certs (controller_of ?cl ic)" "plain_ingress (nc_ingress (controller_of ?cl ic))"
    using assms(2) by (auto simp: ready_def)
  note u = update_outcome [OF assms(4,5) plain t(3,2), where tr = "rc_tr out" and env = "rc_env out", unfolded g fst_conv snd_conv controller_of_ingress]
  show "\<exists>w1. Reconcile out req c w = (Inr 0, c, w1) \<and> touches_only (ssl_files \<union> own_files ic) w w1 \<and>
        in_sync ?cl ic w1 \<and> files w1 (ing_conf ic @ ''.conf'') \<noteq> Some []"
    if "accepts_all (rc_env out)" "nginx_up (rc_env out)" "files w (ing_conf ic @ ''.conf'') \<noteq> Some []"
    using u(1) u(3) [OF that] R g t(1) by (auto simp: in_sync_def intro!: exI [of _ w1])
  show "\<exists>w1. Reconcile out req c w = (Inr 0, c, w1) \<and> touches_only (ssl_files \<union> own_files ic) w w1 \<and>
        files w1 (ing_conf ic @ ''.conf'') = files w (ing_conf ic @ ''.conf'') \<and> events w1 = events w"
    if "in_sync ?cl ic w"
  proof -
    from that t(1) obtain cur where "files w (ing_conf ic @ ''.conf'') = Some cur" "sha1_hex cur = sha1_hex t"
      by (auto simp: in_sync_def)
    from u(4) [OF this] u(1) R g this(1) show ?thesis by (intro exI [of _ w1]) simp
  qed
qed

section \<open>A queue of requests\<close>

text \<open>The requests the manager hands to one worker, one after the other, and what each returned.\<close>

fun run_queue :: "'c outside \<Rightarrow> object_key list \<Rightarrow> 'c \<Rightarrow> world \<Rightarrow> nat result list \<times> 'c \<times> world" where
  "run_queue out [] c w = ([], c, w)"
| "run_queue out (req # reqs) c w =
     (case Reconcile out req c w of (r, c1, w1) \<Rightarrow>
        (case run_queue out reqs c1 w1 of (rs, c2, w2) \<Rightarrow> (r # rs, c2, w2)))"

definition key_of :: "ingress \<Rightarrow> object_key" where
  "key_of ing = \<lparr>ok_Name = ing_Name ing, ok_Namespace = ing_Namespace ing\<rparr>"

text \<open>Two ingresses whose names do not make one file of both.\<close>

definition separate :: "ingress \<Rightarrow> ingress \<Rightarrow> bool" where
  "separate i j \<longleftrightarrow> ing_conf i @ ''.conf'' \<noteq> ing_conf j @ ''.conf'' \<and> ing_conf i @ ''.conf'' \<noteq> ing_conf j @ ''-test.conf''"

lemma separate_files:
  assumes "separate i j" and "plain_ingress j"
  shows "ing_conf i @ ''.conf'' \<notin> ssl_files \<union> own_files j"
proof -
  have "ing_conf i @ ''.conf'' \<noteq> ing_conf j @ ''.tmp''"
    by (rule notI, drule arg_cong [where f = last]) simp
  moreover have "''/etc/nginx/'' @ ing_Name j @ ''-'' @ ing_Namespace j @ ''-test.conf'' \<noteq> ing_conf i @ ''.conf''"
    using assms(2) unfolding ing_conf_def by (intro copy_path_differs) (simp add: plain_ingress_def)
  ultimately show ?thesis
    using assms(1) paths_apart(1) [of i "''.conf''"] by (auto simp: own_files_def separate_def)
qed

text \<open>The ingresses of a cluster that the queue is about.\<close>

definition fleet :: "'c outside \<Rightarrow> 'c \<Rightarrow> ingress set \<Rightarrow> bool" where
  "fleet out c ings \<longleftrightarrow> libraries_ok out \<and> accepts_all (rc_env out) \<and> nginx_up (rc_env out) \<and>
     (\<forall>i\<in>ings. cl_Ingress (ap_view (rc_api out) c) (key_of i) = Inr i \<and> ready out c i) \<and>
     (\<forall>i\<in>ings. \<forall>j\<in>ings. i = j \<or> separate i j)"

lemma fleet_step:
  assumes "fleet out c ings" and "i \<in> ings" and "healthy_disk w" and "templates_there w"
    and "\<forall>j\<in>ings. files w (ing_conf j @ ''.conf'') \<noteq> Some []"
  shows "\<exists>w1. Reconcile out (key_of i) c w = (Inr 0, c, w1) \<and> healthy_disk w1 \<and> templates_there w1 \<and>
    (\<forall>j\<in>ings. files w1 (ing_conf j @ ''.conf'') \<noteq> Some []) \<and> in_sync (ap_view (rc_api out) c) i w1 \<and>
    (\<forall>j\<in>ings. in_sync (ap_view (rc_api out) c) j w \<longrightarrow> in_sync (ap_view (rc_api out) c) j w1)"
proof -
  have i: "cl_Ingress (ap_view (rc_api out) c) (key_of i) = Inr i" "ready out c i" "plain_ingress i"
    and env: "libraries_ok out" "accepts_all (rc_env out)" "nginx_up (rc_env out)"
    using assms(1,2) by (auto simp: fleet_def ready_def)
  have "files w (ing_conf i @ ''.conf'') \<noteq> Some []" using assms(2,5) by blast
  from ready_update(1) [OF env(1) i(2,1) assms(3,4) env(2,3) this] obtain w1 where
    w1: "Reconcile out (key_of i) c w = (Inr 0, c, w1)" "touches_only (ssl_files \<union> own_files i) w w1"
      "in_sync (ap_view (rc_api out) c) i w1" "files w1 (ing_conf i @ ''.conf'') \<noteq> Some []" by blast
  have other: "files w1 (ing_conf j @ ''.conf'') = files w (ing_conf j @ ''.conf'')" if "j \<in> ings" "j \<noteq> i" for j
    using separate_files [of j i] assms(1,2) that i(3) w1(2) by (auto simp: fleet_def touches_only_def)
  have "files w1 (ing_conf j @ ''.conf'') \<noteq> Some []" if "j \<in> ings" for j
    using other [OF that] w1(4) assms(5) that by (cases "j = i") auto
  moreover have "in_sync (ap_view (rc_api out) c) j w1" if "j \<in> ings" "in_sync (ap_view (rc_api out) c) j w" for j
    using other [OF that(1)] w1(3) that(2) by (cases "j = i") (auto simp: in_sync_def)
  moreover have "healthy_disk w1" using w1(2) assms(3) healthy_disk_touches by blast
  moreover have "templates_there w1" using templates_kept [OF w1(2)] assms(4) by simp
  ultimately show ?thesis using w1(1,3) by blast
qed

lemma fleet_queue:
  assumes "fleet out c ings" and "set queue \<subseteq> ings" and "healthy_disk w" and "templates_there w"
    and "\<forall>j\<in>ings. files w (ing_conf j @ ''.conf'') \<noteq> Some []"
  shows "\<exists>w1. run_queue out (map key_of queue) c w = (map (\<lambda>_. Inr 0) queue, c, w1) \<and>
    (\<forall>j\<in>set queue. in_sync (ap_view (rc_api out) c) j w1) \<and>
    (\<forall>j\<in>ings. in_sync (ap_view (rc_api out) c) j w \<longrightarrow> in_sync (ap_view (rc_api out) c) j w1)"
  using assms(2-5)
proof (induction queue arbitrary: w)
  case (Cons i queue)
  have i: "i \<in> ings" using Cons.prems(1) by simp
  from fleet_step [OF assms(1) i Cons.prems(2-4)] obtain w1 where
    w1: "Reconcile out (key_of i) c w = (Inr 0, c, w1)" "healthy_disk w1" "templates_there w1"
      "\<forall>j\<in>ings. files w1 (ing_conf j @ ''.conf'') \<noteq> Some []" "in_sync (ap_view (rc_api out) c) i w1"
      "\<forall>j\<in>ings. in_sync (ap_view (rc_api out) c) j w \<longrightarrow> in_sync (ap_view (rc_api out) c) j w1" by blast
  have "set queue \<subseteq> ings" using Cons.prems(1) by simp
  from Cons.IH [OF this w1(2-4)] obtain w2 where
    w2: "run_queue out (map key_of queue) c w1 = (map (\<lambda>_. Inr 0) queue, c, w2)"
      "\<forall>j\<in>set queue. in_sync (ap_view (rc_api out) c) j w2"
      "\<forall>j\<in>ings. in_sync (ap_view (rc_api out) c) j w1 \<longrightarrow> in_sync (ap_view (rc_api out) c) j w2" by blast
  have "run_queue out (map key_of (i # queue)) c w = (map (\<lambda>_. Inr 0) (i # queue), c, w2)"
    using w1(1) w2(1) by simp
  moreover have "\<forall>j\<in>set (i # queue). in_sync (ap_view (rc_api out) c) j w2" using w1(5) w2(2,3) i by simp
  moreover have "\<forall>j\<in>ings. in_sync (ap_view (rc_api out) c) j w \<longrightarrow> in_sync (ap_view (rc_api out) c) j w2"
    using w1(6) w2(3) by blast
  ultimately show ?case by blast
qed simp

section \<open>A cluster to look at\<close>

text \<open>Every ingress of it has one host and the certificate for it; nginx accepts everything.\<close>

definition live_ingress :: "string \<Rightarrow> ingress" where
  "live_ingress name = sample_ingress\<lparr>ing_Name := name, ing_Annotations := [(nginxAnnotationKey, nginxAnnotationVal)]\<rparr>"

definition live_client :: client where
  "live_client =
     \<lparr>cl_Ingress = (\<lambda>k. Inr (live_ingress (ok_Name k))), cl_Service = (\<lambda>_. Inl (ApiNotFound ''service'')),
      cl_Secret = (\<lambda>_. Inl (ApiNotFound ''secret'')), cl_IngressClass = (\<lambda>_. Inr controller), cl_Issuer = (\<lambda>_. Inr ()),
      cl_Certificate = (\<lambda>_. Inr \<lparr>ce_Name = ''cert'', ce_dnsNames = Inr (Some [''a.com''])\<rparr>)\<rparr>"

definition live_outside :: "unit outside" where
  "live_outside = quiet_outside\<lparr>rc_api := (rc_api quiet_outside)\<lparr>ap_view := \<lambda>_. live_client\<rparr>,
     rc_env := (sample_env RunOk)\<lparr>ne_cat := \<lambda>_. Inr ''17''\<rparr>\<rparr>"

definition live_world :: world where
  "live_world = sample_world [MainServerTmpl \<mapsto> main_server_tmpl, ServerTmpl \<mapsto> server_tmpl]"

definition live_server :: "string \<Rightarrow> ing_annotations server" where
  "live_server name = \<lparr>se_Name = name, se_NameSpace = ''shop'', se_HostName = ''a.com'', se_Tls = empty_cert, se_Paths = []\<rparr>"

definition live_text :: "string \<Rightarrow> string" where
  "live_text name = page_of (new_annotations (live_ingress name)) (live_server name) @ [CHR 0x0A]"

lemma live_simps [simp]:
  "ap_view (rc_api live_outside) c = live_client" "cl_Issuer live_client k = Inr ()"
  "cl_Certificate live_client k = Inr \<lparr>ce_Name = ''cert'', ce_dnsNames = Inr (Some [''a.com''])\<rparr>"
  "cl_Ingress live_client k = Inr (live_ingress (ok_Name k))"
  "ing_Name (live_ingress name) = name" "ing_Namespace (live_ingress name) = ''shop''"
  "Rules (ing_Spec (live_ingress name)) = [\<lparr>ir_Host = ''a.com'', ir_HTTP = Some []\<rparr>]"
  "TLS (ing_Spec (live_ingress name)) = []" "DefaultBackend (ing_Spec (live_ingress name)) = None"
  by (simp_all add: live_outside_def live_client_def live_ingress_def sample_ingress_def)

lemma live_world_ok: "healthy_disk live_world" "templates_there live_world"
  "files live_world (ing_conf i @ x) = None"
  using paths_apart(4,5) [of i x]
  by (simp_all add: live_world_def healthy_disk_def healthy_def sample_world_def templates_there_def
      MainServerTmpl_def ServerTmpl_def)

lemma live_libraries: "libraries_ok live_outside"
  by (simp add: libraries_ok_def live_outside_def quiet_outside_def iteration_of_def mergo_fills_def)

lemma live_nginx: "accepts_all (rc_env live_outside)" "nginx_up (rc_env live_outside)"
proof -
  have "atoi (trim_space ''17'') = Some 17" by code_simp
  then show "nginx_up (rc_env live_outside)"
    unfolding nginx_up_def by (intro exI [of _ 17] allI) (simp add: restarts_def live_outside_def sample_env_def isRunning_def)
qed (simp add: accepts_all_def live_outside_def sample_env_def)

lemma live_desired: "desired_conf live_client (live_ingress name) = Inr (live_text name)"
proof -
  let ?t = "NewIngressInfo live_client (live_ingress name)"
  have plain: "annotation (live_ingress name) (GetAnnotationWithPrefix k) = []" for k
    by (simp add: annotation_def live_ingress_def GetAnnotationWithPrefix_def AnnotationsPrefix_def nginxAnnotationKey_def)
  have mg: "mergo_fills (rc_mergo live_outside)" using live_libraries by (simp add: libraries_ok_def)
  have it: "iteration_of (NewAnnotationExtractor (info_resolver ?t)) (NewAnnotationExtractor (info_resolver ?t))"
    by (simp add: iteration_of_def)
  from Extract_desired [OF mg it] extract_plain [OF mg it plain]
  have ann: "desired_annotations ?t (live_ingress name) = Inr (new_annotations (live_ingress name))" by simp
  have "\<exists>e. desired_certs (controller_of live_client (live_ingress name)) = Inr (Map.empty, Some e)"
    by (simp add: desired_certs_def issued_certs_def controller_of_def info_resolver_def GetTlsData_def GetSecret_def
        NewIngressInfo_def live_client_def Let_def)
  then show ?thesis
    using ann by (auto simp: desired_conf_def desired_text_def rule_server_def controller_of_def new_annotations_def
        live_text_def live_server_def)
qed

lemma live_plain: "plain_text (live_text name)"
proof -
  have "no_open (page_of (new_annotations (live_ingress name)) (live_server name) @ [CHR 0x0A])"
    unfolding page_of_def server_page_def append_assoc
    by (intro no_open_join)
       (simp_all add: closed_text_def upstreams_def tls_block_def address_block_def redirect_block_def proxy_block_def
         new_annotations_def live_server_def empty_cert_def no_open_lines no_open_step long_texts lines_def [of "[[], []]"])
  then show ?thesis unfolding live_text_def by (rule no_open_plain)
qed

lemma live_certs:
  "name \<noteq> [] \<Longrightarrow> CHR ''/'' \<notin> set name \<Longrightarrow> plain_certs (controller_of live_client (live_ingress name))"
  by (simp add: plain_certs_def controller_of_def info_resolver_def GetTlsData_def GetSecret_def NewIngressInfo_def
      live_client_def Let_def)

lemma live_ready:
  assumes "name \<noteq> []" and "CHR ''/'' \<notin> set name"
  shows "ready live_outside () (live_ingress name)"
proof -
  have "checkController live_client (live_ingress name) = None"
    by (simp add: checkController_def live_ingress_def annotation_def nginxAnnotationKey_def nginxAnnotationVal_def)
  moreover have "check_rules live_client (live_ingress name) = Inr []" by (simp add: check_rules_def)
  moreover have "ReconcileResource (rc_api live_outside) (live_ingress name) () = (Inr (), ())"
    by (simp add: ReconcileResource_def reconcileIssuer_def reconcileCert_def domainComparison_def)
  ultimately show ?thesis
    using assms live_certs live_desired live_plain by (simp add: ready_def plain_ingress_def)
qed

lemma live_fleet: "fleet live_outside () {live_ingress ''web'', live_ingress ''api''}"
proof -
  have "key_of (live_ingress n) = \<lparr>ok_Name = n, ok_Namespace = ''shop''\<rparr>" for n by (simp add: key_of_def)
  then show ?thesis
    using live_libraries live_nginx live_ready
    by (simp add: fleet_def separate_def ing_conf_def conf_name_def)
qed

lemma live_first:
  "\<exists>w1. Reconcile live_outside (key_of (live_ingress ''web'')) () live_world = (Inr 0, (), w1) \<and>
     in_sync live_client (live_ingress ''web'') w1 \<and> healthy_disk w1 \<and> templates_there w1"
proof -
  have r: "cl_Ingress (ap_view (rc_api live_outside) ()) (key_of (live_ingress ''web'')) = Inr (live_ingress ''web'')"
    by (simp add: key_of_def)
  have "ready live_outside () (live_ingress ''web'')" by (rule live_ready) simp_all
  from ready_update(1) [OF live_libraries this r live_world_ok(1,2) live_nginx] live_world_ok(3)
  obtain w1 where w1: "Reconcile live_outside (key_of (live_ingress ''web'')) () live_world = (Inr 0, (), w1)"
    "touches_only (ssl_files \<union> own_files (live_ingress ''web'')) live_world w1"
    "in_sync live_client (live_ingress ''web'') w1" by auto
  then show ?thesis using live_world_ok(1,2) healthy_disk_touches templates_kept by blast
qed

section \<open>Properties\<close>

text \<open>C1. With the templates of the repository and on a healthy disk, a reconciliation that reports it is
  done leaves, under the name of the ingress, the configuration the cluster asks for: the servers of its
  rules with the certificates of their hosts and the annotations (up to the digest the controller
  compares by, and unless the data carry an opening delimiter of the templates).\<close>

theorem reconcile_installs_desired:
  assumes "cl_Ingress (ap_view (rc_api out) c) req = Inr ic" and "Rules (ing_Spec ic) \<noteq> []"
    and "plain_ingress ic" and "libraries_ok out" and "healthy_disk w" and "templates_there w"
    and "Reconcile out req c w = (Inr 0, c1, w1)" and "plain_certs (controller_of (ap_view (rc_api out) c1) ic)"
    and "list_all plain_text (case desired_conf (ap_view (rc_api out) c1) ic of Inl _ \<Rightarrow> [] | Inr t \<Rightarrow> [t])"
  shows "in_sync (ap_view (rc_api out) c1) ic w1"
proof -
  let ?cl = "ap_view (rc_api out) c1" and ?n = "controller_of (ap_view (rc_api out) c1) ic"
  have n: "\<lparr>nc_rr = info_resolver (info_at (rc_api out) ic c1), nc_ingress = ic\<rparr> = ?n"
    by (simp add: controller_of_def info_at_def)
  from reconcile_done_steps [OF assms(1,7)] obtain ann where
    ex: "Extract (rc_mergo out) (rc_order out (NewAnnotationExtractor (info_resolver (info_at (rc_api out) ic c1)))) ic = Inr ann"
    and g: "GenerateConfigure (rc_tr out) (rc_env out) ?n ann w = (Inr (), w1)"
    unfolding n [symmetric] by blast
  obtain r w2 where b: "generateBackendTemplate (rc_tr out) (rc_env out) ?n ann w = (r, w2)" by (meson surj_pair)
  have r: "r = Inr ()" using g b assms(2) by (cases r) (auto simp: GenerateConfigure_def)
  have "touches_only main_conf_files w2 w1"
    using g b r assms(2) default_frame [of w2 "rc_tr out" "rc_env out" ?n ann]
    by (auto simp: GenerateConfigure_def split: if_splits)
  moreover have "ing_conf ic @ ''.conf'' \<notin> main_conf_files"
  proof -
    have "path_join [''/etc/nginx'', path_base ''/etc/nginx/nginx-test.conf''] = ''/etc/nginx/nginx-test.conf''"
      by code_simp
    then show ?thesis by (simp add: main_conf_files_def conf_files_def ing_conf_def conf_name_def ConfDir_def)
  qed
  ultimately have keep: "files w1 (ing_conf ic @ ''.conf'') = files w2 (ing_conf ic @ ''.conf'')"
    by (simp add: touches_only_def)
  have finished: "fst (generateBackendTemplate (rc_tr out) (rc_env out) ?n ann w) = Inr ()" using b r by simp
  from update_needs_desired [OF assms(5,8) this] obtain t where t: "desired_text ?n ann = Inr t" ..
  then have d: "desired_conf ?cl ic = Inr t"
    using ex Extract_ready [OF assms(4)] by (simp add: desired_conf_def)
  then have "plain_text t" using assms(9) by simp
  from update_outcome(2) [OF assms(5,6,8) _ t this finished] b assms(3) obtain cur where
    "files w2 (ing_conf ic @ ''.conf'') = Some cur" "sha1_hex cur = sha1_hex t" by auto
  with keep d show ?thesis by (simp add: in_sync_def)
qed

theorem reconcile_installs_desired_witness:
  "in_sync live_client (live_ingress ''web'')
     (snd (snd (Reconcile live_outside (key_of (live_ingress ''web'')) () live_world)))"
proof -
  obtain w1 where r: "Reconcile live_outside (key_of (live_ingress ''web'')) () live_world = (Inr 0, (), w1)"
    using live_first by blast
  have "in_sync (ap_view (rc_api live_outside) ()) (live_ingress ''web'') w1"
    by (rule reconcile_installs_desired [OF _ _ _ live_libraries live_world_ok(1,2) r])
       (use live_certs live_desired live_plain in \<open>simp_all add: key_of_def plain_ingress_def\<close>)
  with r show ?thesis by simp
qed

text \<open>C14. When the installed configuration is already the desired one and the cluster is settled, a
  reconciliation is done without running a configuration test and without signalling nginx, and the
  configuration stays.\<close>

theorem settled_reconcile_silent:
  assumes "libraries_ok out" and "ready out c ic" and "cl_Ingress (ap_view (rc_api out) c) req = Inr ic"
    and "healthy_disk w" and "templates_there w" and "in_sync (ap_view (rc_api out) c) ic w"
  shows "\<exists>w1. Reconcile out req c w = (Inr 0, c, w1) \<and> events w1 = events w \<and>
    files w1 (ing_conf ic @ ''.conf'') = files w (ing_conf ic @ ''.conf'')"
  using ready_update(2) [OF assms] by blast

theorem settled_reconcile_silent_witness:
  "\<exists>w1 w2. Reconcile live_outside (key_of (live_ingress ''web'')) () live_world = (Inr 0, (), w1) \<and>
     Reconcile live_outside (key_of (live_ingress ''web'')) () w1 = (Inr 0, (), w2) \<and> events w2 = events w1"
proof -
  obtain w1 where w1: "Reconcile live_outside (key_of (live_ingress ''web'')) () live_world = (Inr 0, (), w1)"
    "in_sync (ap_view (rc_api live_outside) ()) (live_ingress ''web'') w1" "healthy_disk w1" "templates_there w1"
    using live_first by auto
  have r: "cl_Ingress (ap_view (rc_api live_outside) ()) (key_of (live_ingress ''web'')) = Inr (live_ingress ''web'')"
    by (simp add: key_of_def)
  have "ready live_outside () (live_ingress ''web'')" by (rule live_ready) simp_all
  from settled_reconcile_silent [OF live_libraries this r w1(3,4,2)] w1(1) show ?thesis by blast
qed

text \<open>C5. When nginx rejects the configuration a settled cluster asks for, a reconciliation runs one test, on
  that configuration, signals nothing, puts the configuration that was installed back byte for byte,
  leaves no temporary file and asks to be called again after 15 seconds.\<close>

theorem rejected_reconcile_keeps:
  assumes "libraries_ok out" and "ready out c ic" and "cl_Ingress (ap_view (rc_api out) c) req = Inr ic"
    and "healthy_disk w" and "templates_there w"
    and "files w (ing_conf ic @ ''.conf'') = Some old" and "old \<noteq> []"
    and "desired_conf (ap_view (rc_api out) c) ic = Inr t" and "sha1_hex old \<noteq> sha1_hex t"
    and "rejects (rc_env out) (ing_conf ic) t"
  shows "\<exists>w1 f. Reconcile out req c w = (Inr 15, c, w1) \<and> events w1 = events w @ [Tested f] \<and>
    f (ing_conf ic @ ''.conf'') = Some t \<and> touches_only (ssl_files \<union> own_files ic) w w1 \<and>
    files w1 (ing_conf ic @ ''.conf'') = Some old \<and> files w1 (ing_conf ic @ ''-test.conf'') = None \<and>
    files w1 (ing_conf ic @ ''.tmp'') = None"
proof -
  let ?cl = "ap_view (rc_api out) c" and ?name = "ing_conf ic"
  from Reconcile_ready [OF assms(1-3)] assms(8) obtain ann where
    t: "plain_text t" "desired_text (controller_of ?cl ic) ann = Inr t"
    and R: "\<And>w e w1. generateBackendTemplate (rc_tr out) (rc_env out) (controller_of ?cl ic) ann w = (Inl (Err e), w1) \<Longrightarrow>
       Reconcile out req c w = (Inr 15, c, w1)" by auto
  have plain: "plain_certs (controller_of ?cl ic)" "plain_ingress (nc_ingress (controller_of ?cl ic))"
    using assms(2) by (auto simp: ready_def)
  from update_writes_desired [OF assms(4,5) plain t(2,1), of "rc_tr out" "rc_env out"] obtain w0 where
    g: "generateBackendTemplate (rc_tr out) (rc_env out) (controller_of ?cl ic) ann w = reload (rc_env out) ?name w0"
    and w0: "healthy_disk w0" "files w0 (?name @ ''-test.conf'') = Some t" "events w0 = events w"
      "files w0 (?name @ ''.conf'') = Some old" "touches_only (ssl_files \<union> own_files ic) w w0"
    using assms(6) by auto
  let ?f = "under_test ?name old t (files w0)"
  have "t \<noteq> []" using t(2) by (auto simp: desired_text_def ebind_eq_Inr)
  moreover have f: "?f (?name @ ''.conf'') = Some t" by (simp add: under_test_def)
  then obtain m where "ne_test (rc_env out) ?f = RunExit m" using assms(10) unfolding rejects_def by blast
  ultimately have r: "fst (reload (rc_env out) ?name w0) = Inl (Err (ExitError m))"
      "files (snd (reload (rc_env out) ?name w0)) = settled ?name (Some old) (files w0)"
      "events (snd (reload (rc_env out) ?name w0)) = events w0 @ [Tested ?f]"
    using reload_rejected [OF healthy_disk_conf [OF w0(1)] w0(4) assms(7) w0(2) _ assms(9)] by auto
  obtain w1 where w1: "reload (rc_env out) ?name w0 = (Inl (Err (ExitError m)), w1)"
    using r(1) by (cases "reload (rc_env out) ?name w0") auto
  have "touches_only (own_files ic) w0 w1"
    by (rule touches_only_mono [OF Reload_conf_frame [of ?name w0 "rc_env out", unfolded Reload_def w1 snd_conv]])
       (use plain(2) in \<open>auto simp: conf_files_def own_files_def ing_conf_def copy_path plain_ingress_def\<close>)
  with w0(5) have "touches_only (ssl_files \<union> own_files ic) w w1" by (auto simp: touches_only_def)
  moreover have "Reconcile out req c w = (Inr 15, c, w1)" using R g w1 by simp
  moreover have "files w1 = settled ?name (Some old) (files w0)" "events w1 = events w @ [Tested ?f]"
    using r(2,3) w1 w0(3) by simp_all
  ultimately show ?thesis using f by (intro exI [of _ w1] exI [of _ ?f]) (simp add: settled_def)
qed

definition refusing_outside :: "unit outside" where
  "refusing_outside = live_outside\<lparr>rc_env := sample_env (RunExit ''unknown directive'')\<rparr>"

lemma refusing_simps [simp]: "rc_api refusing_outside = rc_api live_outside"
  "rc_env refusing_outside = sample_env (RunExit ''unknown directive'')"
  "rc_mergo refusing_outside = rc_mergo live_outside" "rc_order refusing_outside = rc_order live_outside"
  by (simp_all add: refusing_outside_def)

theorem rejected_reconcile_keeps_witness:
  "\<exists>old w w1. files w (ing_conf (live_ingress ''web'') @ ''.conf'') = Some old \<and>
     Reconcile refusing_outside (key_of (live_ingress ''web'')) () w = (Inr 15, (), w1) \<and>
     files w1 (ing_conf (live_ingress ''web'') @ ''.conf'') = Some old"
proof -
  let ?conf = "ing_conf (live_ingress ''web'') @ ''.conf''"
  have "sha1_hex ''a'' \<noteq> sha1_hex ''b''" by code_simp
  then obtain old where old: "old \<noteq> []" "sha1_hex old \<noteq> sha1_hex (live_text ''web'')" by (metis list.distinct(1))
  define w where "w = set_file ?conf (Some old) live_world"
  have w: "healthy_disk w" "templates_there w" "files w ?conf = Some old"
    using live_world_ok(1,2) paths_apart(4,5) [of "live_ingress ''web''" "''.conf''"]
    by (auto simp: w_def healthy_disk_def healthy_def templates_there_def)
  have r: "cl_Ingress (ap_view (rc_api refusing_outside) ()) (key_of (live_ingress ''web'')) = Inr (live_ingress ''web'')"
    by (simp add: key_of_def)
  have "libraries_ok refusing_outside" using live_libraries by (simp add: libraries_ok_def)
  moreover have "ready refusing_outside () (live_ingress ''web'')"
    using live_ready [of "''web''"] by (simp add: ready_def)
  moreover have "rejects (rc_env refusing_outside) (ing_conf (live_ingress ''web'')) (live_text ''web'')"
    by (simp add: rejects_def sample_env_def)
  moreover have "desired_conf (ap_view (rc_api refusing_outside) ()) (live_ingress ''web'') = Inr (live_text ''web'')"
    by (simp add: live_desired)
  ultimately show ?thesis
    using rejected_reconcile_keeps [OF _ _ r w(1,2,3) old(1) _ old(2)] w(3) by blast
qed

text \<open>C2. A queue of ingresses that are ready: each is of this controller's class, has rules and no default
  back end, its services exist, its issuer and certificate are already what they should be, so that the
  cluster needs no write, its annotations and certificates yield a configuration without a template
  delimiter, and its name is a file name; no two make one file of theirs. While nginx accepts what it is
  given and restarts, on a healthy disk with the templates of the repository, a pass over the queue
  completes every request and brings every ingress of it to its desired configuration, whatever was
  installed before, empty files apart; later requests do not undo earlier ones.\<close>

theorem queue_brings_in_sync:
  assumes "fleet out c (set queue)" and "healthy_disk w" and "templates_there w"
    and "list_all (\<lambda>i. files w (ing_conf i @ ''.conf'') \<noteq> Some []) queue"
  shows "\<exists>w1. run_queue out (map key_of queue) c w = (map (\<lambda>_. Inr 0) queue, c, w1) \<and>
    list_all (\<lambda>i. in_sync (ap_view (rc_api out) c) i w1) queue"
  using fleet_queue [OF assms(1) subset_refl assms(2,3)] assms(4) by (auto simp: list_all_iff)

theorem queue_brings_in_sync_witness:
  "\<exists>w1. run_queue live_outside [key_of (live_ingress ''web''), key_of (live_ingress ''api'')] () live_world =
      ([Inr 0, Inr 0], (), w1) \<and>
    in_sync live_client (live_ingress ''web'') w1 \<and> in_sync live_client (live_ingress ''api'') w1"
proof -
  have "fleet live_outside () (set [live_ingress ''web'', live_ingress ''api''])" using live_fleet by simp
  from queue_brings_in_sync [OF this live_world_ok(1,2)] live_world_ok(3) show ?thesis by simp
qed

text \<open>C15. Whatever the disk, the commands and the templates do, a reconciliation writes and removes only
  the files of the name of its ingress, the files of the main configuration, and files joined to the
  certificate directory.\<close>

theorem reconcile_own_files:
  assumes "\<And>ic. cl_Ingress (ap_view (rc_api out) c) req = Inr ic \<Longrightarrow> ing_Name ic = ok_Name req \<and> ing_Namespace ic = ok_Namespace req"
  shows "touches_only (reconcile_files req) w (snd (snd (Reconcile out req c w)))"
proof (cases "cl_Ingress (ap_view (rc_api out) c) req")
  case (Inl e)
  have "touches_only (reconcile_files req) w (snd (clearConf (rc_tr out) (rc_env out) req w))"
    by (rule touches_only_mono [OF clearConf_frame]) (auto simp: reconcile_files_def)
  with Inl show ?thesis by (cases "clearConf (rc_tr out) (rc_env out) req w") (simp add: Reconcile_def)
next
  case (Inr ic)
  have "snd (snd (Reconcile out req c w)) \<in> {w, snd (snd (resources_then_generate out ic c w))}"
    using Inr by (simp add: Reconcile_def Let_def split: sum.splits list.splits option.splits)
  then show ?thesis using resources_frame [of ic req w out c] assms [OF Inr] by auto
qed

theorem reconcile_own_files_witness:
  "touches_only (reconcile_files \<lparr>ok_Name = ''web'', ok_Namespace = ''shop''\<rparr>) live_world
     (snd (snd (Reconcile live_outside \<lparr>ok_Name = ''web'', ok_Namespace = ''shop''\<rparr> () live_world)))"
  by (rule reconcile_own_files) auto

end
