(* ===== verification/ControllerRuns.thy ===== *)
theory ControllerRuns
  imports Convergence
begin

text \<open>
  Runs of the controller: reconciliations of any requests, in any order and with any outcome. Between two
  of them the cluster changes as it likes, and every one has libraries, templates and an nginx of its
  own. On a disk without faults the installed configurations follow an abstract machine that only keeps,
  removes, or replaces a configuration by one that nginx was asked about and did not reject. As in the
  code, a test that could not be run does not reject anything.
\<close>

section \<open>What a reload installs\<close>

text \<open>The tests in a log that did not fail, and the contents they had under a name.\<close>

definition passed_test :: "nginx_env \<Rightarrow> string \<Rightarrow> string \<Rightarrow> event list \<Rightarrow> bool" where
  "passed_test env name x es \<longleftrightarrow>
     (\<exists>f. Tested f \<in> set es \<and> \<not> failed_run (ne_test env f) \<and>
        (f (name @ ''.conf'') = Some x \<or> f (name @ ''-test.conf'') = Some x))"

lemma not_failed_iff: "\<not> failed_run r \<longleftrightarrow> r = RunOk \<or> (\<exists>m. r = RunFail m)"
  by (cases r) auto

lemma passed_test_append: "passed_test env name x es \<Longrightarrow> passed_test env name x (es @ es')"
  by (auto simp: passed_test_def)

text \<open>The same for the part of the log that was added on the way from one world to another.\<close>

definition tested_between :: "nginx_env \<Rightarrow> string \<Rightarrow> string \<Rightarrow> world \<Rightarrow> world \<Rightarrow> bool" where
  "tested_between env name x w w' \<longleftrightarrow> (\<exists>es. events w' = events w @ es \<and> passed_test env name x es)"

lemma tested_betweenI:
  "events w' = events w @ Tested f # es \<Longrightarrow> \<not> failed_run (ne_test env f) \<Longrightarrow>
   f (name @ ''.conf'') = Some x \<or> f (name @ ''-test.conf'') = Some x \<Longrightarrow> tested_between env name x w w'"
  unfolding tested_between_def passed_test_def by (intro exI [of _ "Tested f # es"]) auto

lemma tested_between_later:
  "tested_between env name x w w1 \<Longrightarrow> events w' = events w1 @ es \<Longrightarrow> tested_between env name x w w'"
  unfolding tested_between_def using passed_test_append by fastforce

lemma tested_between_earlier:
  "tested_between env name x w1 w' \<Longrightarrow> events w1 = events w \<Longrightarrow> tested_between env name x w w'"
  by (simp add: tested_between_def)

lemma tested_between_log: "tested_between env name x w w' \<Longrightarrow> passed_test env name x (events w')"
  by (auto simp: tested_between_def passed_test_def)

lemma test_and_restart_log:
  assumes "test_and_restart env b pc tst bak w = (r, w')"
  shows "\<exists>es. events w' = events w @ Tested (files w) # es"
proof -
  obtain es where es: "events w' = events w @ es" "tested_then_hup env es"
    using test_and_restart_frame [OF assms] by blast
  let ?w1 = "log_event (Tested (files w)) w"
  have "\<exists>es'. events w' = events ?w1 @ es'"
  proof (cases "ne_test env (files w)")
    case (RunExit m)
    obtain q w2 where 2: "rolloutConf bak pc ?w1 = (q, w2)" by (meson surj_pair)
    have "events w2 = events ?w1"
      using 2 generateConf_frame [of bak pc ?w1] unfolding rolloutConf_def by (auto elim: sbind_cases)
    with assms RunExit 2 show ?thesis
      by (cases q) (auto simp: test_and_restart_def nginx_t_def split: if_splits)
  qed (use assms in \<open>auto simp: test_and_restart_def nginx_t_def elim!: sbind_cases
      dest!: generateConf_frame gracefulRestart_frame\<close>)
  then show ?thesis by simp
qed

lemma reload_installs_tested:
  assumes h: "healthy_conf w name" and new: "files w (name @ ''-test.conf'') = Some new" "new \<noteq> []"
    and 1: "reload env name w = (r, w')"
  shows "files w' (name @ ''.conf'') = files w (name @ ''.conf'') \<or>
    files w' (name @ ''.conf'') = Some new \<and> tested_between env name new w w'"
proof (cases "files w (name @ ''.conf'')")
  case None
  obtain q w2 where 2: "test_and_restart env True (name @ ''.conf'') (name @ ''-test.conf'') (name @ ''.tmp'') w = (q, w2)"
    by (meson surj_pair)
  have "deferred [name @ ''.tmp'', name @ ''-test.conf''] (q, w2) = (r, w')"
    using 1 2 None by (simp add: reload_def Let_def os_stat_def)
  from deferred_frame [OF this] test_and_restart_log [OF 2] obtain es where
    "events w' = events w @ Tested (files w) # es" by auto
  with reload_first_load [OF h None new, of env] 1 new None show ?thesis
    by (auto intro: tested_betweenI split: if_splits)
next
  case (Some old)
  consider "sha1_hex old = sha1_hex new" | "old = []" "sha1_hex old \<noteq> sha1_hex new"
    | "old \<noteq> []" "sha1_hex old \<noteq> sha1_hex new" by blast
  then show ?thesis
  proof cases
    case 1
    from reload_unchanged [OF h Some new(1) this, of env] assms(4) Some show ?thesis by (simp add: settled_def)
  next
    case 2
    from reload_empty_fails_full [OF h _ new(1), of env] 2 assms(4) Some show ?thesis by (simp add: settled_def)
  next
    case 3
    let ?f = "under_test name old new (files w)"
    from reload_changed_installed [OF h Some 3(1) new 3(2), of env] assms(4)
    have i: "files w' (name @ ''.conf'') = (if failed_run (ne_test env ?f) then Some old else Some new)"
      by (simp add: installed_def)
    obtain q w2 where 2: "test_and_restart env False (name @ ''.conf'') (name @ ''-test.conf'') (name @ ''.tmp'')
        (w\<lparr>files := ?f\<rparr>) = (q, w2)" by (meson surj_pair)
    from reload_changed [OF h Some 3(1) new 3(2), of env] assms(4) 2
    have "deferred [name @ ''.tmp'', name @ ''-test.conf''] (q, w2) = (r, w')" by simp
    from deferred_frame [OF this] test_and_restart_log [OF 2] obtain es where
      es: "events w' = events w @ Tested ?f # es" by auto
    have "?f (name @ ''.conf'') = Some new" by (simp add: under_test_def)
    with es have "\<not> failed_run (ne_test env ?f) \<Longrightarrow> tested_between env name new w w'" by (blast intro: tested_betweenI)
    with i Some show ?thesis by auto
  qed
qed

text \<open>With the main template of the repository what is written to be tested ends with a line end.\<close>

lemma include_not_empty:
  assumes "include_servers tr (Nodes [NTemplate ''servers'', NText [CHR 0x0A]]) s = Inr b"
  shows "b \<noteq> []"
proof -
  from assms obtain servers where
    "exec_template tr [''main'' \<mapsto> Nodes [NTemplate ''servers'', NText [CHR 0x0A]], ''servers'' \<mapsto> servers]
      (Nodes [NTemplate ''servers'', NText [CHR 0x0A]]) NoValue = Inr b"
    by (auto simp: include_servers_def ebind_eq_Inr)
  then show ?thesis
    by (cases servers) (auto simp: exec_template_def maxExecDepth_Suc ebind_eq_Inr)
qed

lemma bytes_written:
  assumes "healthy_disk w" and "files w MainServerTmpl = Some main_server_tmpl"
    and "cf_MainTmpl cfg = MainServerTmpl" and "cf_ConfName cfg = name"
    and "\<And>x. path_join [''/etc/nginx'', path_base (name @ ''-test.conf'')] \<noteq> name @ x"
    and "generateConfigureBytes tr cfg w = (r, w1)"
  shows "(\<exists>f. r = Inl f) \<and> w1 = w \<or>
    r = Inr () \<and> events w1 = events w \<and> files w1 (name @ ''.conf'') = files w (name @ ''.conf'') \<and>
    (\<exists>b. b \<noteq> [] \<and> files w1 (name @ ''-test.conf'') = Some b)"
proof -
  have main: "os_read MainServerTmpl w = Inr main_server_tmpl"
    using assms(1,2) by (simp add: os_read_healthy healthy_disk_def)
  let ?tpl = "ebind (lift_err (os_read (cf_MainTmpl cfg) w)) (\<lambda>mainTmplStr.
            ebind (lift_err (parse_template tr mainTmplStr)) (\<lambda>mainTmpl.
            ebind (render_servers tr w (Servers (cf_Cfg cfg)) cfg) (\<lambda>cfg'.
              include_servers tr mainTmpl (cf_ServerTpl cfg'))))"
  show ?thesis
  proof (cases ?tpl)
    case (Inl f)
    with assms(6) show ?thesis by (auto simp: generateConfigureBytes_def)
  next
    case (Inr b)
    then have "b \<noteq> []"
      using main assms(3) by (auto simp: ebind_eq_Inr parse_main_server_tmpl dest: include_not_empty)
    moreover from assms(1) have "wfault w (name @ ''-test.conf'') = Writable"
      by (simp add: healthy_disk_def healthy_def)
    from write_test_conf_ok [OF this assms(5) [of "''-test.conf''"], of b] obtain w2 where
      "write_test_conf name b w = (Inr (), w2)" "files w2 (name @ ''-test.conf'') = Some b" "events w2 = events w"
      "touches_only {name @ ''-test.conf'', path_join [''/etc/nginx'', path_base (name @ ''-test.conf'')]} w w2" by blast
    ultimately show ?thesis
      using assms(4,6) Inr assms(5) [of "''.conf''"] by (auto simp: generateConfigureBytes_def touches_only_def)
  qed
qed

lemma update_installs_tested:
  assumes "healthy_disk w" and "templates_there w" and "plain_certs n" and "plain_ingress (nc_ingress n)"
    and "generateBackendTemplate tr env n ann w = (r, w')"
  shows "touches_only (ssl_files \<union> own_files (nc_ingress n)) w w' \<and>
    (files w' (ing_conf (nc_ingress n) @ ''.conf'') = files w (ing_conf (nc_ingress n) @ ''.conf'') \<or>
     (\<exists>x. files w' (ing_conf (nc_ingress n) @ ''.conf'') = Some x \<and> tested_between env (ing_conf (nc_ingress n)) x w w'))"
proof -
  let ?ing = "nc_ingress n" and ?name = "ing_conf (nc_ingress n)"
  let ?S = "ssl_files \<union> own_files ?ing"
  obtain q w0 where c: "getBackendConfigure n ann w = (q, w0)" by (meson surj_pair)
  from generateTlsFile_certs [OF healthy_disk_writable [OF assms(1)] assms(3)] c
  have w0: "certs_written w w0"
    by (cases "desired_certs n") (auto simp: getBackendConfigure_def split: prod.splits)
  then have ssl: "touches_only ?S w w0" by (auto simp: certs_written_def elim: touches_only_mono)
  then have h0: "healthy_disk w0" using assms(1) healthy_disk_touches by blast
  have keep0: "files w0 p = files w p" if "p \<notin> ssl_files" for p
    using w0 that by (simp add: certs_written_def touches_only_def)
  have name: "cf_ConfName (backend_configure n ann cfg) = ?name" for cfg
    using assms(4) backend_configure_name by (simp add: plain_ingress_def ing_conf_def)
  have copy: "path_join [''/etc/nginx'', path_base (?name @ ''-test.conf'')] =
      ''/etc/nginx/'' @ ing_Name ?ing @ ''-'' @ ing_Namespace ?ing @ ''-test.conf''"
    using assms(4) by (simp add: ing_conf_def copy_path plain_ingress_def)
  have apart: "path_join [''/etc/nginx'', path_base (?name @ ''-test.conf'')] \<noteq> ?name @ x" for x
    unfolding copy unfolding ing_conf_def using assms(4) by (intro copy_path_differs) (simp add: plain_ingress_def)
  have own: "touches_only ?S v v'" if "touches_only (conf_files ?name) v v'" for v v'
    using that by (rule touches_only_mono) (auto simp: conf_files_def own_files_def copy)
  show ?thesis
  proof (cases q)
    case (Inl f)
    with assms(5) c have "w' = w0" by (simp add: generateBackendTemplate_def)
    with ssl keep0 paths_apart(1) show ?thesis by blast
  next
    case (Inr cfg)
    let ?cfg = "backend_configure n ann cfg"
    obtain q1 w1 where b: "generateConfigureBytes tr ?cfg w0 = (q1, w1)" by (meson surj_pair)
    have t1: "touches_only ?S w w1"
      using touches_only_trans [OF ssl own] bytes_frame [of ?cfg w0 tr] b by (simp add: name)
    have "files w0 MainServerTmpl = Some main_server_tmpl"
      using keep0 paths_apart(2) assms(2) by (simp add: templates_there_def)
    from bytes_written [OF h0 this _ name apart b] consider
        "\<exists>f. q1 = Inl f" "w1 = w0"
      | x where "q1 = Inr ()" "files w1 (?name @ ''.conf'') = files w0 (?name @ ''.conf'')"
          "x \<noteq> []" "files w1 (?name @ ''-test.conf'') = Some x"
      by (auto simp: backend_configure_def)
    then show ?thesis
    proof cases
      case 1
      with assms(5) c Inr b have "w' = w0" by (auto simp: generateBackendTemplate_def)
      with ssl keep0 paths_apart(1) show ?thesis by blast
    next
      case 2
      have r: "reload env ?name w1 = (r, w')"
        using assms(5) c Inr b 2(1) by (simp add: generateBackendTemplate_def name Reload_def)
      have "touches_only ?S w1 w'"
        using own Reload_conf_frame [of ?name w1 env] r by (simp add: Reload_def)
      moreover have "healthy_conf w1 ?name" using t1 assms(1) healthy_disk_touches by fastforce
      from reload_installs_tested [OF this 2(4,3) r] 2(2) keep0 [OF paths_apart(1)]
      have "files w' (?name @ ''.conf'') = files w (?name @ ''.conf'') \<or>
          files w' (?name @ ''.conf'') = Some x \<and> tested_between env ?name x w1 w'" by simp
      moreover have "events w1 = events w"
        using w0 generateConfigureBytes_events [OF b] by (simp add: certs_written_def)
      ultimately show ?thesis using t1 touches_only_trans tested_between_earlier by blast
    qed
  qed
qed

section \<open>What a reconciliation installs\<close>

definition key_conf :: "object_key \<Rightarrow> string" where
  "key_conf k = conf_name (ok_Name k) (ok_Namespace k)"

definition key_files :: "object_key \<Rightarrow> string set" where
  "key_files k = {key_conf k @ ''.conf'', key_conf k @ ''-test.conf'', key_conf k @ ''.tmp'',
     ''/etc/nginx/'' @ ok_Name k @ ''-'' @ ok_Namespace k @ ''-test.conf''}"

definition plain_key :: "object_key \<Rightarrow> bool" where
  "plain_key k \<longleftrightarrow> CHR ''/'' \<notin> set (ok_Name k @ ok_Namespace k) \<and> ok_Name k \<noteq> [] \<and> ok_Namespace k \<noteq> []"

text \<open>What the API server is taken to do, for the keys of a set: it returns an object under its own
  name, and the names in it are file names. No two of the keys make one file of both.\<close>

definition names_ok :: "'c outside \<Rightarrow> object_key set \<Rightarrow> bool" where
  "names_ok out K \<longleftrightarrow>
     (\<forall>k\<in>K. plain_key k \<and>
        (\<forall>c ic. cl_Ingress (ap_view (rc_api out) c) k = Inr ic \<longrightarrow>
           ing_Name ic = ok_Name k \<and> ing_Namespace ic = ok_Namespace k \<and>
           (\<forall>c'. plain_certs (controller_of (ap_view (rc_api out) c') ic)))) \<and>
     (\<forall>k\<in>K. \<forall>l\<in>K. k = l \<or> key_conf k @ ''.conf'' \<noteq> key_conf l @ ''.conf'' \<and> key_conf k @ ''.conf'' \<noteq> key_conf l @ ''-test.conf'')"

definition installs_tested :: "nginx_env \<Rightarrow> object_key \<Rightarrow> world \<Rightarrow> world \<Rightarrow> bool" where
  "installs_tested env k w w' \<longleftrightarrow>
     touches_only (ssl_files \<union> key_files k \<union> main_conf_files) w w' \<and>
     (files w' (key_conf k @ ''.conf'') \<in> {files w (key_conf k @ ''.conf''), None} \<or>
      (\<exists>x. files w' (key_conf k @ ''.conf'') = Some x \<and> tested_between env (key_conf k) x w w'))"

lemma installs_tested_refl [simp]: "installs_tested env k w w"
  by (simp add: installs_tested_def)

lemma main_files_eq: "main_conf_files = {''/etc/nginx/nginx.conf'', ''/etc/nginx/nginx-test.conf'', ''/etc/nginx/nginx.tmp''}"
proof -
  have "path_join [''/etc/nginx'', path_base ''/etc/nginx/nginx-test.conf''] = ''/etc/nginx/nginx-test.conf''"
    by code_simp
  then show ?thesis by (auto simp: main_conf_files_def conf_files_def)
qed

lemma key_conf_apart: "key_conf k @ x \<notin> ssl_files" "key_conf k @ x \<notin> main_conf_files"
  by (auto simp: key_conf_def conf_name_def ConfDir_def ssl_files_def SslPath_def main_files_eq)

lemma generate_installs_tested:
  assumes "ing_Name ic = ok_Name k" and "ing_Namespace ic = ok_Namespace k" and "plain_key k"
    and "plain_certs (controller_of (ap_view (rc_api out) c) ic)"
    and "healthy_disk w" and "templates_there w"
  shows "installs_tested (rc_env out) k w (snd (generate out ic c w))"
proof -
  let ?rr = "info_resolver (info_at (rc_api out) ic c)" and ?n = "controller_of (ap_view (rc_api out) c) ic"
  have n: "\<lparr>nc_rr = ?rr, nc_ingress = ic\<rparr> = ?n" by (simp add: controller_of_def info_at_def)
  have name: "ing_conf ic = key_conf k" "own_files ic = key_files k" "plain_ingress ic"
    using assms(1-3) by (simp_all add: ing_conf_def key_conf_def own_files_def key_files_def plain_ingress_def plain_key_def)
  show ?thesis
  proof (cases "Extract (rc_mergo out) (rc_order out (NewAnnotationExtractor ?rr)) ic")
    case (Inl f)
    then show ?thesis by (cases f) (simp_all add: generate_def)
  next
    case (Inr parsed)
    have world: "snd (generate out ic c w) = snd (GenerateConfigure (rc_tr out) (rc_env out) ?n parsed w)"
      using Inr by (auto simp: generate_def n split: sum.split fault.split prod.split)
    let ?upd = "if length (Rules (ing_Spec ic)) > 0
            then generateBackendTemplate (rc_tr out) (rc_env out) ?n parsed w else (Inr (), w)"
    obtain r w1 where upd: "?upd = (r, w1)" by (meson surj_pair)
    have 1: "touches_only (ssl_files \<union> key_files k) w w1"
      and 2: "files w1 (key_conf k @ ''.conf'') = files w (key_conf k @ ''.conf'') \<or>
        (\<exists>x. files w1 (key_conf k @ ''.conf'') = Some x \<and> tested_between (rc_env out) (key_conf k) x w w1)"
      using upd update_installs_tested [OF assms(5,6,4), of "rc_tr out" "rc_env out" parsed r w1] name
      by (auto split: if_splits)
    let ?w2 = "snd (GenerateConfigure (rc_tr out) (rc_env out) ?n parsed w)"
    have w2: "?w2 = w1 \<or> ?w2 = snd (generateDefaultBackendTemplate (rc_tr out) (rc_env out) ?n parsed w1)"
      using upd by (cases r) (auto simp: GenerateConfigure_def)
    have "touches_only main_conf_files w1 ?w2" using w2 default_frame by (auto simp del: touches_only_refl intro: touches_only_refl)
    moreover have "\<exists>es. events ?w2 = events w1 @ es"
      using w2 default_update.update_log [of "rc_tr out" "rc_env out" ?n parsed w1] by auto
    ultimately show ?thesis
      unfolding world installs_tested_def using 1 2 key_conf_apart(2) tested_between_later
      by (fastforce simp: touches_only_def)
  qed
qed

lemma Reconcile_installs_tested:
  assumes "names_ok out K" and "k \<in> K" and "healthy_disk w" and "templates_there w"
  shows "installs_tested (rc_env out) k w (snd (snd (Reconcile out k c w)))"
proof (cases "cl_Ingress (ap_view (rc_api out) c) k")
  case (Inl e)
  have k: "plain_key k" using assms(1,2) by (simp add: names_ok_def)
  let ?p = "path_join [ConfDir, ok_Name k @ ''-'' @ ok_Namespace k @ ''.conf'']"
  have "plain_name (ok_Name k @ ''-'' @ ok_Namespace k @ ''.conf'')"
    using k by (intro plain_nameI) (auto simp: plain_key_def)
  then have p: "?p = key_conf k @ ''.conf''" by (simp add: conf_dir_join key_conf_def conf_name_def)
  let ?w1 = "snd (clearConf (rc_tr out) (rc_env out) k w)"
  have "touches_only (ssl_files \<union> key_files k \<union> main_conf_files) w ?w1"
    by (rule touches_only_mono [OF clearConf_frame]) (auto simp: p key_files_def simp del: append_Cons)
  moreover have "files ?w1 (key_conf k @ ''.conf'') \<in> {files w (key_conf k @ ''.conf''), None}"
  proof (cases "os_stat ?p w")
    case (Inl e)
    then have "?w1 = snd (UpdateDefaultConf (rc_tr out) (rc_env out) default_renderer w)"
      by (simp add: clearConf_def drop_error_world)
    then show ?thesis
      using static_frame [of w "rc_tr out" "rc_env out"] key_conf_apart(2) by (simp add: touches_only_def)
  next
    case (Inr n)
    then have "?w1 = CleanConf [key_conf k @ ''.conf''] w" using p by (simp add: clearConf_def)
    then show ?thesis using assms(3) by (simp add: CleanConf_simps CleanConf1_healthy healthy_disk_def)
  qed
  moreover have "snd (snd (Reconcile out k c w)) = ?w1"
    using Inl by (cases "clearConf (rc_tr out) (rc_env out) k w") (simp add: Reconcile_def)
  ultimately show ?thesis by (simp add: installs_tested_def)
next
  case (Inr ic)
  with assms(1,2) have ic: "ing_Name ic = ok_Name k" "ing_Namespace ic = ok_Namespace k" "plain_key k"
      "plain_certs (controller_of (ap_view (rc_api out) c') ic)" for c'
    by (auto simp: names_ok_def)
  obtain r c1 where r: "ReconcileResource (rc_api out) ic c = (r, c1)" by (meson surj_pair)
  have "snd (snd (resources_then_generate out ic c w)) \<in> {w, snd (generate out ic c1 w)}"
    using r by (auto simp: resources_then_generate_def split: sum.split fault.split prod.split)
  moreover have "snd (snd (Reconcile out k c w)) \<in> {w, snd (snd (resources_then_generate out ic c w))}"
    using Inr by (simp add: Reconcile_def Let_def split: sum.splits list.splits option.splits)
  ultimately show ?thesis
    using generate_installs_tested [OF ic assms(3,4), of c1] by auto
qed

section \<open>The two machines\<close>

text \<open>A step of the controller: a reconciliation of one of the keys, or a change of the cluster.\<close>

inductive controller_step :: "'c outside \<Rightarrow> object_key set \<Rightarrow> 'c \<times> world \<Rightarrow> 'c \<times> world \<Rightarrow> bool"
  for out :: "'c outside" and K :: "object_key set" where
  reconciled: "k \<in> K \<Longrightarrow> Reconcile out k c w = (r, c', w') \<Longrightarrow> controller_step out K (c, w) (c', w')"
| cluster_changed: "controller_step out K (c, w) (c', w)"

inductive_cases controller_stepE: "controller_step out K (c, w) (c', w')"

text \<open>A run: every step has an outside of a set, and the list holds what each asked nginx, and which nginx.\<close>

inductive controller_run ::
    "'c outside set \<Rightarrow> object_key set \<Rightarrow> 'c \<times> world \<Rightarrow> (nginx_env \<times> event list) list \<Rightarrow> 'c \<times> world \<Rightarrow> bool"
  for Outs :: "'c outside set" and K :: "object_key set" and s0 :: "'c \<times> world" where
  run_start: "controller_run Outs K s0 [] s0"
| run_step: "controller_run Outs K s0 tr (c, w) \<Longrightarrow> out \<in> Outs \<Longrightarrow> controller_step out K (c, w) (c', w') \<Longrightarrow>
    events w' = events w @ es \<Longrightarrow> controller_run Outs K s0 (tr @ [(rc_env out, es)]) (c', w')"

text \<open>A step of the abstract machine, whose state is the configuration installed for every key:
  \<open>ok k x\<close> says that nginx did not reject the content \<open>x\<close> for the key \<open>k\<close>.\<close>

inductive conf_step ::
    "(object_key \<Rightarrow> string \<Rightarrow> bool) \<Rightarrow> object_key set \<Rightarrow> (object_key \<Rightarrow> string option) \<Rightarrow> (object_key \<Rightarrow> string option) \<Rightarrow> bool"
  for ok :: "object_key \<Rightarrow> string \<Rightarrow> bool" and K :: "object_key set" where
  kept: "conf_step ok K s s"
| removed: "k \<in> K \<Longrightarrow> conf_step ok K s (s(k := None))"
| replaced: "k \<in> K \<Longrightarrow> ok k x \<Longrightarrow> conf_step ok K s (s(k := Some x))"

inductive_cases conf_stepE: "conf_step ok K s s'"

definition installed_confs :: "object_key set \<Rightarrow> world \<Rightarrow> object_key \<Rightarrow> string option" where
  "installed_confs K w = (\<lambda>k. if k \<in> K then files w (key_conf k @ ''.conf'') else None)"

definition asked_between :: "nginx_env \<Rightarrow> world \<Rightarrow> world \<Rightarrow> object_key \<Rightarrow> string \<Rightarrow> bool" where
  "asked_between env w w' k x \<longleftrightarrow> tested_between env (key_conf k) x w w'"

lemma conf_step_mono: "conf_step ok K s s' \<Longrightarrow> (\<And>k x. ok k x \<Longrightarrow> ok' k x) \<Longrightarrow> conf_step ok' K s s'"
  by (erule conf_stepE) (auto intro: conf_step.intros)

definition asked :: "nginx_env \<Rightarrow> event list \<Rightarrow> object_key \<Rightarrow> string \<Rightarrow> bool" where
  "asked env es k x \<longleftrightarrow> passed_test env (key_conf k) x es"

lemma key_files_apart:
  assumes "names_ok out K" and "k \<in> K" and "l \<in> K" and "k \<noteq> l"
  shows "key_conf k @ ''.conf'' \<notin> ssl_files \<union> key_files l \<union> main_conf_files"
proof -
  have "key_conf k @ ''.conf'' \<noteq> key_conf l @ ''.tmp''" by (rule notI, drule arg_cong [where f = last]) simp
  moreover have "''/etc/nginx/'' @ ok_Name l @ ''-'' @ ok_Namespace l @ ''-test.conf'' \<noteq> key_conf k @ ''.conf''"
    using assms(1,3) unfolding key_conf_def by (intro copy_path_differs) (simp add: names_ok_def plain_key_def)
  moreover have "key_conf k @ ''.conf'' \<noteq> key_conf l @ ''.conf''" "key_conf k @ ''.conf'' \<noteq> key_conf l @ ''-test.conf''"
    using assms unfolding names_ok_def by blast+
  ultimately show ?thesis using key_conf_apart by (auto simp: key_files_def)
qed

lemma installs_tested_step:
  assumes "names_ok out K" and "k \<in> K" and "installs_tested env k w w'"
  shows "conf_step (asked_between env w w') K (installed_confs K w) (installed_confs K w')"
proof -
  have other: "files w' (key_conf l @ ''.conf'') = files w (key_conf l @ ''.conf'')" if "l \<in> K" "l \<noteq> k" for l
    using key_files_apart [OF assms(1) that(1) assms(2) that(2)] assms(3)
    unfolding installs_tested_def touches_only_def by blast
  then have upd: "installed_confs K w' = (installed_confs K w)(k := files w' (key_conf k @ ''.conf''))"
    using assms(2) by (auto simp: installed_confs_def fun_eq_iff)
  from assms(3) consider "files w' (key_conf k @ ''.conf'') = files w (key_conf k @ ''.conf'')"
    | "files w' (key_conf k @ ''.conf'') = None"
    | x where "files w' (key_conf k @ ''.conf'') = Some x" "tested_between env (key_conf k) x w w'"
    by (auto simp: installs_tested_def)
  then show ?thesis
  proof cases
    case 1
    then have "installed_confs K w' = installed_confs K w" using upd assms(2) by (auto simp: installed_confs_def)
    then show ?thesis by (simp add: kept)
  next
    case 2
    then show ?thesis using upd removed assms(2) by simp
  next
    case 3
    then show ?thesis using upd replaced [OF assms(2), of "asked_between env w w'"] by (simp add: asked_between_def)
  qed
qed

text \<open>What stays true between the steps.\<close>

lemma templates_kept_by:
  assumes "touches_only (ssl_files \<union> key_files k \<union> main_conf_files) w w'" and "templates_there w"
  shows "templates_there w'"
proof -
  have "MainServerTmpl \<notin> ssl_files \<union> key_files k \<union> main_conf_files"
    "ServerTmpl \<notin> ssl_files \<union> key_files k \<union> main_conf_files"
    by (auto simp: key_files_def key_conf_def conf_name_def ConfDir_def main_files_eq ssl_files_def SslPath_def
        MainServerTmpl_def ServerTmpl_def)
  with assms show ?thesis by (simp add: touches_only_def templates_there_def)
qed

lemma Reconcile_events: "\<exists>es. events (snd (snd (Reconcile out k c w))) = events w @ es"
proof (cases "cl_Ingress (ap_view (rc_api out) c) k")
  case (Inl e)
  obtain r w1 where k: "clearConf (rc_tr out) (rc_env out) k w = (r, w1)" by (meson surj_pair)
  with Inl clearConf_log [of "rc_tr out" "rc_env out" k w] show ?thesis by (auto simp: Reconcile_def)
next
  case (Inr ic)
  have "snd (snd (Reconcile out k c w)) \<in> {w, snd (snd (resources_then_generate out ic c w))}"
    using Inr by (simp add: Reconcile_def Let_def split: sum.splits list.splits option.splits)
  then show ?thesis using resources_log [of out ic c w] by auto
qed

lemma controller_step_facts:
  assumes "names_ok out K" and "controller_step out K (c, w) (c', w')" and "healthy_disk w" and "templates_there w"
  shows "healthy_disk w' \<and> templates_there w' \<and> (\<exists>es. events w' = events w @ es) \<and>
    conf_step (asked_between (rc_env out) w w') K (installed_confs K w) (installed_confs K w')"
proof -
  from assms(2) consider k r where "k \<in> K" "Reconcile out k c w = (r, c', w')" | "w' = w"
    by (auto elim: controller_stepE)
  then show ?thesis
  proof cases
    case 1
    from Reconcile_installs_tested [OF assms(1) 1(1) assms(3,4), of c] 1(2)
    have i: "installs_tested (rc_env out) k w w'" by simp
    then have t: "touches_only (ssl_files \<union> key_files k \<union> main_conf_files) w w'" by (simp add: installs_tested_def)
    moreover have "\<exists>es. events w' = events w @ es" using Reconcile_events [of out k c w] 1(2) by simp
    ultimately show ?thesis
      using installs_tested_step [OF assms(1) 1(1) i] healthy_disk_touches [OF t] assms(3) templates_kept_by [OF t assms(4)]
      by simp
  next
    case 2
    then show ?thesis using assms(3,4) by (simp add: kept)
  qed
qed

text \<open>The two ingresses of the cluster of theory \<open>Convergence\<close>.\<close>

definition live_keys :: "object_key set" where
  "live_keys = {\<lparr>ok_Name = ''web'', ok_Namespace = ''shop''\<rparr>, \<lparr>ok_Name = ''api'', ok_Namespace = ''shop''\<rparr>}"

lemma live_names: "names_ok live_outside live_keys"
  using live_certs by (auto simp: names_ok_def live_keys_def plain_key_def key_conf_def conf_name_def)

lemma live_step:
  "\<exists>w1. controller_step live_outside live_keys ((), live_world) ((), w1) \<and> in_sync live_client (live_ingress ''web'') w1"
proof -
  obtain w1 where "Reconcile live_outside (key_of (live_ingress ''web'')) () live_world = (Inr 0, (), w1)"
    "in_sync live_client (live_ingress ''web'') w1" using live_first by blast
  moreover have "key_of (live_ingress ''web'') \<in> live_keys" by (simp add: key_of_def live_keys_def)
  ultimately show ?thesis by (blast intro: reconciled)
qed

section \<open>Properties\<close>

text \<open>C3. On a disk without faults and with the templates of the repository every step of the controller is
  a step of the abstract machine: whatever the cluster holds, whatever nginx answers and however the
  reconciliation ends, the configuration of at most one key changes, and it is removed or replaced by a
  content that was in place of it, or in its test file, while a configuration test did not fail.\<close>

theorem controller_refines_conf_machine:
  assumes "names_ok out K" and "controller_step out K (c, w) (c', w')" and "healthy_disk w" and "templates_there w"
  shows "conf_step (asked (rc_env out) (events w')) K (installed_confs K w) (installed_confs K w')"
proof (rule conf_step_mono)
  show "conf_step (asked_between (rc_env out) w w') K (installed_confs K w) (installed_confs K w')"
    using controller_step_facts [OF assms] by (elim conjE)
qed (simp add: asked_def asked_between_def tested_between_log)

theorem controller_refines_conf_machine_witness:
  "\<exists>w1. controller_step live_outside live_keys ((), live_world) ((), w1) \<and>
     conf_step (asked (rc_env live_outside) (events w1)) live_keys (installed_confs live_keys live_world) (installed_confs live_keys w1)"
proof -
  obtain w1 where s: "controller_step live_outside live_keys ((), live_world) ((), w1)" using live_step by blast
  from controller_refines_conf_machine [OF live_names s live_world_ok(1,2)] s show ?thesis by blast
qed

lemma controller_run_facts:
  assumes "controller_run Outs K s0 tr s" and "\<forall>out\<in>Outs. names_ok out K"
    and "healthy_disk (snd s0)" and "templates_there (snd s0)"
  shows "healthy_disk (snd s) \<and> templates_there (snd s) \<and> events (snd s) = events (snd s0) @ concat (map snd tr) \<and>
    (\<forall>k x. installed_confs K (snd s) k = Some x \<longrightarrow>
       installed_confs K (snd s0) k = Some x \<or> (\<exists>(env, es)\<in>set tr. passed_test env (key_conf k) x es))"
  using assms(1)
proof (induction rule: controller_run.induct)
  case (run_step tr c w out c' w' es)
  have w: "healthy_disk w" "templates_there w" "events w = events (snd s0) @ concat (map snd tr)"
    "\<And>k x. installed_confs K w k = Some x \<Longrightarrow>
       installed_confs K (snd s0) k = Some x \<or> (\<exists>(env, es)\<in>set tr. passed_test env (key_conf k) x es)"
    using run_step.IH by auto
  have "names_ok out K" using assms(2) run_step.hyps(2) by blast
  from controller_step_facts [OF this run_step.hyps(3) w(1,2)]
  have w': "healthy_disk w'" "templates_there w'"
    "conf_step (asked_between (rc_env out) w w') K (installed_confs K w) (installed_confs K w')" by blast+
  have asked: "passed_test (rc_env out) (key_conf k) x es" if "asked_between (rc_env out) w w' k x" for k x
    using that run_step.hyps(4) by (auto simp: asked_between_def tested_between_def)
  have "installed_confs K (snd s0) k = Some x \<or>
      (\<exists>(env, es)\<in>set (tr @ [(rc_env out, es)]). passed_test env (key_conf k) x es)"
    if x: "installed_confs K w' k = Some x" for k x
  proof -
    from w'(3) x have "installed_confs K w k = Some x \<or> asked_between (rc_env out) w w' k x"
      by (elim conf_stepE) (auto split: if_splits)
    with w(4) [of k x] asked [of k x] show ?thesis by auto
  qed
  with w' w(3) run_step.hyps(4) show ?case by simp
qed (use assms(3,4) in simp)

text \<open>C4. After any run of the controller, in which nginx may judge differently from step to step, the
  configuration installed for a key is the one it started with, or was in place of it or in its test
  file during a configuration test of one of the steps that the nginx of that step did not reject: it
  accepted the files, or, as the code lets it pass, the test could not be run. The log is that of the
  steps.\<close>

theorem only_unrejected_configurations:
  assumes "controller_run Outs K (c0, w0) tr (c, w)" and "\<forall>out\<in>Outs. names_ok out K"
    and "healthy_disk w0" and "templates_there w0" and "installed_confs K w k = Some x"
  shows "events w = events w0 @ concat (map snd tr) \<and>
    (installed_confs K w0 k = Some x \<or>
     (\<exists>env es f. (env, es) \<in> set tr \<and> Tested f \<in> set es \<and>
        (f (key_conf k @ ''.conf'') = Some x \<or> f (key_conf k @ ''-test.conf'') = Some x) \<and>
        (ne_test env f = RunOk \<or> (\<exists>m. ne_test env f = RunFail m))))"
proof -
  have start: "healthy_disk (snd (c0, w0))" "templates_there (snd (c0, w0))" using assms(3,4) by simp_all
  note facts = controller_run_facts [OF assms(1) assms(2) start, unfolded snd_conv]
  have log: "events w = events w0 @ concat (map snd tr)" using facts by (elim conjE)
  have "installed_confs K w0 k = Some x \<or> (\<exists>(env, es)\<in>set tr. passed_test env (key_conf k) x es)"
    using facts assms(5) by (elim conjE) (erule allE, erule allE, erule (1) mp)
  then consider "installed_confs K w0 k = Some x"
    | env es where "(env, es) \<in> set tr" "passed_test env (key_conf k) x es" by blast
  then show ?thesis
  proof cases
    case 1
    with log show ?thesis by blast
  next
    case 2
    from 2(2) obtain f where "Tested f \<in> set es" "f (key_conf k @ ''.conf'') = Some x \<or> f (key_conf k @ ''-test.conf'') = Some x"
      "ne_test env f = RunOk \<or> (\<exists>m. ne_test env f = RunFail m)"
      unfolding passed_test_def not_failed_iff by blast
    with 2(1) log show ?thesis by blast
  qed
qed

theorem only_unrejected_configurations_witness:
  "\<exists>tr w1 x. controller_run {live_outside, refusing_outside} live_keys ((), live_world) tr ((), w1) \<and>
     installed_confs live_keys w1 \<lparr>ok_Name = ''web'', ok_Namespace = ''shop''\<rparr> = Some x \<and>
     (\<exists>env es f. (env, es) \<in> set tr \<and> Tested f \<in> set es \<and> (ne_test env f = RunOk \<or> (\<exists>m. ne_test env f = RunFail m)))"
proof -
  let ?k = "\<lparr>ok_Name = ''web'', ok_Namespace = ''shop''\<rparr>"
  obtain w1 where s: "controller_step live_outside live_keys ((), live_world) ((), w1)"
    and "in_sync live_client (live_ingress ''web'') w1" using live_step by blast
  then obtain x where x: "installed_confs live_keys w1 ?k = Some x"
    by (auto simp: in_sync_def installed_confs_def live_keys_def key_conf_def ing_conf_def)
  have none: "installed_confs live_keys live_world ?k = None"
    using live_world_ok(3) [of "live_ingress ''web''" "''.conf''"]
    by (simp add: installed_confs_def live_keys_def key_conf_def ing_conf_def)
  from controller_step_facts [OF live_names s live_world_ok(1,2)] obtain es where
    "events w1 = events live_world @ es" by blast
  then have run: "controller_run {live_outside, refusing_outside} live_keys ((), live_world) ([] @ [(rc_env live_outside, es)]) ((), w1)"
    by (intro run_step [OF run_start _ s]) simp_all
  have "names_ok refusing_outside live_keys" using live_names by (simp add: names_ok_def)
  then have "\<forall>out\<in>{live_outside, refusing_outside}. names_ok out live_keys" using live_names by simp
  from only_unrejected_configurations [OF run this live_world_ok(1,2) x] none obtain env es' f where
    "(env, es') \<in> set ([] @ [(rc_env live_outside, es)])" "Tested f \<in> set es'"
    "ne_test env f = RunOk \<or> (\<exists>m. ne_test env f = RunFail m)" by (metis option.distinct(1))
  with run x show ?thesis by blast
qed

end
