(* ===== verification/DefaultRuns.thy ===== *)
theory DefaultRuns
  imports ControllerRuns
begin

text \<open>
  The default back end through a reconciliation. It is installed in the main configuration, which is one
  file for all ingresses: the theorems say what a reconciliation that is done leaves in it, that it then
  holds no other default back end, and what is left of it when its ingress is gone.
\<close>

section \<open>The main configuration an ingress asks for\<close>

definition default_text :: "service \<Rightarrow> int32 \<Rightarrow> string" where
  "default_text svc port =
     default_listen @ lines [[], ''    ''] @ default_headers @ sv_Name svc @ ''.'' @ sv_Namespace svc @ ''.svc:'' @
     show_int (sint port) @ lines ['';'', ''        proxy_redirect                         off;'', ''    }'', ''    ''] @
     lines [[], ''    ''] @ default_end"

text \<open>The server of the default back end: its service as the cluster has it, at a port of it that is not zero.\<close>

definition desired_default :: "client \<Rightarrow> ingress \<Rightarrow> string option" where
  "desired_default cl ic =
     (case DefaultBackend (ing_Spec ic) of
        None \<Rightarrow> None
      | Some d \<Rightarrow>
          (case ib_Service d of
             None \<Rightarrow> None
           | Some sb \<Rightarrow>
               (case (GetService (NewIngressInfo cl ic) (sb_Name sb), GetSvcPort (NewIngressInfo cl ic) (QBackend d)) of
                  (Inr svc, Inr port) \<Rightarrow> if port = 0 then None else Some (default_text svc port)
                | _ \<Rightarrow> None)))"

definition main_in_sync :: "client \<Rightarrow> ingress \<Rightarrow> world \<Rightarrow> bool" where
  "main_in_sync cl ic w \<longleftrightarrow>
     (\<exists>t cur. desired_default cl ic = Some t \<and> files w MainConf = Some cur \<and> sha1_hex cur = sha1_hex (main_page t))"

definition main_templates_there :: "world \<Rightarrow> bool" where
  "main_templates_there w \<longleftrightarrow> files w NginxTmpl = Some nginx_tmpl \<and> files w DefaultTmpl = Some default_tmpl"

lemma default_text_page:
  "be_Name b = sv_Name svc \<Longrightarrow> be_NameSpace b = sv_Namespace svc \<Longrightarrow> be_Port b = port \<Longrightarrow>
   default_page [b] = default_text svc port"
  by (simp add: default_page_def default_location_def default_text_def)

lemma main_names: "MainConf = ''/etc/nginx/nginx'' @ ''.conf''"
  "path_join [''/etc/nginx'', path_base (''/etc/nginx/nginx'' @ ''-test.conf'')] = ''/etc/nginx/nginx-test.conf''"
  by code_simp+

lemma main_page_not_Nil: "main_page t \<noteq> []"
  by (simp add: main_page_def default_texts_not_Nil)

text \<open>The main configuration is its own copy: both writes go to one file.\<close>

lemma write_main_test:
  assumes "wfault w ''/etc/nginx/nginx-test.conf'' = Writable"
  shows "write_test_conf ''/etc/nginx/nginx'' b w = (Inr (), set_file ''/etc/nginx/nginx-test.conf'' (Some b) w)"
  using assms main_names(2) by (simp add: write_test_conf_def os_write_def os_stat_def Let_def)

lemma default_wanted:
  assumes "desired_default cl ic = Some t"
  obtains d sb svc port where "DefaultBackend (ing_Spec ic) = Some d" and "ib_Service d = Some sb"
    and "GetService (NewIngressInfo cl ic) (sb_Name sb) = Inr svc" and "GetSvcPort (NewIngressInfo cl ic) (QBackend d) = Inr port"
    and "port \<noteq> 0" and "t = default_text svc port"
  using assms by (auto simp: desired_default_def split: option.splits sum.splits if_splits)

lemma default_written:
  assumes "healthy_disk w" and "main_templates_there w" and "desired_default cl ic = Some t" and "plain_text t"
  shows "generateDefaultBackendTemplate tr env (controller_of cl ic) ann w =
    reload env ''/etc/nginx/nginx'' (set_file ''/etc/nginx/nginx-test.conf'' (Some (main_page t)) w)"
proof -
  let ?n = "controller_of cl ic"
  from assms(3) obtain d sb svc port where d: "DefaultBackend (ing_Spec ic) = Some d" "ib_Service d = Some sb"
      "GetService (NewIngressInfo cl ic) (sb_Name sb) = Inr svc" "GetSvcPort (NewIngressInfo cl ic) (QBackend d) = Inr port"
      "port \<noteq> 0" "t = default_text svc port"
    by (rule default_wanted)
  then obtain cfg where cfg: "getDefaultBackendConfigure ?n ann = Inr cfg"
    by (simp add: getDefaultBackendConfigure_def controller_of_def info_resolver_def Let_def)
  have reads: "os_read NginxTmpl w = Inr nginx_tmpl" "os_read DefaultTmpl w = Inr default_tmpl"
    using assms(1,2) by (simp_all add: os_read_ok healthy_disk_def healthy_def main_templates_there_def)
  from default_backend_text [OF cfg reads, of tr] d obtain b where
      b: "be_Name b = sv_Name svc" "be_NameSpace b = sv_Namespace svc" "be_Port b = port"
    and bytes: "plain_text (default_page [b]) \<Longrightarrow> generateConfigureBytes tr (default_configure ann cfg) w =
       write_test_conf ''/etc/nginx/nginx'' (main_page (default_page [b])) w"
    by (auto simp: controller_of_def info_resolver_def)
  have "wfault w ''/etc/nginx/nginx-test.conf'' = Writable" using assms(1) by (simp add: healthy_disk_def healthy_def)
  then have "generateConfigureBytes tr (default_configure ann cfg) w =
      (Inr (), set_file ''/etc/nginx/nginx-test.conf'' (Some (main_page t)) w)"
    using bytes default_text_page [OF b] d(6) assms(4) by (simp add: write_main_test)
  then show ?thesis
    using cfg main_name by (simp add: generateDefaultBackendTemplate_def default_configure_def Reload_def)
qed

lemma default_update_installs:
  assumes "healthy_disk w" and "main_templates_there w"
    and "generateDefaultBackendTemplate tr env (controller_of cl ic) ann w = (Inr (), w1)"
  shows "\<exists>t. desired_default cl ic = Some t \<and> (plain_text t \<longrightarrow> main_in_sync cl ic w1)"
proof -
  from assms(3) obtain cfg where "getDefaultBackendConfigure (controller_of cl ic) ann = Inr cfg"
    by (cases "getDefaultBackendConfigure (controller_of cl ic) ann") (auto simp: generateDefaultBackendTemplate_def)
  then obtain t where t: "desired_default cl ic = Some t"
    by (auto elim!: default_backends simp: desired_default_def controller_of_def info_resolver_def)
  moreover have "main_in_sync cl ic w1" if "plain_text t"
  proof -
    let ?w = "set_file ''/etc/nginx/nginx-test.conf'' (Some (main_page t)) w"
    have r: "reload env ''/etc/nginx/nginx'' ?w = (Inr (), w1)"
      using default_written [OF assms(1,2) t that] assms(3) by simp
    have "healthy_conf ?w ''/etc/nginx/nginx''" "files ?w (''/etc/nginx/nginx'' @ ''-test.conf'') = Some (main_page t)"
      using assms(1) by simp_all
    from reload_success [OF this main_page_not_Nil, of env] r obtain c where
      "files w1 (''/etc/nginx/nginx'' @ ''.conf'') = Some c" "sha1_hex c = sha1_hex (main_page t)" by auto
    then show ?thesis using t unfolding main_in_sync_def main_names(1) by blast
  qed
  ultimately show ?thesis by blast
qed

lemma main_templates_kept:
  assumes "touches_only (ssl_files \<union> own_files ic) w w1" and "main_templates_there w"
  shows "main_templates_there w1"
proof -
  have "NginxTmpl \<notin> ssl_files \<union> own_files ic" "DefaultTmpl \<notin> ssl_files \<union> own_files ic"
    by (auto simp: own_files_def ing_conf_def conf_name_def ConfDir_def ssl_files_def SslPath_def NginxTmpl_def DefaultTmpl_def)
  with assms show ?thesis by (simp add: touches_only_def main_templates_there_def)
qed

text \<open>An ingress that has nothing but a default back end.\<close>

lemma default_only_done:
  assumes "libraries_ok out" and "cl_Ingress (ap_view (rc_api out) c) req = Inr ic"
    and "checkController (ap_view (rc_api out) c) ic = None" and "Rules (ing_Spec ic) = []"
    and "desired_annotations (NewIngressInfo (ap_view (rc_api out) c) ic) ic = Inr ann"
    and "desired_default (ap_view (rc_api out) c) ic = Some t" and "plain_text t"
    and "healthy_disk w" and "main_templates_there w" and "files w MainConf \<noteq> Some []"
    and "accepts_all (rc_env out)" and "nginx_up (rc_env out)"
  shows "\<exists>w1. Reconcile out req c w = (Inr 0, c, w1)"
proof -
  let ?cl = "ap_view (rc_api out) c" and ?m = "''/etc/nginx/nginx''"
  let ?w = "set_file ''/etc/nginx/nginx-test.conf'' (Some (main_page t)) w"
  from assms(6) obtain d sb svc port where d: "DefaultBackend (ing_Spec ic) = Some d" "ib_Service d = Some sb"
      "GetService (NewIngressInfo ?cl ic) (sb_Name sb) = Inr svc" by (rule default_wanted)
  have n: "\<lparr>nc_rr = info_resolver (info_at (rc_api out) ic c), nc_ingress = ic\<rparr> = controller_of ?cl ic"
    by (simp add: controller_of_def info_at_def)
  have "healthy_conf ?w ?m" "files ?w (?m @ ''-test.conf'') = Some (main_page t)" "files ?w (?m @ ''.conf'') \<noteq> Some []"
    using assms(8,10) by (simp_all add: main_names(1))
  from reload_accepted [OF this(1,2) main_page_not_Nil this(3) assms(11,12)] obtain w1 where
    "reload (rc_env out) ?m ?w = (Inr (), w1)" by (cases "reload (rc_env out) ?m ?w") auto
  then have "GenerateConfigure (rc_tr out) (rc_env out) (controller_of ?cl ic) ann w = (Inr (), w1)"
    using default_written [OF assms(8,9,6,7), of "rc_tr out" "rc_env out" ann] assms(4) d(1)
    by (simp add: GenerateConfigure_def)
  then have g: "generate out ic c w = (Inr 0, w1)"
    using Extract_ready [OF assms(1), of ic c ann] assms(5) by (simp add: generate_def Let_def n)
  have "\<not> service_missing ?cl ic d"
    using d(2,3) by (auto simp: service_missing_def GetService_def NewIngressInfo_def Let_def split: sum.splits if_splits)
  then have "check_backend ?cl ic d = Inr []" using d(2) by (simp add: check_backend_eq)
  moreover have "check_rules ?cl ic = Inr []" using assms(4) by (simp add: check_rules_def)
  ultimately show ?thesis
    using assms(2-4) d(1) g by (simp add: Reconcile_def resources_then_generate_def ReconcileResource_def)
qed

section \<open>Properties\<close>

text \<open>C28. With the templates of the repository and on a healthy disk, a reconciliation that reports it is
  done leaves the default back end of the ingress in the main configuration: the service exists, its port
  is not zero, and the main configuration is the page of \<^verbatim>\<open>nginx.tmpl\<close> around a server that
  passes everything to it (up to the digest, and unless the service carries an opening delimiter).\<close>

theorem reconcile_installs_default:
  assumes "cl_Ingress (ap_view (rc_api out) c) req = Inr ic" and "DefaultBackend (ing_Spec ic) \<noteq> None"
    and "plain_ingress ic" and "healthy_disk w" and "templates_there w" and "main_templates_there w"
    and "Reconcile out req c w = (Inr 0, c1, w1)" and "plain_certs (controller_of (ap_view (rc_api out) c1) ic)"
  shows "\<exists>t. desired_default (ap_view (rc_api out) c1) ic = Some t \<and>
    (plain_text t \<longrightarrow> main_in_sync (ap_view (rc_api out) c1) ic w1)"
proof -
  let ?n = "controller_of (ap_view (rc_api out) c1) ic"
  have n: "\<lparr>nc_rr = info_resolver (info_at (rc_api out) ic c1), nc_ingress = ic\<rparr> = ?n"
    by (simp add: controller_of_def info_at_def)
  from reconcile_done_steps [OF assms(1,7)] obtain ann where
    g: "GenerateConfigure (rc_tr out) (rc_env out) ?n ann w = (Inr (), w1)"
    unfolding n [symmetric] by blast
  obtain w2 where w2: "w2 = w \<or> generateBackendTemplate (rc_tr out) (rc_env out) ?n ann w = (Inr (), w2)"
    and u: "generateDefaultBackendTemplate (rc_tr out) (rc_env out) ?n ann w2 = (Inr (), w1)"
  proof (cases "Rules (ing_Spec ic) = []")
    case True
    with g assms(2) that [of w] show ?thesis by (simp add: GenerateConfigure_def)
  next
    case False
    obtain r0 w2 where b: "generateBackendTemplate (rc_tr out) (rc_env out) ?n ann w = (r0, w2)" by (meson surj_pair)
    with g assms(2) False that [of w2] show ?thesis by (cases r0) (auto simp: GenerateConfigure_def)
  qed
  have "touches_only (ssl_files \<union> own_files ic) w w2"
    using w2 update_installs_tested [OF assms(4,5,8)] assms(3) by fastforce
  then have "healthy_disk w2" "main_templates_there w2"
    using assms(4,6) healthy_disk_touches main_templates_kept by blast+
  from default_update_installs [OF this u] show ?thesis .
qed

definition hosted_ingress :: ingress where
  "hosted_ingress = (live_ingress ''web'')\<lparr>ing_Spec := \<lparr>IngressClassName = [],
     DefaultBackend = Some \<lparr>ib_Service = Some \<lparr>sb_Name = ''cart'', sb_Port = \<lparr>bp_Name = [], bp_Number = 80\<rparr>\<rparr>\<rparr>,
     TLS = [], Rules = []\<rparr>\<rparr>"

definition hosted_outside :: "unit outside" where
  "hosted_outside = live_outside\<lparr>rc_api := (rc_api live_outside)\<lparr>ap_view := \<lambda>_. live_client
     \<lparr>cl_Ingress := \<lambda>_. Inr hosted_ingress, cl_Service := \<lambda>_. Inr shop_service\<rparr>\<rparr>\<rparr>"

definition hosted_world :: world where
  "hosted_world = sample_world [MainServerTmpl \<mapsto> main_server_tmpl, ServerTmpl \<mapsto> server_tmpl,
     NginxTmpl \<mapsto> nginx_tmpl, DefaultTmpl \<mapsto> default_tmpl, MainConf \<mapsto> ''events {}'']"

lemma hosted_facts:
  "healthy_disk hosted_world" "templates_there hosted_world" "main_templates_there hosted_world"
  "files hosted_world MainConf = Some ''events {}''"
  by (simp_all add: hosted_world_def healthy_disk_def healthy_def sample_world_def templates_there_def main_templates_there_def
      MainServerTmpl_def ServerTmpl_def NginxTmpl_def DefaultTmpl_def MainConf_def)

lemma hosted_default:
  "desired_default (ap_view (rc_api hosted_outside) ()) hosted_ingress = Some (default_text shop_service 80)"
  by (simp add: desired_default_def hosted_ingress_def hosted_outside_def GetService_def GetSvcPort_def port_of_backend_def
      NewIngressInfo_def shop_service_def Let_def)

lemma hosted_plain: "plain_text (default_text shop_service 80)"
proof -
  have "show_int (sint (80 :: int32)) = ''80''" by code_simp
  then have "no_open (default_text shop_service 80)"
    unfolding default_text_def
    by (intro no_open_join last_texts_open)
       (simp_all add: closed_text_def default_texts_open shop_service_def no_open_lines no_open_step)
  then show ?thesis by (rule no_open_plain)
qed

lemma hosted_libraries: "libraries_ok hosted_outside"
  using live_libraries by (simp add: libraries_ok_def hosted_outside_def)

lemma hosted_annotations:
  "desired_annotations (NewIngressInfo (ap_view (rc_api hosted_outside) ()) hosted_ingress) hosted_ingress =
     Inr (new_annotations hosted_ingress)"
proof -
  let ?t = "NewIngressInfo (ap_view (rc_api hosted_outside) ()) hosted_ingress"
  have plain: "annotation hosted_ingress (GetAnnotationWithPrefix k) = []" for k
    by (simp add: annotation_def hosted_ingress_def live_ingress_def GetAnnotationWithPrefix_def AnnotationsPrefix_def
        nginxAnnotationKey_def)
  have mg: "mergo_fills (rc_mergo hosted_outside)" using hosted_libraries by (simp add: libraries_ok_def)
  have it: "iteration_of (NewAnnotationExtractor (info_resolver ?t)) (NewAnnotationExtractor (info_resolver ?t))"
    by (simp add: iteration_of_def)
  from Extract_desired [OF mg it] extract_plain [OF mg it plain] show ?thesis by simp
qed

lemma hosted_done: "\<exists>w1. Reconcile hosted_outside (key_of hosted_ingress) () hosted_world = (Inr 0, (), w1)"
proof (rule default_only_done [OF hosted_libraries _ _ _ hosted_annotations hosted_default hosted_plain hosted_facts(1,3)])
  show "checkController (ap_view (rc_api hosted_outside) ()) hosted_ingress = None"
    by (simp add: checkController_def hosted_ingress_def live_ingress_def annotation_def nginxAnnotationKey_def nginxAnnotationVal_def)
  show "accepts_all (rc_env hosted_outside)" "nginx_up (rc_env hosted_outside)"
    using live_nginx by (simp_all add: hosted_outside_def)
qed (simp_all add: hosted_outside_def hosted_ingress_def hosted_facts(4))

theorem reconcile_installs_default_witness:
  "\<exists>w1. Reconcile hosted_outside (key_of hosted_ingress) () hosted_world = (Inr 0, (), w1) \<and>
     main_in_sync (ap_view (rc_api hosted_outside) ()) hosted_ingress w1"
proof -
  obtain w1 where r: "Reconcile hosted_outside (key_of hosted_ingress) () hosted_world = (Inr 0, (), w1)"
    using hosted_done by blast
  have "plain_certs (controller_of (ap_view (rc_api hosted_outside) ()) hosted_ingress)"
    by (simp add: plain_certs_def controller_of_def info_resolver_def GetTlsData_def GetSecret_def NewIngressInfo_def
        hosted_outside_def hosted_ingress_def live_client_def Let_def)
  from reconcile_installs_default [OF _ _ _ hosted_facts(1-3) r this] r hosted_default hosted_plain show ?thesis
    by (simp add: hosted_outside_def hosted_ingress_def plain_ingress_def)
qed

text \<open>C29. What a deleted ingress leaves: the request for it removes its own configuration, once, and ends
  without an error, a test or a signal; the default back end it put into the main configuration stays.\<close>

theorem deleted_default_stays:
  assumes "cl_Ingress (ap_view (rc_api out) c) k = Inl e" and "plain_key k" and "healthy_disk w"
    and "files w (key_conf k @ ''.conf'') \<noteq> None" and "main_in_sync cl ic w"
  shows "\<exists>w1. Reconcile out k c w = (Inr 0, c, w1) \<and> files w1 (key_conf k @ ''.conf'') = None \<and>
    main_in_sync cl ic w1 \<and> events w1 = events w"
proof -
  let ?p = "key_conf k @ ''.conf''"
  have "plain_name (ok_Name k @ ''-'' @ ok_Namespace k @ ''.conf'')"
    using assms(2) by (intro plain_nameI) (auto simp: plain_key_def)
  then have p: "path_join [ConfDir, ok_Name k @ ''-'' @ ok_Namespace k @ ''.conf''] = ?p"
    by (simp add: conf_dir_join key_conf_def conf_name_def)
  have "clearConf (rc_tr out) (rc_env out) k w = (Inr (), set_file ?p None w)"
    unfolding clearConf_def p Let_def
    using assms(3,4) by (auto simp: os_stat_def CleanConf_simps CleanConf1_healthy healthy_disk_def)
  moreover have "MainConf \<noteq> ?p" using key_conf_apart(2) [of k "''.conf''"] by (auto simp: main_files_eq MainConf_def)
  ultimately show ?thesis using assms(1,5) by (simp add: Reconcile_def main_in_sync_def)
qed

theorem deleted_default_stays_witness:
  "\<exists>w. files w ''/etc/nginx/conf.d/web-shop.conf'' = Some ''server {}'' \<and>
     main_in_sync (ap_view (rc_api hosted_outside) ()) hosted_ingress w \<and>
     (\<exists>w1. Reconcile failing_outside (key_of hosted_ingress) () w = (Inr 0, (), w1) \<and>
       main_in_sync (ap_view (rc_api hosted_outside) ()) hosted_ingress w1)"
proof -
  let ?conf = "''/etc/nginx/conf.d/web-shop.conf''" and ?main = "main_page (default_text shop_service 80)"
  define w where "w = set_file ?conf (Some ''server {}'') (set_file MainConf (Some ?main) hosted_world)"
  have h: "healthy_disk w" using hosted_facts(1) by (simp add: w_def healthy_disk_def healthy_def)
  have files: "files w ?conf = Some ''server {}''" "files w MainConf = Some ?main"
    by (simp_all add: w_def MainConf_def)
  have sync: "main_in_sync (ap_view (rc_api hosted_outside) ()) hosted_ingress w"
    using hosted_default files(2) by (simp add: main_in_sync_def)
  have k: "plain_key (key_of hosted_ingress)" "key_conf (key_of hosted_ingress) @ ''.conf'' = ?conf"
    by (simp_all add: key_of_def hosted_ingress_def plain_key_def key_conf_def conf_name_def ConfDir_def)
  have gone: "cl_Ingress (ap_view (rc_api failing_outside) ()) (key_of hosted_ingress) =
      Inl (ApiError ''etcdserver: request timed out'')"
    by (simp add: failing_outside_def)
  have "files w (key_conf (key_of hosted_ingress) @ ''.conf'') \<noteq> None" unfolding k(2) using files(1) by simp
  from deleted_default_stays [OF gone k(1) h this sync] files(1) sync show ?thesis by blast
qed

end
