(* ===== verification/Webhook.thy ===== *)
theory Webhook
  imports AnnParser
begin

text \<open>
  The admission webhook, \<^verbatim>\<open>api/v1/ingress_webhook.go\<close>. The validation works on the decoded
  object and, for an ingress with the proxy annotation, appends a path to the rules while it looks at
  them; the model returns the object as the validation leaves it. The constant for the proxy
  annotation is the one the code declares, whose value is the key of the proxy host.
\<close>

definition webhook_proxyPathAnnotation :: string where
  "webhook_proxyPathAnnotation = ''ingress.nginx.kubebuilder.io/proxy-host''"

definition webhook_useWeightAnnotation :: string where
  "webhook_useWeightAnnotation = ''ingress.nginx.kubebuilder.io/use-weight''"

text \<open>The pattern \<^verbatim>\<open>([a0-z9]+\.)+([a-z]+)\<close> once more.\<close>

definition webhook_host_pattern :: re where
  "webhook_host_pattern =
     Seq (Plus (Seq (Plus (Cls False [(CHR ''a'', CHR ''a''), (CHR ''0'', CHR ''z''), (CHR ''9'', CHR ''9'')]))
                    (One CHR ''.'')))
         (Plus (Cls False [(CHR ''a'', CHR ''z'')]))"

definition ValidHost :: "string \<Rightarrow> bool" where
  "ValidHost str = match_string webhook_host_pattern str"

definition ValidSpec :: "ingress \<Rightarrow> go_error option" where
  "ValidSpec r =
     (if DefaultBackend (ing_Spec r) = None \<and> length (Rules (ing_Spec r)) = 0
      then Some (Errorf (''no available backend found in ingress: '' @ ing_Name r @ '', namespace: '' @ ing_Namespace r))
      else None)"

text \<open>How the inner loop over the paths ends: it returns from the function, or goes on to the next rule.\<close>

datatype paths_verdict = ReturnNil | ReturnErr go_error | NextRule

fun valid_paths :: "ingress \<Rightarrow> bool \<Rightarrow> string \<Rightarrow> http_path list \<Rightarrow> paths_verdict" where
  "valid_paths r useWeight path [] = NextRule"
| "valid_paths r useWeight path (p # ps) =
     (if useWeight then ReturnNil
      else if hp_Path p = path
      then ReturnErr (Errorf (''not allow duplicate path: '' @ path @ '' in ingress: '' @ ing_Name r @
             '', namespace: '' @ ing_Namespace r))
      else valid_paths r useWeight (hp_Path p) ps)"

text \<open>The path that is appended for the proxy: only its field \<^verbatim>\<open>Path\<close> is set.\<close>

definition proxy_path_entry :: "string \<Rightarrow> http_path" where
  "proxy_path_entry p = \<lparr>hp_Path = p, hp_PathType = None, hp_Backend = \<lparr>ib_Service = None\<rparr>\<rparr>"

text \<open>
  The loop over the rules: the verdict, and the rules as they are left. A rule that has no paths
  object makes the loop panic.
\<close>

fun valid_rules :: "ingress \<Rightarrow> ingress_rule list \<Rightarrow> go_error option result \<times> ingress_rule list" where
  "valid_rules r [] = (Inr None, [])"
| "valid_rules r (v # vs) =
     (let proxy = map_of (ing_Annotations r) webhook_proxyPathAnnotation;
          proxyPath = (case proxy of None \<Rightarrow> [] | Some p \<Rightarrow> p);
          useWeight = (parse_bool (annotation r webhook_useWeightAnnotation) = Some True \<and> proxyPath = [])
      in if proxy \<noteq> None \<and> \<not> ValidHost (ir_Host v)
         then (Inr (Some (Errorf (''proxy-host: '' @ proxyPath @ '' is an invalid value in ingress: '' @ ing_Name r @
                 '', namespace: '' @ ing_Namespace r))), v # vs)
         else
           (case ir_HTTP v of
              None \<Rightarrow> (Inl (Panic NilDereference), v # vs)
            | Some paths0 \<Rightarrow>
                (let paths = (if proxy \<noteq> None then paths0 @ [proxy_path_entry proxyPath] else paths0);
                     v' = v\<lparr>ir_HTTP := Some paths\<rparr>
                 in case valid_paths r useWeight [] paths of
                      ReturnNil \<Rightarrow> (Inr None, v' # vs)
                    | ReturnErr e \<Rightarrow> (Inr (Some e), v' # vs)
                    | NextRule \<Rightarrow> (case valid_rules r vs of (res, vs') \<Rightarrow> (res, v' # vs')))))"

definition ValidPathAndHost :: "ingress \<Rightarrow> go_error option result \<times> ingress" where
  "ValidPathAndHost r =
     (case valid_rules r (Rules (ing_Spec r)) of
        (res, vs) \<Rightarrow> (res, r\<lparr>ing_Spec := (ing_Spec r)\<lparr>Rules := vs\<rparr>\<rparr>))"

definition ValidData :: "ingress \<Rightarrow> go_error option result \<times> ingress" where
  "ValidData r =
     (case ValidSpec r of
        Some e \<Rightarrow> (Inr (Some e), r)
      | None \<Rightarrow> ValidPathAndHost r)"

text \<open>The three entry points of the webhook: the warnings are always nil.\<close>

definition ValidateCreate :: "ingress \<Rightarrow> go_error option result" where
  "ValidateCreate r = fst (ValidData r)"

definition ValidateUpdate :: "ingress \<Rightarrow> ingress \<Rightarrow> go_error option result" where
  "ValidateUpdate r old = fst (ValidData r)"

definition ValidateDelete :: "ingress \<Rightarrow> go_error option result" where
  "ValidateDelete r = Inr None"

text \<open>\<^verbatim>\<open>Default\<close> of the mutating webhook only logs.\<close>

definition Default :: "ingress \<Rightarrow> ingress" where
  "Default r = r"

section \<open>Facts\<close>

lemma valid_paths_plain:
  "valid_paths r False path ps = NextRule \<longleftrightarrow> distinct_adj (path # map hp_Path ps)"
  by (induction ps arbitrary: path) auto

lemma valid_paths_verdicts:
  "valid_paths r False path ps = NextRule \<or> (\<exists>e. valid_paths r False path ps = ReturnErr e)"
  by (induction ps arbitrary: path) auto

lemma valid_paths_weighted:
  "valid_paths r True path ps = (if ps = [] then NextRule else ReturnNil)"
  by (cases ps) auto

text \<open>Whether the weights are on, as the validation decides it.\<close>

definition weighted :: "ingress \<Rightarrow> bool" where
  "weighted r \<longleftrightarrow> parse_bool (annotation r webhook_useWeightAnnotation) = Some True"

definition proxied :: "ingress \<Rightarrow> bool" where
  "proxied r \<longleftrightarrow> map_of (ing_Annotations r) webhook_proxyPathAnnotation \<noteq> None"

text \<open>What a rule is compared with, and what is required of it. Weights without a proxy end the comparison.\<close>

definition weights_only :: "ingress \<Rightarrow> bool" where
  "weights_only r \<longleftrightarrow> weighted r \<and> annotation r webhook_proxyPathAnnotation = []"

definition rule_paths :: "ingress \<Rightarrow> ingress_rule \<Rightarrow> string list" where
  "rule_paths r v =
     map hp_Path (case ir_HTTP v of None \<Rightarrow> [] | Some ps \<Rightarrow> ps) @
     (if proxied r then [annotation r webhook_proxyPathAnnotation] else [])"

definition rule_ok :: "ingress \<Rightarrow> ingress_rule \<Rightarrow> bool" where
  "rule_ok r v \<longleftrightarrow> (proxied r \<longrightarrow> ValidHost (ir_Host v)) \<and> ir_HTTP v \<noteq> None \<and>
     (weights_only r \<or> distinct_adj ([] # rule_paths r v))"

text \<open>The rules the validation looks at: with weights it ends at the first rule that has a path.\<close>

fun looked_at :: "ingress \<Rightarrow> ingress_rule list \<Rightarrow> ingress_rule list" where
  "looked_at r [] = []"
| "looked_at r (v # vs) = v # (if weights_only r \<and> rule_paths r v \<noteq> [] then [] else looked_at r vs)"

lemma looked_at_all: "\<not> weights_only r \<Longrightarrow> looked_at r vs = vs"
  by (induction vs) auto

lemma valid_rules_iff: "fst (valid_rules r vs) = Inr None \<longleftrightarrow> list_all (rule_ok r) (looked_at r vs)"
proof (induction vs)
  case (Cons v vs)
  let ?proxy = "map_of (ing_Annotations r) webhook_proxyPathAnnotation"
  have proxy: "(case ?proxy of None \<Rightarrow> [] | Some p \<Rightarrow> p) = annotation r webhook_proxyPathAnnotation"
    "?proxy \<noteq> None \<longleftrightarrow> proxied r"
    by (simp_all add: annotation_def proxied_def)
  have off: "(parse_bool (annotation r webhook_useWeightAnnotation) = Some True \<and>
      annotation r webhook_proxyPathAnnotation = []) = weights_only r"
    by (simp add: weights_only_def weighted_def)
  show ?case
  proof (cases "(proxied r \<longrightarrow> ValidHost (ir_Host v)) \<and> ir_HTTP v \<noteq> None")
    case False
    then show ?thesis
      unfolding valid_rules.simps proxy off Let_def by (auto simp: rule_ok_def split: option.split)
  next
    case True
    then obtain ps where ps: "ir_HTTP v = Some ps" by auto
    let ?ps = "if proxied r then ps @ [proxy_path_entry (annotation r webhook_proxyPathAnnotation)] else ps"
    have paths: "map hp_Path ?ps = rule_paths r v" by (simp add: rule_paths_def ps proxy_path_entry_def)
    then have none: "?ps = [] \<longleftrightarrow> rule_paths r v = []" by (metis map_is_Nil_conv)
    have step: "fst (valid_rules r (v # vs)) =
        (case valid_paths r (weights_only r) [] ?ps of
           ReturnNil \<Rightarrow> Inr None | ReturnErr e \<Rightarrow> Inr (Some e) | NextRule \<Rightarrow> fst (valid_rules r vs))"
      unfolding valid_rules.simps proxy off Let_def using True ps
      by (auto split: paths_verdict.split prod.split)
    show ?thesis
    proof (cases "weights_only r")
      case unc: True
      then show ?thesis
        using step True Cons.IH none valid_paths_weighted [of r "[]" ?ps] by (simp add: rule_ok_def)
    next
      case False
      then have "valid_paths r (weights_only r) [] ?ps = NextRule \<longleftrightarrow> rule_ok r v"
        using True valid_paths_plain [of r "[]" ?ps] paths by (simp add: rule_ok_def)
      moreover have "valid_paths r (weights_only r) [] ?ps \<noteq> ReturnNil"
        using False valid_paths_verdicts [of r "[]" ?ps] by auto
      ultimately show ?thesis
        using step Cons.IH False by (cases "valid_paths r (weights_only r) [] ?ps") simp_all
    qed
  qed
qed simp

lemma ValidateCreate_iff:
  "ValidateCreate r = Inr None \<longleftrightarrow>
    (DefaultBackend (ing_Spec r) \<noteq> None \<or> Rules (ing_Spec r) \<noteq> []) \<and>
    list_all (rule_ok r) (looked_at r (Rules (ing_Spec r)))"
  using valid_rules_iff [of r "Rules (ing_Spec r)"]
  by (auto simp: ValidateCreate_def ValidData_def ValidSpec_def ValidPathAndHost_def split: prod.splits)

lemma valid_rules_cong:
  assumes "map_of (ing_Annotations r) webhook_proxyPathAnnotation = map_of (ing_Annotations s) webhook_proxyPathAnnotation"
    and "annotation r webhook_useWeightAnnotation = annotation s webhook_useWeightAnnotation"
    and "ing_Name r = ing_Name s" and "ing_Namespace r = ing_Namespace s"
  shows "valid_rules r vs = valid_rules s vs"
proof -
  have "valid_paths r b path ps = valid_paths s b path ps" for b path ps
    using assms(3,4) by (induction ps arbitrary: path) auto
  then have same: "valid_paths r = valid_paths s" by blast
  show ?thesis
  proof (induction vs)
    case (Cons v vs)
    show ?case unfolding valid_rules.simps assms same Cons.IH ..
  qed simp
qed

section \<open>Properties\<close>

text \<open>The webhook and the parser of the annotations accept the same hosts: a character between 0 and
  z, a dot and a lower-case letter in a row anywhere in the text are enough.\<close>

theorem webhook_hosts:
  "(ValidHost h \<longleftrightarrow> IsValidHost h) \<and>
   (ValidHost h \<longleftrightarrow>
     (\<exists>pre c l suf. h = pre @ c # CHR ''.'' # l # suf \<and>
        CHR ''0'' \<le> c \<and> c \<le> CHR ''z'' \<and> CHR ''a'' \<le> l \<and> l \<le> CHR ''z''))"
proof -
  have "ValidHost h \<longleftrightarrow> IsValidHost h"
    by (simp add: ValidHost_def webhook_host_pattern_def IsValidHost_def dns_pattern_def)
  then show ?thesis using IsValidHost_iff by simp
qed

text \<open>C35. An ingress is admitted exactly when it has a back end and every rule that is looked at has a paths
  object, a host the proxy may use if there is one, and no path that equals the one before it, the first
  being compared with the empty path and the value of the proxy annotation being the last. Weights
  without a proxy switch the comparison off, and the rules after the first one with a path are not
  looked at.\<close>

theorem webhook_admits:
  "ValidateCreate r = Inr None \<longleftrightarrow>
    (DefaultBackend (ing_Spec r) \<noteq> None \<or> Rules (ing_Spec r) \<noteq> []) \<and>
    list_all (\<lambda>v. (proxied r \<longrightarrow> ValidHost (ir_Host v)) \<and> ir_HTTP v \<noteq> None \<and>
        (weights_only r \<or> distinct_adj ([] # rule_paths r v))) (looked_at r (Rules (ing_Spec r))) \<and>
    (\<not> weights_only r \<longrightarrow> looked_at r (Rules (ing_Spec r)) = Rules (ing_Spec r))"
  using ValidateCreate_iff [of r] looked_at_all by (simp add: rule_ok_def [abs_def])

definition web_path :: "string \<Rightarrow> http_path" where
  "web_path p = \<lparr>hp_Path = p, hp_PathType = Some ''Prefix'', hp_Backend = \<lparr>ib_Service = None\<rparr>\<rparr>"

definition web_ingress :: "(string \<times> string) list \<Rightarrow> string list list \<Rightarrow> ingress" where
  "web_ingress anns pss =
     \<lparr>ing_Name = ''web'', ing_Namespace = ''shop'', ing_Annotations = anns,
      ing_Spec = \<lparr>IngressClassName = ''nginx'', DefaultBackend = None, TLS = [],
        Rules = map (\<lambda>ps. \<lparr>ir_Host = ''a.com'', ir_HTTP = Some (map web_path ps)\<rparr>) pss\<rparr>\<rparr>"

theorem webhook_admits_witness:
  "ValidateCreate (web_ingress [] [[''/a'', ''/b'', ''/a'']]) = Inr None \<and>
   ValidateCreate (web_ingress [] [[''/a'', ''/a'']]) \<noteq> Inr None \<and>
   ValidateCreate (web_ingress [(webhook_useWeightAnnotation, ''true'')] [[''/a'', ''/a'']]) = Inr None \<and>
   ValidateCreate (web_ingress [(webhook_proxyPathAnnotation, ''/a'')] [[''/b'', ''/a'']]) \<noteq> Inr None"
  using webhook_admits [of "web_ingress [] [[''/a'', ''/b'', ''/a'']]"]
    webhook_admits [of "web_ingress [] [[''/a'', ''/a'']]"]
    webhook_admits [of "web_ingress [(webhook_useWeightAnnotation, ''true'')] [[''/a'', ''/a'']]"]
    webhook_admits [of "web_ingress [(webhook_proxyPathAnnotation, ''/a'')] [[''/b'', ''/a'']]"]
  by (simp add: web_ingress_def weights_only_def weighted_def proxied_def annotation_def parse_bool_def web_path_def
      rule_paths_def webhook_useWeightAnnotation_def webhook_proxyPathAnnotation_def)

text \<open>A path that occurs twice in a rule is admitted when another path stands between the two: only
  neighbours are compared.\<close>

theorem webhook_misses_duplicates:
  assumes "\<not> weighted r" and "\<not> proxied r"
    and "Rules (ing_Spec r) = [\<lparr>ir_Host = h, ir_HTTP = Some [p, q, p]\<rparr>]"
    and "hp_Path p \<noteq> hp_Path q" and "hp_Path p \<noteq> []"
  shows "ValidateCreate r = Inr None"
  using assms by (simp add: ValidateCreate_iff weights_only_def rule_ok_def rule_paths_def)

theorem webhook_misses_duplicates_witness:
  "ValidateCreate (web_ingress [] [[''/a'', ''/b'', ''/a'']]) = Inr None"
  by (rule webhook_misses_duplicates [of _ "''a.com''" "web_path ''/a''" "web_path ''/b''"])
     (simp_all add: web_ingress_def weighted_def proxied_def annotation_def parse_bool_def web_path_def)

text \<open>The verdict does not depend on the annotation that holds the path of the proxy: what the
  validation reads under that name, and adds to the paths it compares, is the host of the proxy.\<close>

theorem webhook_reads_proxy_host:
  "ValidateCreate (r\<lparr>ing_Annotations := (GetAnnotationWithPrefix ''proxy-path'', p) # ing_Annotations r\<rparr>) =
     ValidateCreate r \<and>
   webhook_proxyPathAnnotation = GetAnnotationWithPrefix ''proxy-host''"
proof -
  let ?s = "r\<lparr>ing_Annotations := (GetAnnotationWithPrefix ''proxy-path'', p) # ing_Annotations r\<rparr>"
  have keys: "GetAnnotationWithPrefix ''proxy-path'' \<notin> {webhook_proxyPathAnnotation, webhook_useWeightAnnotation}"
    "webhook_proxyPathAnnotation = GetAnnotationWithPrefix ''proxy-host''"
    by (simp_all add: webhook_proxyPathAnnotation_def webhook_useWeightAnnotation_def
        GetAnnotationWithPrefix_def AnnotationsPrefix_def)
  have "valid_rules ?s vs = valid_rules r vs" for vs
    by (rule valid_rules_cong) (use keys(1) in \<open>auto simp: annotation_def\<close>)
  then have "ValidateCreate ?s = ValidateCreate r"
    by (auto simp: ValidateCreate_def ValidData_def ValidSpec_def ValidPathAndHost_def split: prod.splits)
  with keys(2) show ?thesis by simp
qed

end
