(* ===== verification/DeepCopy.thy ===== *)
theory DeepCopy
  imports Webhook
begin

text \<open>
  \<^verbatim>\<open>api/v1/zz_generated.deepcopy.go\<close> over an explicit store. The other theories pass ingresses
  as values; here the pointers, slices and maps an ingress is made of are addresses, so that it can be
  said what a copy shares with the object it was made from. \<open>ingress_at\<close> reads the value back, and the
  validation of the webhook, which writes through such a pointer, is modelled once more on the store.

  A slice is the address of its array, which it covers, or nil. The slices inside an element of
  \<^verbatim>\<open>TLS\<close> and the \<^verbatim>\<open>Paths\<close> of one rule object are values: nothing here holds them twice.
\<close>

section \<open>The store\<close>

type_synonym addr = nat

record type_meta =
  tm_Kind :: string
  tm_APIVersion :: string

record object_meta =
  om_Name :: string
  om_Namespace :: string
  om_Annotations :: "addr option" \<comment> \<open>a map is a reference\<close>

record list_meta =
  lm_ResourceVersion :: string

record rule_cell =
  rl_Host :: string
  rl_HTTP :: "addr option"

record IngressSpec =
  sc_IngressClassName :: string
  sc_DefaultBackend :: "addr option"
  sc_TLS :: "addr option"
  sc_Rules :: "addr option"

text \<open>The status has no fields.\<close>

datatype IngressStatus = IngressStatus

record Ingress =
  in_TypeMeta :: type_meta
  in_ObjectMeta :: object_meta
  in_Spec :: IngressSpec
  in_Status :: IngressStatus

record IngressList =
  li_TypeMeta :: type_meta
  li_ListMeta :: list_meta
  li_Items :: "addr option"

record store =
  st_next :: addr
  st_maps :: "addr \<rightharpoonup> (string \<times> string) list"
  st_backends :: "addr \<rightharpoonup> ingress_backend"
  st_tls :: "addr \<rightharpoonup> ingress_tls list"
  st_rules :: "addr \<rightharpoonup> rule_cell list"
  st_https :: "addr \<rightharpoonup> http_path list"
  st_ingresses :: "addr \<rightharpoonup> Ingress"
  st_arrays :: "addr \<rightharpoonup> Ingress list"
  st_lists :: "addr \<rightharpoonup> IngressList"
  st_specs :: "addr \<rightharpoonup> IngressSpec"
  st_statuses :: "addr \<rightharpoonup> IngressStatus"

text \<open>A pointer to an ingress points to an object of its own or to a slot of an array.\<close>

datatype place = Whole addr | Item addr nat

fun read_ingress :: "place \<Rightarrow> store \<Rightarrow> Ingress option" where
  "read_ingress (Whole a) h = st_ingresses h a"
| "read_ingress (Item a i) h =
     (case st_arrays h a of None \<Rightarrow> None | Some vs \<Rightarrow> if i < length vs then Some (vs ! i) else None)"

fun write_ingress :: "place \<Rightarrow> Ingress \<Rightarrow> store \<Rightarrow> store" where
  "write_ingress (Whole a) v h = h\<lparr>st_ingresses := (st_ingresses h)(a \<mapsto> v)\<rparr>"
| "write_ingress (Item a i) v h =
     (case st_arrays h a of None \<Rightarrow> h | Some vs \<Rightarrow> h\<lparr>st_arrays := (st_arrays h)(a \<mapsto> vs[i := v])\<rparr>)"

definition zero_spec :: IngressSpec where
  "zero_spec = \<lparr>sc_IngressClassName = [], sc_DefaultBackend = None, sc_TLS = None, sc_Rules = None\<rparr>"

definition zero_type_meta :: type_meta where
  "zero_type_meta = \<lparr>tm_Kind = [], tm_APIVersion = []\<rparr>"

definition zero_ingress :: Ingress where
  "zero_ingress = \<lparr>in_TypeMeta = zero_type_meta, in_ObjectMeta = \<lparr>om_Name = [], om_Namespace = [], om_Annotations = None\<rparr>,
     in_Spec = zero_spec, in_Status = IngressStatus\<rparr>"

definition zero_list :: IngressList where
  "zero_list = \<lparr>li_TypeMeta = zero_type_meta, li_ListMeta = \<lparr>lm_ResourceVersion = []\<rparr>, li_Items = None\<rparr>"

text \<open>\<^verbatim>\<open>new\<close> and \<^verbatim>\<open>make\<close>: the next address, with the zero value.\<close>

definition new_ingress :: "store \<Rightarrow> addr \<times> store" where
  "new_ingress h = (st_next h, h\<lparr>st_next := Suc (st_next h), st_ingresses := (st_ingresses h)(st_next h \<mapsto> zero_ingress)\<rparr>)"

definition make_items :: "nat \<Rightarrow> store \<Rightarrow> addr \<times> store" where
  "make_items n h =
     (st_next h, h\<lparr>st_next := Suc (st_next h), st_arrays := (st_arrays h)(st_next h \<mapsto> replicate n zero_ingress)\<rparr>)"

definition new_list :: "store \<Rightarrow> addr \<times> store" where
  "new_list h = (st_next h, h\<lparr>st_next := Suc (st_next h), st_lists := (st_lists h)(st_next h \<mapsto> zero_list)\<rparr>)"

definition new_spec :: "store \<Rightarrow> addr \<times> store" where
  "new_spec h = (st_next h, h\<lparr>st_next := Suc (st_next h), st_specs := (st_specs h)(st_next h \<mapsto> zero_spec)\<rparr>)"

definition new_status :: "store \<Rightarrow> addr \<times> store" where
  "new_status h = (st_next h, h\<lparr>st_next := Suc (st_next h), st_statuses := (st_statuses h)(st_next h \<mapsto> IngressStatus)\<rparr>)"

section \<open>The copies\<close>

text \<open>The copies of the metadata belong to package meta/v1: what they write, and the store they leave.\<close>

record meta_library =
  ml_ObjectMeta :: "object_meta \<Rightarrow> store \<Rightarrow> object_meta \<times> store"
  ml_ListMeta :: "list_meta \<Rightarrow> store \<Rightarrow> list_meta \<times> store"

text \<open>\<^verbatim>\<open>DeepCopyInto\<close> of an ingress, assignment by assignment. A pointer to nothing is a nil pointer.\<close>

definition set_field :: "place \<Rightarrow> (Ingress \<Rightarrow> Ingress) \<Rightarrow> store \<Rightarrow> store result" where
  "set_field q f h = ebind (deref (read_ingress q h)) (\<lambda>v. Inr (write_ingress q (f v) h))"

definition ingress_DeepCopyInto :: "meta_library \<Rightarrow> place \<Rightarrow> place \<Rightarrow> store \<Rightarrow> store result" where
  "ingress_DeepCopyInto ml p q h =
     ebind (deref (read_ingress p h)) (\<lambda>v.
     ebind (set_field q (\<lambda>_. v) h) (\<lambda>h1.
     ebind (deref (read_ingress p h1)) (\<lambda>v1.
     ebind (set_field q (\<lambda>ing. ing\<lparr>in_TypeMeta := in_TypeMeta v1\<rparr>) h1) (\<lambda>h2.
     ebind (deref (read_ingress p h2)) (\<lambda>v2.
     (case ml_ObjectMeta ml (in_ObjectMeta v2) h2 of (m, h3) \<Rightarrow>
     ebind (set_field q (\<lambda>ing. ing\<lparr>in_ObjectMeta := m\<rparr>) h3) (\<lambda>h4.
     ebind (deref (read_ingress p h4)) (\<lambda>v4.
     ebind (set_field q (\<lambda>ing. ing\<lparr>in_Spec := in_Spec v4\<rparr>) h4) (\<lambda>h5.
     ebind (deref (read_ingress p h5)) (\<lambda>v5.
     set_field q (\<lambda>ing. ing\<lparr>in_Status := in_Status v5\<rparr>) h5))))))))))"

definition ingress_DeepCopy :: "meta_library \<Rightarrow> place option \<Rightarrow> store \<Rightarrow> (addr option \<times> store) result" where
  "ingress_DeepCopy ml p h =
     (case p of
        None \<Rightarrow> Inr (None, h)
      | Some p \<Rightarrow>
          (case new_ingress h of (out, h1) \<Rightarrow>
             ebind (ingress_DeepCopyInto ml p (Whole out) h1) (\<lambda>h2. Inr (Some out, h2))))"

text \<open>\<^verbatim>\<open>runtime.Object\<close>, as far as this package gives one.\<close>

datatype runtime_object = IngressObject addr | IngressListObject addr

definition ingress_DeepCopyObject :: "meta_library \<Rightarrow> place option \<Rightarrow> store \<Rightarrow> (runtime_object option \<times> store) result" where
  "ingress_DeepCopyObject ml p h =
     ebind (ingress_DeepCopy ml p h) (\<lambda>(c, h1).
       case c of Some a \<Rightarrow> Inr (Some (IngressObject a), h1) | None \<Rightarrow> Inr (None, h1))"

text \<open>The loop over the items.\<close>

fun copy_items :: "meta_library \<Rightarrow> addr \<Rightarrow> addr \<Rightarrow> nat list \<Rightarrow> store \<Rightarrow> store result" where
  "copy_items ml a b [] h = Inr h"
| "copy_items ml a b (i # is) h =
     ebind (ingress_DeepCopyInto ml (Item a i) (Item b i) h) (copy_items ml a b is)"

definition list_DeepCopyInto :: "meta_library \<Rightarrow> addr \<Rightarrow> addr \<Rightarrow> store \<Rightarrow> store result" where
  "list_DeepCopyInto ml p q h =
     ebind (deref (st_lists h p)) (\<lambda>v.
     (let h1 = h\<lparr>st_lists := (st_lists h)(q \<mapsto> v)\<rparr>;
          h2 = h1\<lparr>st_lists := (st_lists h1)(q \<mapsto> v\<lparr>li_TypeMeta := li_TypeMeta v\<rparr>)\<rparr>
      in case ml_ListMeta ml (li_ListMeta v) h2 of (m, h3) \<Rightarrow>
         (let h4 = h3\<lparr>st_lists := (st_lists h3)(q \<mapsto> v\<lparr>li_ListMeta := m\<rparr>)\<rparr>
          in case li_Items v of
               None \<Rightarrow> Inr h4
             | Some a \<Rightarrow>
                 ebind (deref (st_arrays h4 a)) (\<lambda>vs.
                 (case make_items (length vs) h4 of (b, h5) \<Rightarrow>
                    copy_items ml a b [0..<length vs]
                      (h5\<lparr>st_lists := (st_lists h5)(q \<mapsto> v\<lparr>li_ListMeta := m, li_Items := Some b\<rparr>)\<rparr>))))))"

definition list_DeepCopy :: "meta_library \<Rightarrow> addr option \<Rightarrow> store \<Rightarrow> (addr option \<times> store) result" where
  "list_DeepCopy ml p h =
     (case p of
        None \<Rightarrow> Inr (None, h)
      | Some p \<Rightarrow>
          (case new_list h of (out, h1) \<Rightarrow>
             ebind (list_DeepCopyInto ml p out h1) (\<lambda>h2. Inr (Some out, h2))))"

definition list_DeepCopyObject :: "meta_library \<Rightarrow> addr option \<Rightarrow> store \<Rightarrow> (runtime_object option \<times> store) result" where
  "list_DeepCopyObject ml p h =
     ebind (list_DeepCopy ml p h) (\<lambda>(c, h1).
       case c of Some a \<Rightarrow> Inr (Some (IngressListObject a), h1) | None \<Rightarrow> Inr (None, h1))"

definition spec_DeepCopyInto :: "addr \<Rightarrow> addr \<Rightarrow> store \<Rightarrow> store result" where
  "spec_DeepCopyInto p q h =
     ebind (deref (st_specs h p)) (\<lambda>v. Inr (h\<lparr>st_specs := (st_specs h)(q \<mapsto> v)\<rparr>))"

definition spec_DeepCopy :: "addr option \<Rightarrow> store \<Rightarrow> (addr option \<times> store) result" where
  "spec_DeepCopy p h =
     (case p of
        None \<Rightarrow> Inr (None, h)
      | Some p \<Rightarrow>
          (case new_spec h of (out, h1) \<Rightarrow> ebind (spec_DeepCopyInto p out h1) (\<lambda>h2. Inr (Some out, h2))))"

definition status_DeepCopyInto :: "addr \<Rightarrow> addr \<Rightarrow> store \<Rightarrow> store result" where
  "status_DeepCopyInto p q h =
     ebind (deref (st_statuses h p)) (\<lambda>v. Inr (h\<lparr>st_statuses := (st_statuses h)(q \<mapsto> v)\<rparr>))"

definition status_DeepCopy :: "addr option \<Rightarrow> store \<Rightarrow> (addr option \<times> store) result" where
  "status_DeepCopy p h =
     (case p of
        None \<Rightarrow> Inr (None, h)
      | Some p \<Rightarrow>
          (case new_status h of (out, h1) \<Rightarrow> ebind (status_DeepCopyInto p out h1) (\<lambda>h2. Inr (Some out, h2))))"
section \<open>The value behind an address\<close>

text \<open>Reading is partial: \<open>None\<close> is an address nothing is stored at.\<close>

definition pointed :: "(addr \<rightharpoonup> 'a) \<Rightarrow> addr option \<Rightarrow> 'a option option" where
  "pointed m p = (case p of None \<Rightarrow> Some None | Some a \<Rightarrow> map_option Some (m a))"

definition slice_at :: "(addr \<rightharpoonup> 'a list) \<Rightarrow> addr option \<Rightarrow> 'a list option" where
  "slice_at m p = (case p of None \<Rightarrow> Some [] | Some a \<Rightarrow> m a)"

definition rule_at :: "store \<Rightarrow> rule_cell \<Rightarrow> ingress_rule option" where
  "rule_at h r = map_option (\<lambda>ps. \<lparr>ir_Host = rl_Host r, ir_HTTP = ps\<rparr>) (pointed (st_https h) (rl_HTTP r))"

definition spec_at :: "store \<Rightarrow> IngressSpec \<Rightarrow> ingress_spec option" where
  "spec_at h s =
     Option.bind (pointed (st_backends h) (sc_DefaultBackend s)) (\<lambda>d.
     Option.bind (slice_at (st_tls h) (sc_TLS s)) (\<lambda>ts.
     Option.bind (slice_at (st_rules h) (sc_Rules s)) (\<lambda>rs.
     map_option (\<lambda>vs. \<lparr>IngressClassName = sc_IngressClassName s, DefaultBackend = d, TLS = ts, Rules = vs\<rparr>)
       (those (map (rule_at h) rs)))))"

definition value_at :: "store \<Rightarrow> Ingress \<Rightarrow> ingress option" where
  "value_at h v =
     Option.bind (slice_at (st_maps h) (om_Annotations (in_ObjectMeta v))) (\<lambda>as.
     map_option (\<lambda>s. \<lparr>ing_Name = om_Name (in_ObjectMeta v), ing_Namespace = om_Namespace (in_ObjectMeta v),
         ing_Annotations = as, ing_Spec = s\<rparr>) (spec_at h (in_Spec v)))"

definition ingress_at :: "store \<Rightarrow> place \<Rightarrow> ingress option" where
  "ingress_at h p = Option.bind (read_ingress p h) (value_at h)"

text \<open>The store after an operation that only adds to what can be reached, and a store whose next
  address is free.\<close>

definition extends :: "store \<Rightarrow> store \<Rightarrow> bool" where
  "extends h h' \<longleftrightarrow> st_next h \<le> st_next h' \<and> st_maps h \<subseteq>\<^sub>m st_maps h' \<and> st_backends h \<subseteq>\<^sub>m st_backends h' \<and>
     st_tls h \<subseteq>\<^sub>m st_tls h' \<and> st_rules h \<subseteq>\<^sub>m st_rules h' \<and> st_https h \<subseteq>\<^sub>m st_https h' \<and>
     st_ingresses h \<subseteq>\<^sub>m st_ingresses h' \<and> st_arrays h \<subseteq>\<^sub>m st_arrays h' \<and> st_lists h \<subseteq>\<^sub>m st_lists h' \<and>
     st_specs h \<subseteq>\<^sub>m st_specs h' \<and> st_statuses h \<subseteq>\<^sub>m st_statuses h'"

definition store_ok :: "store \<Rightarrow> bool" where
  "store_ok h \<longleftrightarrow> (\<forall>a \<ge> st_next h. st_maps h a = None \<and> st_backends h a = None \<and> st_tls h a = None \<and>
     st_rules h a = None \<and> st_https h a = None \<and> st_ingresses h a = None \<and> st_arrays h a = None \<and>
     st_lists h a = None \<and> st_specs h a = None \<and> st_statuses h a = None)"

lemma extends_refl [simp]: "extends h h"
  by (simp add: extends_def)

lemma extends_trans [trans]: "extends h h' \<Longrightarrow> extends h' h'' \<Longrightarrow> extends h h''"
  unfolding extends_def by (meson le_trans map_le_trans)

lemma map_le_fresh: "m a = None \<Longrightarrow> m \<subseteq>\<^sub>m m' \<Longrightarrow> m \<subseteq>\<^sub>m m'(a \<mapsto> v)"
  by (auto simp: map_le_def dom_def)

lemma pointed_mono: "m \<subseteq>\<^sub>m m' \<Longrightarrow> pointed m p = Some x \<Longrightarrow> pointed m' p = Some x"
  by (auto simp: pointed_def map_le_def dom_def split: option.splits)

lemma slice_at_mono: "m \<subseteq>\<^sub>m m' \<Longrightarrow> slice_at m p = Some x \<Longrightarrow> slice_at m' p = Some x"
  by (auto simp: slice_at_def map_le_def dom_def split: option.splits)

lemma those_Some: "those (map f rs) = Some vs \<longleftrightarrow> list_all2 (\<lambda>r v. f r = Some v) rs vs"
  by (induction rs arbitrary: vs) (auto simp: list_all2_Cons1 split: option.splits)

lemma rule_at_mono: "st_https h \<subseteq>\<^sub>m st_https h' \<Longrightarrow> rule_at h r = Some v \<Longrightarrow> rule_at h' r = Some v"
  by (auto simp: rule_at_def dest: pointed_mono)

lemma rules_mono:
  "st_https h \<subseteq>\<^sub>m st_https h' \<Longrightarrow> those (map (rule_at h) rs) = Some vs \<Longrightarrow> those (map (rule_at h') rs) = Some vs"
  by (auto simp: those_Some intro: rule_at_mono elim!: list_all2_mono)

lemma value_at_mono:
  assumes "extends h h'" and v: "value_at h v = Some i"
  shows "value_at h' v = Some i"
proof -
  note le = assms(1) [unfolded extends_def]
  have "spec_at h' s = Some x" if "spec_at h s = Some x" for s x
    using that le pointed_mono [of "st_backends h" "st_backends h'"] slice_at_mono [of "st_tls h" "st_tls h'"]
      slice_at_mono [of "st_rules h" "st_rules h'"] rules_mono [of h h']
    by (auto simp: spec_at_def bind_eq_Some_conv)
  with v le show ?thesis
    by (auto simp: value_at_def bind_eq_Some_conv dest: slice_at_mono)
qed

lemma read_mono:
  assumes "extends h h'" and "read_ingress p h = Some v"
  shows "read_ingress p h' = Some v"
  using assms by (cases p) (force simp: extends_def map_le_def dom_def split: option.splits if_splits)+

lemma ingress_at_mono: "extends h h' \<Longrightarrow> ingress_at h p = Some i \<Longrightarrow> ingress_at h' p = Some i"
  by (auto simp: ingress_at_def bind_eq_Some_conv intro: value_at_mono read_mono)

section \<open>Reads and writes\<close>

lemma read_write_same [simp]: "read_ingress q h \<noteq> None \<Longrightarrow> read_ingress q (write_ingress q v h) = Some v"
  by (cases q) (auto split: option.splits if_splits)

lemma read_write_other [simp]: "p \<noteq> q \<Longrightarrow> read_ingress p (write_ingress q v h) = read_ingress p h"
  by (cases p; cases q) (auto split: option.splits)

lemma write_write [simp]: "write_ingress q v (write_ingress q u h) = write_ingress q v h"
  by (cases q) (auto split: option.splits)

lemma read_maps [simp]: "read_ingress q (h\<lparr>st_maps := ms, st_next := n\<rparr>) = read_ingress q h"
  by (cases q) simp_all

lemma write_maps:
  "(write_ingress q v h)\<lparr>st_maps := ms, st_next := n\<rparr> = write_ingress q v (h\<lparr>st_maps := ms, st_next := n\<rparr>)"
  by (cases q) (simp_all split: option.splits)

lemma store_ok_write: "store_ok h \<Longrightarrow> read_ingress q h \<noteq> None \<Longrightarrow> store_ok (write_ingress q v h)"
proof (cases q)
  case (Whole a)
  assume "store_ok h" and "read_ingress q h \<noteq> None"
  with Whole have "a < st_next h" by (metis not_less read_ingress.simps(1) store_ok_def)
  with \<open>store_ok h\<close> Whole show ?thesis by (auto simp: store_ok_def)
next
  case (Item a i)
  assume ok: "store_ok h" and r: "read_ingress q h \<noteq> None"
  from r Item obtain vs where vs: "st_arrays h a = Some vs" by (auto split: option.splits)
  with ok have "a < st_next h" by (metis not_less option.distinct(1) store_ok_def)
  with ok Item vs show ?thesis by (auto simp: store_ok_def)
qed

text \<open>What the copies of the metadata are documented to do: the object metadata comes out equal, with
  its map at a new address; the list metadata, which holds no reference here, comes out equal.\<close>

definition meta_copied :: "object_meta \<Rightarrow> store \<Rightarrow> object_meta \<Rightarrow> (addr \<rightharpoonup> (string \<times> string) list) \<Rightarrow> addr \<Rightarrow> bool" where
  "meta_copied m h m' ms n \<longleftrightarrow>
     st_maps h \<subseteq>\<^sub>m ms \<and> st_next h \<le> n \<and> store_ok (h\<lparr>st_maps := ms, st_next := n\<rparr>) \<and>
     om_Name m' = om_Name m \<and> om_Namespace m' = om_Namespace m \<and>
     slice_at ms (om_Annotations m') = slice_at (st_maps h) (om_Annotations m) \<and>
     (om_Annotations m' = None \<longleftrightarrow> om_Annotations m = None) \<and>
     (\<forall>b. om_Annotations m' = Some b \<longrightarrow> st_next h \<le> b \<and> b < n)"

definition copies_meta :: "meta_library \<Rightarrow> bool" where
  "copies_meta ml \<longleftrightarrow>
     (\<forall>m h. store_ok h \<longrightarrow>
        (\<exists>m' ms n. ml_ObjectMeta ml m h = (m', h\<lparr>st_maps := ms, st_next := n\<rparr>) \<and> meta_copied m h m' ms n)) \<and>
     (\<forall>m h. ml_ListMeta ml m h = (m, h))"

lemma meta_copied_write:
  assumes "meta_copied m (write_ingress q v h) m' ms n"
  shows "st_maps h \<subseteq>\<^sub>m ms \<and> st_next h \<le> n \<and> store_ok (write_ingress q v (h\<lparr>st_maps := ms, st_next := n\<rparr>)) \<and>
     om_Name m' = om_Name m \<and> om_Namespace m' = om_Namespace m \<and>
     slice_at ms (om_Annotations m') = slice_at (st_maps h) (om_Annotations m) \<and>
     (om_Annotations m' = None \<longleftrightarrow> om_Annotations m = None) \<and>
     (\<forall>b. om_Annotations m' = Some b \<longrightarrow> st_next h \<le> b \<and> b < n)"
proof -
  have "st_maps (write_ingress q v h) = st_maps h" "st_next (write_ingress q v h) = st_next h"
    by (cases q; simp split: option.split)+
  with assms show ?thesis by (simp add: meta_copied_def write_maps)
qed

lemma ingress_DeepCopyInto_eq:
  assumes ml: "copies_meta ml" and ok: "store_ok h" and p: "read_ingress p h = Some v"
    and q: "read_ingress q h = Some z" and "p \<noteq> q"
  shows "\<exists>m' ms n. ingress_DeepCopyInto ml p q h =
      Inr (write_ingress q (v\<lparr>in_ObjectMeta := m'\<rparr>) (h\<lparr>st_maps := ms, st_next := n\<rparr>)) \<and>
    meta_copied (in_ObjectMeta v) (write_ingress q v h) m' ms n"
proof -
  let ?h = "write_ingress q v h"
  have "store_ok ?h" using ok q by (simp add: store_ok_write)
  with ml obtain m' ms n where m: "ml_ObjectMeta ml (in_ObjectMeta v) ?h = (m', ?h\<lparr>st_maps := ms, st_next := n\<rparr>)"
      "meta_copied (in_ObjectMeta v) ?h m' ms n"
    using copies_meta_def by blast
  have "ingress_DeepCopyInto ml p q h =
      Inr (write_ingress q (v\<lparr>in_ObjectMeta := m'\<rparr>) (h\<lparr>st_maps := ms, st_next := n\<rparr>))"
    using p q \<open>p \<noteq> q\<close> m(1) by (simp add: ingress_DeepCopyInto_def set_field_def write_maps)
  with m(2) show ?thesis by blast
qed
section \<open>One ingress\<close>

lemma value_at_write [simp]: "value_at (write_ingress q v h) = value_at h"
proof
  fix x
  have "st_maps (write_ingress q v h) = st_maps h" "st_backends (write_ingress q v h) = st_backends h"
    "st_tls (write_ingress q v h) = st_tls h" "st_rules (write_ingress q v h) = st_rules h"
    "st_https (write_ingress q v h) = st_https h"
    by (cases q; simp split: option.split)+
  then show "value_at (write_ingress q v h) x = value_at h x"
    by (simp add: value_at_def spec_at_def rule_at_def [abs_def])
qed

lemma extends_maps: "st_maps h \<subseteq>\<^sub>m ms \<Longrightarrow> st_next h \<le> n \<Longrightarrow> extends h (h\<lparr>st_maps := ms, st_next := n\<rparr>)"
  by (simp add: extends_def)

lemma value_of_copy:
  assumes "meta_copied (in_ObjectMeta v) (write_ingress q u h) m' ms n" and i: "value_at h v = Some i"
  shows "value_at (h\<lparr>st_maps := ms, st_next := n\<rparr>) (v\<lparr>in_ObjectMeta := m'\<rparr>) = Some i"
proof -
  note m = meta_copied_write [OF assms(1)]
  let ?h = "h\<lparr>st_maps := ms, st_next := n\<rparr>"
  have "value_at ?h v = Some i"
    using value_at_mono [OF extends_maps i] m by blast
  moreover have "slice_at ms (om_Annotations (in_ObjectMeta v)) = slice_at (st_maps h) (om_Annotations (in_ObjectMeta v))"
    using i m slice_at_mono [of "st_maps h" ms] by (auto simp: value_at_def bind_eq_Some_conv)
  ultimately show ?thesis using m by (simp add: value_at_def spec_at_def rule_at_def [abs_def])
qed

text \<open>The store after \<^verbatim>\<open>DeepCopy\<close>: the original is where it was, and the copy differs from it in
  its metadata only.\<close>

lemma ingress_DeepCopy_eq:
  assumes ml: "copies_meta ml" and ok: "store_ok h" and p: "read_ingress p h = Some v"
  shows "\<exists>h' m'. ingress_DeepCopy ml (Some p) h = Inr (Some (st_next h), h') \<and> extends h h' \<and> store_ok h' \<and>
    read_ingress (Whole (st_next h)) h' = Some (v\<lparr>in_ObjectMeta := m'\<rparr>) \<and>
    (\<forall>i. value_at h v = Some i \<longrightarrow> value_at h' (v\<lparr>in_ObjectMeta := m'\<rparr>) = Some i) \<and>
    (om_Annotations m' = None \<longleftrightarrow> om_Annotations (in_ObjectMeta v) = None) \<and>
    (\<forall>a. om_Annotations m' = Some a \<longrightarrow> st_next h < a)"
proof -
  let ?b = "st_next h"
  let ?h1 = "snd (new_ingress h)"
  have ok1: "store_ok ?h1" using ok by (auto simp: store_ok_def new_ingress_def)
  have ext1: "extends h ?h1"
    using ok by (auto simp: extends_def new_ingress_def store_ok_def intro: map_le_fresh)
  have p1: "read_ingress p ?h1 = Some v" using read_mono [OF ext1 p] .
  have "st_ingresses h ?b = None" using ok by (simp add: store_ok_def)
  with p have ne: "p \<noteq> Whole ?b" by auto
  have b1: "read_ingress (Whole ?b) ?h1 = Some zero_ingress" by (simp add: new_ingress_def)
  from ingress_DeepCopyInto_eq [OF ml ok1 p1 b1 ne] obtain m' ms n where
    c: "ingress_DeepCopyInto ml p (Whole ?b) ?h1 =
      Inr (write_ingress (Whole ?b) (v\<lparr>in_ObjectMeta := m'\<rparr>) (?h1\<lparr>st_maps := ms, st_next := n\<rparr>))"
    and m: "meta_copied (in_ObjectMeta v) (write_ingress (Whole ?b) v ?h1) m' ms n" by blast
  define h' where "h' = write_ingress (Whole ?b) (v\<lparr>in_ObjectMeta := m'\<rparr>) (?h1\<lparr>st_maps := ms, st_next := n\<rparr>)"
  note m' = meta_copied_write [OF m]
  have "ingress_DeepCopy ml (Some p) h = Inr (Some ?b, h')"
    using c by (simp add: ingress_DeepCopy_def h'_def new_ingress_def)
  moreover have "extends h h'"
    using m' ok by (auto simp: extends_def h'_def new_ingress_def store_ok_def intro: map_le_fresh)
  moreover have "store_ok h'"
    using m' store_ok_write [of "write_ingress (Whole ?b) v (?h1\<lparr>st_maps := ms, st_next := n\<rparr>)" "Whole ?b"] m b1
    unfolding h'_def meta_copied_def write_maps by (metis read_maps read_write_same write_write option.distinct(1))
  moreover have "read_ingress (Whole ?b) h' = Some (v\<lparr>in_ObjectMeta := m'\<rparr>)" by (simp add: h'_def)
  moreover have "value_at h' (v\<lparr>in_ObjectMeta := m'\<rparr>) = Some i" if "value_at h v = Some i" for i
  proof -
    have "value_at ?h1 v = Some i" using value_at_mono [OF ext1 that] .
    from value_of_copy [OF m this] show ?thesis by (simp only: h'_def value_at_write)
  qed
  moreover have "\<forall>a. om_Annotations m' = Some a \<longrightarrow> ?b < a"
    using m' by (auto simp: new_ingress_def)
  ultimately show ?thesis using m' by (intro exI [of _ h'] exI [of _ m']) simp
qed

text \<open>A map at an address that was free when the object was read is not the map of the object.\<close>

lemma value_with_map:
  assumes "store_ok h" and "extends h h'" and "read_ingress p h = Some v" and "value_at h v = Some i"
    and "st_next h \<le> a"
  shows "ingress_at (h'\<lparr>st_maps := (st_maps h')(a \<mapsto> m)\<rparr>) p = Some i"
proof -
  have "om_Annotations (in_ObjectMeta v) \<noteq> Some a"
    using assms(1,4,5) by (auto simp: store_ok_def value_at_def slice_at_def)
  moreover have "read_ingress p (h'\<lparr>st_maps := (st_maps h')(a \<mapsto> m)\<rparr>) = Some v"
    using read_mono [OF assms(2,3)] by (cases p) simp_all
  moreover have "value_at h' v = Some i" using value_at_mono assms(2,4) .
  ultimately show ?thesis
    by (auto simp: ingress_at_def value_at_def spec_at_def rule_at_def [abs_def] slice_at_def split: option.splits)
qed

section \<open>The validation of the webhook on the store\<close>

text \<open>
  The loop over the rules of \<^verbatim>\<open>ValidPathAndHost\<close> with its write through the pointer of the rule. The
  value \<open>r\<close> gives the name and the annotations, which the loop only reads.
\<close>

fun valid_rules_at :: "ingress \<Rightarrow> rule_cell list \<Rightarrow> store \<Rightarrow> go_error option result \<times> store" where
  "valid_rules_at r [] h = (Inr None, h)"
| "valid_rules_at r (v # vs) h =
     (let proxy = map_of (ing_Annotations r) webhook_proxyPathAnnotation;
          proxyPath = (case proxy of None \<Rightarrow> [] | Some p \<Rightarrow> p);
          useWeight = (parse_bool (annotation r webhook_useWeightAnnotation) = Some True \<and> proxyPath = [])
      in if proxy \<noteq> None \<and> \<not> ValidHost (rl_Host v)
         then (Inr (Some (Errorf (''proxy-host: '' @ proxyPath @ '' is an invalid value in ingress: '' @ ing_Name r @
                 '', namespace: '' @ ing_Namespace r))), h)
         else
           (case pointed (st_https h) (rl_HTTP v) of
              Some (Some paths0) \<Rightarrow>
                (let paths = (if proxy \<noteq> None then paths0 @ [proxy_path_entry proxyPath] else paths0);
                     h1 = (if proxy \<noteq> None then h\<lparr>st_https := (st_https h)(the (rl_HTTP v) \<mapsto> paths)\<rparr> else h)
                 in case valid_paths r useWeight [] paths of
                      ReturnNil \<Rightarrow> (Inr None, h1)
                    | ReturnErr e \<Rightarrow> (Inr (Some e), h1)
                    | NextRule \<Rightarrow> valid_rules_at r vs h1)
            | _ \<Rightarrow> (Inl (Panic NilDereference), h)))"

definition validate_at :: "place \<Rightarrow> store \<Rightarrow> go_error option result \<times> store" where
  "validate_at p h =
     (case (read_ingress p h, ingress_at h p) of
        (Some v, Some r) \<Rightarrow>
          (case ValidSpec r of
             Some e \<Rightarrow> (Inr (Some e), h)
           | None \<Rightarrow>
               (case slice_at (st_rules h) (sc_Rules (in_Spec v)) of
                  None \<Rightarrow> (Inl (Panic NilDereference), h)
                | Some rs \<Rightarrow> valid_rules_at r rs h))
      | _ \<Rightarrow> (Inl (Panic NilDereference), h))"

text \<open>The objects of the rules, which the decoder makes one by one.\<close>

definition own_paths :: "rule_cell list \<Rightarrow> bool" where
  "own_paths rs \<longleftrightarrow> distinct (List.map_filter rl_HTTP rs)"

lemma own_paths_Cons:
  "own_paths (v # rs) \<longleftrightarrow> (\<forall>a. rl_HTTP v = Some a \<longrightarrow> (\<forall>r\<in>set rs. rl_HTTP r \<noteq> Some a)) \<and> own_paths rs"
  by (cases "rl_HTTP v") (force simp: own_paths_def List.map_filter_def)+

lemma rule_at_other: "rl_HTTP r \<noteq> Some a \<Longrightarrow> rule_at (h\<lparr>st_https := (st_https h)(a \<mapsto> ps)\<rparr>) r = rule_at h r"
  by (simp add: rule_at_def pointed_def split: option.split)

lemma valid_rules_at_refines:
  assumes "own_paths rs" and "list_all2 (\<lambda>r v. rule_at h r = Some v) rs vs"
  shows "\<exists>hs. snd (valid_rules_at r rs h) = h\<lparr>st_https := hs\<rparr> \<and>
    (\<forall>a. (\<forall>c\<in>set rs. rl_HTTP c \<noteq> Some a) \<longrightarrow> hs a = st_https h a) \<and>
    fst (valid_rules_at r rs h) = fst (valid_rules r vs) \<and>
    list_all2 (\<lambda>c v. rule_at (h\<lparr>st_https := hs\<rparr>) c = Some v) rs (snd (valid_rules r vs))"
  using assms
proof (induction rs arbitrary: h vs)
  case Nil
  then show ?case by (auto intro: exI [of _ "st_https h"])
next
  case (Cons c rs)
  then obtain v vs' where vs: "vs = v # vs'" and v: "rule_at h c = Some v"
    and rest: "list_all2 (\<lambda>r v. rule_at h r = Some v) rs vs'" by (auto simp: list_all2_Cons1)
  let ?proxy = "map_of (ing_Annotations r) webhook_proxyPathAnnotation"
  let ?path = "case ?proxy of None \<Rightarrow> [] | Some p \<Rightarrow> p"
  have host: "ir_Host v = rl_Host c" using v by (auto simp: rule_at_def)
  have stay: "snd (valid_rules_at r (c # rs) h) = h \<Longrightarrow> snd (valid_rules r vs) = vs \<Longrightarrow>
    fst (valid_rules_at r (c # rs) h) = fst (valid_rules r vs) \<Longrightarrow> ?case"
    using Cons.prems by (auto intro!: exI [of _ "st_https h"])
  show ?case
  proof (cases "?proxy \<noteq> None \<and> \<not> ValidHost (rl_Host c)")
    case True
    with host vs show ?thesis by (intro stay) (simp_all add: Let_def)
  next
    case ok: False
    show ?thesis
    proof (cases "rl_HTTP c")
      case None
      with v have "ir_HTTP v = None" by (auto simp: rule_at_def pointed_def)
      with None ok host vs show ?thesis by (intro stay) (auto simp: Let_def pointed_def)
    next
      case (Some a)
      with v obtain ps where ps: "st_https h a = Some ps" "v = \<lparr>ir_Host = rl_Host c, ir_HTTP = Some ps\<rparr>"
        by (auto simp: rule_at_def pointed_def)
      define paths where "paths = (if ?proxy \<noteq> None then ps @ [proxy_path_entry ?path] else ps)"
      define h1 where "h1 = h\<lparr>st_https := (st_https h)(a \<mapsto> paths)\<rparr>"
      define verdict where "verdict = valid_paths r
          (parse_bool (annotation r webhook_useWeightAnnotation) = Some True \<and> ?path = []) [] paths"
      have c1: "rule_at h1 c = Some (v\<lparr>ir_HTTP := Some paths\<rparr>)"
        using Some ps by (simp add: rule_at_def pointed_def h1_def)
      have off: "\<forall>r\<in>set rs. rl_HTTP r \<noteq> Some a" and own: "own_paths rs"
        using Cons.prems(1) Some by (auto simp: own_paths_Cons)
      then have rest1: "list_all2 (\<lambda>r v. rule_at h1 r = Some v) rs vs'"
        using rest by (auto simp: h1_def rule_at_other list_all2_conv_all_nth)
      have L: "valid_rules_at r (c # rs) h = (case verdict of ReturnNil \<Rightarrow> (Inr None, h1)
          | ReturnErr e \<Rightarrow> (Inr (Some e), h1) | NextRule \<Rightarrow> valid_rules_at r rs h1)"
        using ok Some ps
        by (auto simp: Let_def pointed_def paths_def h1_def verdict_def map_upd_triv split: paths_verdict.split)
      have R: "valid_rules r vs = (case verdict of ReturnNil \<Rightarrow> (Inr None, v\<lparr>ir_HTTP := Some paths\<rparr> # vs')
          | ReturnErr e \<Rightarrow> (Inr (Some e), v\<lparr>ir_HTTP := Some paths\<rparr> # vs')
          | NextRule \<Rightarrow> (fst (valid_rules r vs'), v\<lparr>ir_HTTP := Some paths\<rparr> # snd (valid_rules r vs')))"
        using ok ps host vs
        by (auto simp: Let_def paths_def verdict_def split: paths_verdict.split prod.split)
      show ?thesis
      proof (cases verdict)
        case NextRule
        from Cons.IH [OF own rest1] obtain hs where
          hs: "snd (valid_rules_at r rs h1) = h1\<lparr>st_https := hs\<rparr>"
            "\<forall>a. (\<forall>c\<in>set rs. rl_HTTP c \<noteq> Some a) \<longrightarrow> hs a = st_https h1 a"
            "fst (valid_rules_at r rs h1) = fst (valid_rules r vs')"
            "list_all2 (\<lambda>c v. rule_at (h1\<lparr>st_https := hs\<rparr>) c = Some v) rs (snd (valid_rules r vs'))" by blast
        have "h1\<lparr>st_https := hs\<rparr> = h\<lparr>st_https := hs\<rparr>" by (simp add: h1_def)
        moreover have "hs a = Some paths" using hs(2) off by (simp add: h1_def)
        ultimately show ?thesis using hs NextRule L R Some ps
          by (auto simp: h1_def rule_at_def pointed_def intro!: exI [of _ hs])
      next
        case ReturnNil
        show ?thesis using L R ReturnNil c1 rest1 Some
          by (auto simp: h1_def intro!: exI [of _ "(st_https h)(a \<mapsto> paths)"])
      next
        case (ReturnErr e)
        show ?thesis using L R ReturnErr c1 rest1 Some
          by (auto simp: h1_def intro!: exI [of _ "(st_https h)(a \<mapsto> paths)"])
      qed
    qed
  qed
qed
definition rules_of :: "place \<Rightarrow> store \<Rightarrow> rule_cell list" where
  "rules_of p h =
     (case Option.bind (read_ingress p h) (\<lambda>v. slice_at (st_rules h) (sc_Rules (in_Spec v))) of
        None \<Rightarrow> [] | Some rs \<Rightarrow> rs)"

lemma spec_at_rules:
  assumes "spec_at h s = Some x"
  shows "\<exists>rs. slice_at (st_rules h) (sc_Rules s) = Some rs \<and> list_all2 (\<lambda>r v. rule_at h r = Some v) rs (Rules x)"
  using assms by (auto simp: spec_at_def bind_eq_Some_conv those_Some)

lemma spec_at_https:
  assumes "spec_at h s = Some x" and "slice_at (st_rules h) (sc_Rules s) = Some rs"
    and "list_all2 (\<lambda>c v. rule_at (h\<lparr>st_https := hs\<rparr>) c = Some v) rs vs"
  shows "spec_at (h\<lparr>st_https := hs\<rparr>) s = Some (x\<lparr>Rules := vs\<rparr>)"
  using assms by (auto simp: spec_at_def bind_eq_Some_conv those_Some)

text \<open>The validation of the object at an address: the verdict of the value, and the writes of the value,
  seen from every address that shares the rules.\<close>

lemma validate_at_shared:
  assumes p: "read_ingress p h = Some v" and i: "value_at h v = Some i" and own: "own_paths (rules_of p h)"
  shows "fst (validate_at p h) = fst (ValidData i) \<and>
    (\<forall>q u j. read_ingress q h = Some u \<longrightarrow> value_at h u = Some j \<longrightarrow> in_Spec u = in_Spec v \<longrightarrow>
       ingress_at (snd (validate_at p h)) q = Some (j\<lparr>ing_Spec := ing_Spec (snd (ValidData i))\<rparr>))"
proof -
  have at: "ingress_at h p = Some i" using p i by (simp add: ingress_at_def)
  have spec: "spec_at h (in_Spec u) = Some (ing_Spec j)" if "value_at h u = Some j" for u j
    using that by (auto simp: value_at_def bind_eq_Some_conv)
  show ?thesis
  proof (cases "ValidSpec i")
    case (Some e)
    have "j\<lparr>ing_Spec := ing_Spec i\<rparr> = j" if "value_at h u = Some j" "in_Spec u = in_Spec v" for u j
      using spec [OF that(1)] spec [OF i] that(2) by simp
    with Some p at show ?thesis by (auto simp: validate_at_def ValidData_def ingress_at_def)
  next
    case None
    from spec [OF i] obtain rs where rs: "slice_at (st_rules h) (sc_Rules (in_Spec v)) = Some rs"
      "list_all2 (\<lambda>r v. rule_at h r = Some v) rs (Rules (ing_Spec i))"
      using spec_at_rules by blast
    then have "own_paths rs" using own p by (simp add: rules_of_def)
    from valid_rules_at_refines [OF this rs(2), of i] obtain hs where
      hs: "snd (valid_rules_at i rs h) = h\<lparr>st_https := hs\<rparr>"
        "fst (valid_rules_at i rs h) = fst (valid_rules i (Rules (ing_Spec i)))"
        "list_all2 (\<lambda>c v. rule_at (h\<lparr>st_https := hs\<rparr>) c = Some v) rs (snd (valid_rules i (Rules (ing_Spec i))))"
      by blast
    have V: "validate_at p h = valid_rules_at i rs h" using None p at rs(1) by (simp add: validate_at_def)
    have D: "ValidData i = (fst (valid_rules i (Rules (ing_Spec i))),
        i\<lparr>ing_Spec := (ing_Spec i)\<lparr>Rules := snd (valid_rules i (Rules (ing_Spec i)))\<rparr>\<rparr>)"
      using None by (simp add: ValidData_def ValidPathAndHost_def split: prod.split)
    have "ingress_at (h\<lparr>st_https := hs\<rparr>) q = Some (j\<lparr>ing_Spec := (ing_Spec i)\<lparr>Rules := snd (valid_rules i (Rules (ing_Spec i)))\<rparr>\<rparr>)"
      if u: "read_ingress q h = Some u" "value_at h u = Some j" "in_Spec u = in_Spec v" for q u j
    proof -
      have "read_ingress q (h\<lparr>st_https := hs\<rparr>) = Some u" using u(1) by (cases q) simp_all
      moreover have "spec_at (h\<lparr>st_https := hs\<rparr>) (in_Spec u) = Some ((ing_Spec i)\<lparr>Rules := snd (valid_rules i (Rules (ing_Spec i)))\<rparr>)"
        using spec_at_https [OF spec [OF i] rs(1) hs(3)] u(3) by simp
      ultimately show ?thesis using u(2) by (auto simp: ingress_at_def value_at_def bind_eq_Some_conv)
    qed
    with V D hs show ?thesis by simp
  qed
qed

section \<open>The list\<close>

lemma extends_item:
  assumes "extends h0 h" and "st_arrays h0 c = None" and "st_maps h \<subseteq>\<^sub>m ms" and "st_next h \<le> n"
  shows "extends h0 (write_ingress (Item c i) x (h\<lparr>st_maps := ms, st_next := n\<rparr>))"
proof -
  have "extends h0 (h\<lparr>st_maps := ms, st_next := n\<rparr>)" using assms extends_trans extends_maps by blast
  with assms(2) show ?thesis by (auto simp: extends_def intro: map_le_fresh split: option.split)
qed

lemma copy_items_eq:
  assumes "copies_meta ml" and "distinct is" and "set is \<subseteq> {..<length vs}" and "a \<noteq> c"
    and "extends h0 h" and "st_arrays h0 a = Some vs" and "st_arrays h0 c = None" and "store_ok h"
    and "st_arrays h c = Some ws" and "length ws = length vs"
    and "\<And>i. i \<in> set is \<Longrightarrow> value_at h0 (vs ! i) = Some (f i)"
  shows "\<exists>h' ws'. copy_items ml a c is h = Inr h' \<and> extends h0 h' \<and> store_ok h' \<and> st_lists h' = st_lists h \<and>
    st_arrays h' c = Some ws' \<and> length ws' = length vs \<and>
    (\<forall>x y. value_at h x = Some y \<longrightarrow> value_at h' x = Some y) \<and>
    (\<forall>i. i \<notin> set is \<longrightarrow> i < length vs \<longrightarrow> ws' ! i = ws ! i) \<and>
    (\<forall>i\<in>set is. value_at h' (ws' ! i) = Some (f i))"
  using assms
proof (induction "is" arbitrary: h ws)
  case Nil
  then show ?case by auto
next
  case (Cons i js)
  have i: "i < length vs" "i \<notin> set js" using Cons.prems by auto
  have "st_arrays h a = Some vs"
    using Cons.prems(5,6) by (force simp: extends_def map_le_def dom_def)
  with i have p: "read_ingress (Item a i) h = Some (vs ! i)" by simp
  have q: "read_ingress (Item c i) h = Some (ws ! i)" using Cons.prems i by simp
  have "Item a i \<noteq> Item c i" using Cons.prems by simp
  from ingress_DeepCopyInto_eq [OF Cons.prems(1,8) p q this] obtain m' ms n where
    eq: "ingress_DeepCopyInto ml (Item a i) (Item c i) h =
      Inr (write_ingress (Item c i) ((vs ! i)\<lparr>in_ObjectMeta := m'\<rparr>) (h\<lparr>st_maps := ms, st_next := n\<rparr>))"
    and m: "meta_copied (in_ObjectMeta (vs ! i)) (write_ingress (Item c i) (vs ! i) h) m' ms n" by blast
  define h1 where "h1 = write_ingress (Item c i) ((vs ! i)\<lparr>in_ObjectMeta := m'\<rparr>) (h\<lparr>st_maps := ms, st_next := n\<rparr>)"
  note m' = meta_copied_write [OF m]
  have ext: "extends h0 h1" unfolding h1_def using Cons.prems(5,7) m' by (intro extends_item) auto
  have ok: "store_ok h1"
    using m' store_ok_write [of "write_ingress (Item c i) (vs ! i) (h\<lparr>st_maps := ms, st_next := n\<rparr>)" "Item c i"] q
    unfolding h1_def by (metis option.distinct(1) read_maps read_write_same write_write)
  have ws1: "st_arrays h1 c = Some (ws[i := (vs ! i)\<lparr>in_ObjectMeta := m'\<rparr>])"
    using Cons.prems(9) by (simp add: h1_def)
  have keep: "value_at h1 x = Some y" if "value_at h x = Some y" for x y
    using value_at_mono [OF extends_maps that] m' by (simp add: h1_def del: write_ingress.simps)
  have vi: "value_at h (vs ! i) = Some (f i)"
    using value_at_mono [OF Cons.prems(5)] Cons.prems(11) by simp
  have ci: "value_at h1 ((vs ! i)\<lparr>in_ObjectMeta := m'\<rparr>) = Some (f i)"
    using value_of_copy [OF m vi] by (simp add: h1_def del: write_ingress.simps)
  have lists: "st_lists h1 = st_lists h" by (simp add: h1_def split: option.split)
  have "\<exists>h' ws'. copy_items ml a c js h1 = Inr h' \<and> extends h0 h' \<and> store_ok h' \<and> st_lists h' = st_lists h1 \<and>
    st_arrays h' c = Some ws' \<and> length ws' = length vs \<and>
    (\<forall>x y. value_at h1 x = Some y \<longrightarrow> value_at h' x = Some y) \<and>
    (\<forall>k. k \<notin> set js \<longrightarrow> k < length vs \<longrightarrow> ws' ! k = ws[i := (vs ! i)\<lparr>in_ObjectMeta := m'\<rparr>] ! k) \<and>
    (\<forall>k\<in>set js. value_at h' (ws' ! k) = Some (f k))"
    using Cons.prems ext ok ws1 by (intro Cons.IH) auto
  then obtain h' ws' where h': "copy_items ml a c js h1 = Inr h'" "extends h0 h'" "store_ok h'" "st_lists h' = st_lists h1"
    "st_arrays h' c = Some ws'" "length ws' = length vs" "\<forall>x y. value_at h1 x = Some y \<longrightarrow> value_at h' x = Some y"
    "\<forall>k. k \<notin> set js \<longrightarrow> k < length vs \<longrightarrow> ws' ! k = ws[i := (vs ! i)\<lparr>in_ObjectMeta := m'\<rparr>] ! k"
    "\<forall>k\<in>set js. value_at h' (ws' ! k) = Some (f k)" by blast
  have "ws' ! i = (vs ! i)\<lparr>in_ObjectMeta := m'\<rparr>" using h'(8) i Cons.prems(10) by simp
  with h'(7) ci have "value_at h' (ws' ! i) = Some (f i)" by simp
  moreover have "copy_items ml a c (i # js) h = Inr h'" using eq h'(1) by (simp add: h1_def del: write_ingress.simps)
  moreover have "ws' ! k = ws ! k" if "k \<notin> set (i # js)" "k < length vs" for k
    using h'(8) that by auto
  moreover have "\<forall>x y. value_at h x = Some y \<longrightarrow> value_at h' x = Some y" using keep h'(7) by blast
  ultimately show ?case using h' lists by (intro exI [of _ h'] exI [of _ ws']) auto
qed
lemma list_DeepCopy_eq:
  assumes ml: "copies_meta ml" and ok: "store_ok h" and p: "st_lists h p = Some v"
    and a: "li_Items v = Some a" and vs: "st_arrays h a = Some vs"
    and f: "\<And>i. i < length vs \<Longrightarrow> value_at h (vs ! i) = Some (f i)"
  shows "\<exists>h' c ws. list_DeepCopy ml (Some p) h = Inr (Some (st_next h), h') \<and> extends h h' \<and> store_ok h' \<and>
    st_lists h' (st_next h) = Some (v\<lparr>li_Items := Some c\<rparr>) \<and> st_next h < c \<and>
    st_arrays h' c = Some ws \<and> length ws = length vs \<and> (\<forall>i<length vs. value_at h' (ws ! i) = Some (f i))"
proof -
  let ?b = "st_next h"
  let ?c = "Suc ?b"
  define h5 where "h5 = h\<lparr>st_next := Suc ?c, st_arrays := (st_arrays h)(?c \<mapsto> replicate (length vs) zero_ingress),
      st_lists := (st_lists h)(?b \<mapsto> v\<lparr>li_Items := Some ?c\<rparr>)\<rparr>"
  have fresh: "st_lists h ?b = None" "st_arrays h ?c = None" using ok by (simp_all add: store_ok_def)
  have ext: "extends h h5" using fresh by (auto simp: extends_def h5_def intro: map_le_fresh)
  have ok5: "store_ok h5" using ok by (auto simp: store_ok_def h5_def)
  have "p \<noteq> ?b" "a \<noteq> ?c" using p vs fresh by auto
  then have step: "list_DeepCopy ml (Some p) h = ebind (copy_items ml a ?c [0..<length vs] h5) (\<lambda>h2. Inr (Some ?b, h2))"
    using ml p a vs
    by (simp add: list_DeepCopy_def list_DeepCopyInto_def new_list_def make_items_def copies_meta_def h5_def)
  have "\<exists>h' ws'. copy_items ml a ?c [0..<length vs] h5 = Inr h' \<and> extends h h' \<and> store_ok h' \<and>
    st_lists h' = st_lists h5 \<and> st_arrays h' ?c = Some ws' \<and> length ws' = length vs \<and>
    (\<forall>x y. value_at h5 x = Some y \<longrightarrow> value_at h' x = Some y) \<and>
    (\<forall>i. i \<notin> set [0..<length vs] \<longrightarrow> i < length vs \<longrightarrow> ws' ! i = replicate (length vs) zero_ingress ! i) \<and>
    (\<forall>i\<in>set [0..<length vs]. value_at h' (ws' ! i) = Some (f i))"
    using ml ext vs fresh ok5 f \<open>a \<noteq> ?c\<close> by (intro copy_items_eq) (auto simp: h5_def)
  then obtain h' ws' where h': "copy_items ml a ?c [0..<length vs] h5 = Inr h'" "extends h h'" "store_ok h'"
    "st_lists h' = st_lists h5" "st_arrays h' ?c = Some ws'" "length ws' = length vs"
    "\<forall>i\<in>set [0..<length vs]. value_at h' (ws' ! i) = Some (f i)" by blast
  then show ?thesis using step by (intro exI [of _ h'] exI [of _ ?c] exI [of _ ws']) (simp add: h5_def)
qed

section \<open>A store to look at\<close>

text \<open>Metadata copied as documented, and a store with one ingress that has the proxy annotation.\<close>

definition plain_library :: meta_library where
  "plain_library =
     \<lparr>ml_ObjectMeta = (\<lambda>m h. case om_Annotations m of
        None \<Rightarrow> (m, h\<lparr>st_maps := st_maps h, st_next := st_next h\<rparr>)
      | Some a \<Rightarrow> (m\<lparr>om_Annotations := Some (st_next h)\<rparr>,
          h\<lparr>st_maps := (st_maps h)(st_next h := st_maps h a), st_next := Suc (st_next h)\<rparr>)),
      ml_ListMeta = (\<lambda>m h. (m, h))\<rparr>"

lemma plain_library_copies: "copies_meta plain_library"
proof -
  have le: "m \<subseteq>\<^sub>m m(b := x)" if "m b = None" for m b and x :: "'a option"
    using that by (auto simp: map_le_def dom_def)
  have "\<exists>m' ms n. ml_ObjectMeta plain_library m h = (m', h\<lparr>st_maps := ms, st_next := n\<rparr>) \<and> meta_copied m h m' ms n"
    if ok: "store_ok h" for m h
  proof (cases "om_Annotations m")
    case None
    with ok show ?thesis
      by (intro exI [of _ m] exI [of _ "st_maps h"] exI [of _ "st_next h"]) (simp add: plain_library_def meta_copied_def)
  next
    case (Some a)
    have "st_maps h (st_next h) = None" using ok by (simp add: store_ok_def)
    with Some ok show ?thesis
      by (intro exI [of _ "m\<lparr>om_Annotations := Some (st_next h)\<rparr>"] exI [of _ "(st_maps h)(st_next h := st_maps h a)"]
          exI [of _ "Suc (st_next h)"])
        (auto simp: plain_library_def meta_copied_def store_ok_def slice_at_def intro: le)
  qed
  then show ?thesis by (simp add: copies_meta_def plain_library_def)
qed

definition proxied_store :: store where
  "proxied_store =
     \<lparr>st_next = 5,
      st_maps = [0 \<mapsto> [(webhook_proxyPathAnnotation, ''/api'')]],
      st_backends = Map.empty, st_tls = Map.empty,
      st_rules = [1 \<mapsto> [\<lparr>rl_Host = ''a.example'', rl_HTTP = Some 2\<rparr>]],
      st_https = [2 \<mapsto> [\<lparr>hp_Path = ''/shop'', hp_PathType = None, hp_Backend = \<lparr>ib_Service = None\<rparr>\<rparr>]],
      st_ingresses = [3 \<mapsto> zero_ingress\<lparr>in_ObjectMeta := \<lparr>om_Name = ''shop'', om_Namespace = ''web'', om_Annotations = Some 0\<rparr>,
         in_Spec := zero_spec\<lparr>sc_Rules := Some 1\<rparr>\<rparr>],
      st_arrays = [4 \<mapsto> [zero_ingress\<lparr>in_ObjectMeta := \<lparr>om_Name = ''shop'', om_Namespace = ''web'', om_Annotations = Some 0\<rparr>\<rparr>, zero_ingress]],
      st_lists = [4 \<mapsto> zero_list\<lparr>li_Items := Some 4\<rparr>],
      st_specs = Map.empty, st_statuses = Map.empty\<rparr>"

definition proxied_value :: ingress where
  "proxied_value =
     \<lparr>ing_Name = ''shop'', ing_Namespace = ''web'', ing_Annotations = [(webhook_proxyPathAnnotation, ''/api'')],
      ing_Spec = \<lparr>IngressClassName = [], DefaultBackend = None, TLS = [],
        Rules = [\<lparr>ir_Host = ''a.example'', ir_HTTP = Some [\<lparr>hp_Path = ''/shop'', hp_PathType = None, hp_Backend = \<lparr>ib_Service = None\<rparr>\<rparr>]\<rparr>]\<rparr>\<rparr>"

lemma proxied_store_ok: "store_ok proxied_store"
  by (simp add: store_ok_def proxied_store_def)

lemma proxied_store_at: "ingress_at proxied_store (Whole 3) = Some proxied_value"
  by (simp add: ingress_at_def value_at_def spec_at_def rule_at_def pointed_def slice_at_def proxied_store_def
      proxied_value_def zero_ingress_def zero_spec_def)

lemma proxied_store_own: "own_paths (rules_of (Whole 3) proxied_store)"
  by (simp add: own_paths_def List.map_filter_def rules_of_def slice_at_def proxied_store_def zero_spec_def)

section \<open>Properties\<close>

text \<open>C37. A deep copy of an ingress is a new object that reads as the original did, everything that could
  be read before reads as it did, and writing the annotations of the copy leaves the original alone.\<close>

theorem deep_copy_equal:
  assumes "copies_meta ml" and "store_ok h" and "ingress_at h p = Some i"
  shows "\<exists>b h' v. ingress_DeepCopy ml (Some p) h = Inr (Some b, h') \<and> read_ingress (Whole b) h = None \<and>
    ingress_at h' (Whole b) = Some i \<and> (\<forall>q j. ingress_at h q = Some j \<longrightarrow> ingress_at h' q = Some j) \<and>
    read_ingress (Whole b) h' = Some v \<and>
    (\<forall>a m. om_Annotations (in_ObjectMeta v) = Some a \<longrightarrow>
       ingress_at (h'\<lparr>st_maps := (st_maps h')(a \<mapsto> m)\<rparr>) p = Some i)"
proof -
  from assms(3) obtain v where v: "read_ingress p h = Some v" "value_at h v = Some i"
    by (auto simp: ingress_at_def bind_eq_Some_conv)
  from ingress_DeepCopy_eq [OF assms(1,2) v(1)] v(2) obtain h' m' where
    c: "ingress_DeepCopy ml (Some p) h = Inr (Some (st_next h), h')" "extends h h'"
    "read_ingress (Whole (st_next h)) h' = Some (v\<lparr>in_ObjectMeta := m'\<rparr>)"
    "value_at h' (v\<lparr>in_ObjectMeta := m'\<rparr>) = Some i"
    "\<forall>a. om_Annotations m' = Some a \<longrightarrow> st_next h < a" by blast
  have "read_ingress (Whole (st_next h)) h = None" using assms(2) by (simp add: store_ok_def)
  moreover have "ingress_at (h'\<lparr>st_maps := (st_maps h')(a \<mapsto> m)\<rparr>) p = Some i" if "om_Annotations m' = Some a" for a m
  proof (rule value_with_map)
    show "st_next h \<le> a" using c(5) that by simp
  qed (use assms(2) v c(2) in auto)
  ultimately show ?thesis using c ingress_at_mono
    by (intro exI [of _ "st_next h"] exI [of _ h'] exI [of _ "v\<lparr>in_ObjectMeta := m'\<rparr>"]) (auto simp: ingress_at_def)
qed

theorem deep_copy_equal_witness:
  "\<exists>b h' v. ingress_DeepCopy plain_library (Some (Whole 3)) proxied_store = Inr (Some b, h') \<and>
    read_ingress (Whole b) proxied_store = None \<and>
    ingress_at h' (Whole b) = Some proxied_value \<and> (\<forall>q j. ingress_at proxied_store q = Some j \<longrightarrow> ingress_at h' q = Some j) \<and>
    read_ingress (Whole b) h' = Some v \<and>
    (\<forall>a m. om_Annotations (in_ObjectMeta v) = Some a \<longrightarrow>
       ingress_at (h'\<lparr>st_maps := (st_maps h')(a \<mapsto> m)\<rparr>) (Whole 3) = Some proxied_value)"
  by (rule deep_copy_equal [OF plain_library_copies proxied_store_ok proxied_store_at])

text \<open>C36. The deep copy shares its rules with the original: what the validation of the webhook writes
  into the copy is written into the original.\<close>

theorem deep_copy_shares_rules:
  assumes "copies_meta ml" and "store_ok h" and "ingress_at h p = Some i" and "own_paths (rules_of p h)"
  shows "\<exists>b h'. ingress_DeepCopy ml (Some p) h = Inr (Some b, h') \<and> Whole b \<noteq> p \<and>
    fst (validate_at (Whole b) h') = fst (ValidData i) \<and>
    ingress_at (snd (validate_at (Whole b) h')) p = Some (i\<lparr>ing_Spec := ing_Spec (snd (ValidData i))\<rparr>)"
proof -
  from assms(3) obtain v where v: "read_ingress p h = Some v" "value_at h v = Some i"
    by (auto simp: ingress_at_def bind_eq_Some_conv)
  from ingress_DeepCopy_eq [OF assms(1,2) v(1)] v(2) obtain h' m' where
    c: "ingress_DeepCopy ml (Some p) h = Inr (Some (st_next h), h')" "extends h h'"
    "read_ingress (Whole (st_next h)) h' = Some (v\<lparr>in_ObjectMeta := m'\<rparr>)"
    "value_at h' (v\<lparr>in_ObjectMeta := m'\<rparr>) = Some i" by blast
  have "spec_at h (in_Spec v) = Some (ing_Spec i)" using v(2) by (auto simp: value_at_def bind_eq_Some_conv)
  then obtain rs where rs: "slice_at (st_rules h) (sc_Rules (in_Spec v)) = Some rs" using spec_at_rules by blast
  moreover have "slice_at (st_rules h') (sc_Rules (in_Spec v)) = Some rs"
    using slice_at_mono rs c(2) by (auto simp: extends_def)
  ultimately have own: "own_paths (rules_of (Whole (st_next h)) h')"
    using assms(4) v(1) c(3) by (simp add: rules_of_def del: read_ingress.simps)
  have "Whole (st_next h) \<noteq> p" using v(1) assms(2) by (auto simp: store_ok_def)
  moreover note validate_at_shared [OF c(3,4) own]
  moreover have "read_ingress p h' = Some v" "value_at h' v = Some i"
    using read_mono [OF c(2)] value_at_mono [OF c(2)] v by blast+
  ultimately show ?thesis using c(1) by (intro exI [of _ "st_next h"] exI [of _ h']) simp
qed

theorem deep_copy_shares_rules_witness:
  "\<exists>b h'. ingress_DeepCopy plain_library (Some (Whole 3)) proxied_store = Inr (Some b, h') \<and> Whole b \<noteq> Whole 3 \<and>
    fst (validate_at (Whole b) h') = Inr None \<and>
    ingress_at (snd (validate_at (Whole b) h')) (Whole 3) \<noteq> Some proxied_value"
proof -
  have "fst (ValidData proxied_value) = Inr None \<and>
      proxied_value\<lparr>ing_Spec := ing_Spec (snd (ValidData proxied_value))\<rparr> \<noteq> proxied_value"
    by code_simp
  with deep_copy_shares_rules [OF plain_library_copies proxied_store_ok proxied_store_at proxied_store_own]
  show ?thesis by auto
qed

text \<open>A deep copy of a list has an array of its own, whose items read as those of the original.\<close>

theorem list_copy_items:
  assumes "copies_meta ml" and "store_ok h" and "st_lists h p = Some v" and "li_Items v = Some a"
    and "st_arrays h a = Some vs" and "\<forall>i<length vs. ingress_at h (Item a i) \<noteq> None"
  shows "\<exists>b h' c ws. list_DeepCopy ml (Some p) h = Inr (Some b, h') \<and> st_lists h b = None \<and>
    st_lists h' b = Some (v\<lparr>li_Items := Some c\<rparr>) \<and> st_arrays h c = None \<and>
    st_arrays h' c = Some ws \<and> length ws = length vs \<and>
    (\<forall>i<length vs. ingress_at h' (Item c i) = ingress_at h (Item a i)) \<and>
    (\<forall>q j. ingress_at h q = Some j \<longrightarrow> ingress_at h' q = Some j)"
proof -
  let ?f = "\<lambda>i. the (value_at h (vs ! i))"
  have f: "value_at h (vs ! i) = Some (?f i)" if "i < length vs" for i
    using assms(5,6) that by (auto simp: ingress_at_def)
  from list_DeepCopy_eq [OF assms(1-5) f] obtain h' c ws where
    h': "list_DeepCopy ml (Some p) h = Inr (Some (st_next h), h')" "extends h h'"
    "st_lists h' (st_next h) = Some (v\<lparr>li_Items := Some c\<rparr>)" "st_next h < c"
    "st_arrays h' c = Some ws" "length ws = length vs" "\<forall>i<length vs. value_at h' (ws ! i) = Some (?f i)" by blast
  have "\<forall>i<length vs. ingress_at h' (Item c i) = ingress_at h (Item a i)"
    using h' assms(5) f by (simp add: ingress_at_def)
  moreover have "st_lists h (st_next h) = None" "st_arrays h c = None"
    using assms(2) h'(4) by (simp_all add: store_ok_def)
  ultimately show ?thesis using h' ingress_at_mono by blast
qed

theorem list_copy_items_witness:
  "\<exists>b h' c ws. list_DeepCopy plain_library (Some 4) proxied_store = Inr (Some b, h') \<and> st_lists proxied_store b = None \<and>
    st_lists h' b = Some (zero_list\<lparr>li_Items := Some c\<rparr>) \<and> st_arrays proxied_store c = None \<and>
    st_arrays h' c = Some ws \<and> length ws = 2"
proof -
  have 1: "st_lists proxied_store 4 = Some (zero_list\<lparr>li_Items := Some 4\<rparr>)" by (simp add: proxied_store_def)
  have 2: "li_Items (zero_list\<lparr>li_Items := Some 4\<rparr>) = Some 4" by simp
  obtain vs where vs: "st_arrays proxied_store 4 = Some vs" "length vs = 2" by (simp add: proxied_store_def)
  have "ingress_at proxied_store (Item 4 i) \<noteq> None" if "i < 2" for i
    using that by (cases i) (auto simp: ingress_at_def value_at_def spec_at_def pointed_def slice_at_def
        proxied_store_def zero_ingress_def zero_spec_def)
  with vs(2) have "\<forall>i<length vs. ingress_at proxied_store (Item 4 i) \<noteq> None" by simp
  from list_copy_items [OF plain_library_copies proxied_store_ok 1 2 vs(1) this] show ?thesis
    unfolding vs(2) by fastforce
qed


end
