(* ===== verification/Startup.thy ===== *)
theory Startup
  imports KErrors
begin

text \<open>
  \<^verbatim>\<open>cmd/main.go\<close> and the set-up in \<^verbatim>\<open>internal/controller/ingress_controller.go\<close>: the
  options of the manager, the client the controller makes for itself, and the order of the steps until
  the manager runs. The libraries are a record of functions; what is kept of their calls is whether
  they fail. The parsed flags are an argument.
\<close>

section \<open>The options\<close>

record cmd_flags =
  metricsAddr :: string
  probeAddr :: string
  enableLeaderElection :: bool
  secureMetrics :: bool
  enableHTTP2 :: bool

definition default_flags :: cmd_flags where
  "default_flags = \<lparr>metricsAddr = '':8080'', probeAddr = '':8081'', enableLeaderElection = False,
     secureMetrics = False, enableHTTP2 = False\<rparr>"

record tls_config =
  NextProtos :: "string list"

definition disableHTTP2 :: "tls_config \<Rightarrow> tls_config" where
  "disableHTTP2 c = c\<lparr>NextProtos := [''http/1.1'']\<rparr>"

definition tlsOpts :: "cmd_flags \<Rightarrow> (tls_config \<Rightarrow> tls_config) list" where
  "tlsOpts fl = (if \<not> enableHTTP2 fl then [disableHTTP2] else [])"

record manager_options =
  mo_MetricsBindAddress :: string
  mo_SecureServing :: bool
  mo_MetricsTLSOpts :: "(tls_config \<Rightarrow> tls_config) list"
  mo_WebhookTLSOpts :: "(tls_config \<Rightarrow> tls_config) list"
  mo_HealthProbeBindAddress :: string
  mo_LeaderElection :: bool
  mo_LeaderElectionID :: string

definition manager_options_of :: "cmd_flags \<Rightarrow> manager_options" where
  "manager_options_of fl =
     \<lparr>mo_MetricsBindAddress = metricsAddr fl, mo_SecureServing = secureMetrics fl, mo_MetricsTLSOpts = tlsOpts fl,
      mo_WebhookTLSOpts = tlsOpts fl, mo_HealthProbeBindAddress = probeAddr fl,
      mo_LeaderElection = enableLeaderElection fl, mo_LeaderElectionID = ''6d7d1050.nginx.kubebuilder.io''\<rparr>"

section \<open>The steps\<close>

record 'cfg libraries =
  lb_GetConfig :: "go_error + 'cfg"
  lb_NewManager :: "'cfg \<Rightarrow> manager_options \<Rightarrow> go_error option"
  lb_BuildConfigFromFlags :: "go_error + 'cfg"
  lb_InClusterConfig :: "go_error + 'cfg"
  lb_NewForConfig :: "'cfg \<Rightarrow> go_error option"
  lb_NewController :: "go_error option"
  lb_NewWebhook :: "go_error option"
  lb_AddCheck :: "string \<Rightarrow> go_error option"
  lb_Start :: "go_error option"

datatype startup_event =
    ManagerMade manager_options
  | NginxStarted
  | DynamicClientMade
  | ControllerAdded
  | WebhookAdded
  | CheckAdded string
  | ManagerStarted

text \<open>A call that makes a step, or fails; an error that the caller answers with the end of the process.\<close>

definition attempt :: "startup_event \<Rightarrow> go_error option \<Rightarrow> startup_event list \<Rightarrow> unit result \<times> startup_event list" where
  "attempt ev err l = (case err of Some e \<Rightarrow> (Inl (Err e), l) | None \<Rightarrow> (Inr (), l @ [ev]))"

fun or_exit :: "unit result \<times> 's \<Rightarrow> unit result \<times> 's" where
  "or_exit (Inl (Err e), l) = (Inl Exit, l)"
| "or_exit rl = rl"

definition createDynamicClientSet :: "'cfg libraries \<Rightarrow> startup_event list \<Rightarrow> unit result \<times> startup_event list" where
  "createDynamicClientSet lib l =
     (let dynamic_for = (\<lambda>configSet. or_exit (attempt DynamicClientMade (lb_NewForConfig lib configSet) l))
      in case lb_BuildConfigFromFlags lib of
           Inl _ \<Rightarrow>
             (case lb_InClusterConfig lib of
                Inl _ \<Rightarrow> (Inl Exit, l)
              | Inr inClusterConfig \<Rightarrow> dynamic_for inClusterConfig)
         | Inr configSet \<Rightarrow> dynamic_for configSet)"

text \<open>The goroutine that starts nginx is under way before anything else is set up.\<close>

definition SetupWithManager :: "'cfg libraries \<Rightarrow> startup_event list \<Rightarrow> unit result \<times> startup_event list" where
  "SetupWithManager lib l =
     sbind (createDynamicClientSet lib (l @ [NginxStarted])) (\<lambda>_. attempt ControllerAdded (lb_NewController lib))"

definition SetupWebhookWithManager :: "'cfg libraries \<Rightarrow> startup_event list \<Rightarrow> unit result \<times> startup_event list" where
  "SetupWebhookWithManager lib = attempt WebhookAdded (lb_NewWebhook lib)"

definition main_steps :: "'cfg libraries \<Rightarrow> cmd_flags \<Rightarrow> unit result \<times> startup_event list" where
  "main_steps lib fl =
     (case lb_GetConfig lib of
        Inl _ \<Rightarrow> (Inl Exit, [])
      | Inr cfg \<Rightarrow>
          sbind (or_exit (attempt (ManagerMade (manager_options_of fl)) (lb_NewManager lib cfg (manager_options_of fl)) [])) (\<lambda>_ l1.
          sbind (or_exit (SetupWithManager lib l1)) (\<lambda>_ l2.
          sbind (or_exit (SetupWebhookWithManager lib l2)) (\<lambda>_ l3.
          sbind (or_exit (attempt (CheckAdded ''healthz'') (lb_AddCheck lib ''healthz'') l3)) (\<lambda>_ l4.
          sbind (or_exit (attempt (CheckAdded ''readyz'') (lb_AddCheck lib ''readyz'') l4)) (\<lambda>_ l5.
          or_exit (attempt ManagerStarted (lb_Start lib) l5)))))))"

section \<open>Properties\<close>

text \<open>The whole way, and how far a run of it came.\<close>

definition startup_order :: "cmd_flags \<Rightarrow> startup_event list" where
  "startup_order fl =
     [ManagerMade (manager_options_of fl), NginxStarted, DynamicClientMade, ControllerAdded, WebhookAdded,
      CheckAdded ''healthz'', CheckAdded ''readyz'', ManagerStarted]"

definition came_to :: "cmd_flags \<Rightarrow> nat \<Rightarrow> unit result \<times> startup_event list \<Rightarrow> bool" where
  "came_to fl n rl \<longleftrightarrow> rl = (Inr (), take n (startup_order fl)) \<or>
     (\<exists>k<n. rl = (Inl Exit, take k (startup_order fl)))"

lemma came_to_step:
  assumes "came_to fl n m" and "\<And>l. l = take n (startup_order fl) \<Longrightarrow> came_to fl n' (f () l)" and "n \<le> n'"
  shows "came_to fl n' (sbind m f)"
  using assms by (auto simp: came_to_def dest: less_le_trans)

lemma came_to_attempt:
  assumes "l = take n (startup_order fl)" and "n < length (startup_order fl)" and "startup_order fl ! n = ev"
  shows "came_to fl (Suc n) (or_exit (attempt ev err l))"
  using assms by (auto simp: came_to_def attempt_def take_Suc_conv_app_nth split: option.split)

lemma came_to_dynamic:
  assumes "l = take 2 (startup_order fl)"
  shows "came_to fl 3 (createDynamicClientSet lib l)"
proof -
  have "came_to fl 3 (or_exit (attempt DynamicClientMade err l))" for err
    using came_to_attempt [of l 2 fl DynamicClientMade err] assms by (simp add: startup_order_def numeral_3_eq_3 numeral_2_eq_2)
  moreover have "came_to fl 3 (Inl Exit, l)"
    unfolding came_to_def using assms by (intro disjI2 exI [of _ 2]) simp
  ultimately show ?thesis
    unfolding createDynamicClientSet_def Let_def by (simp split: sum.split)
qed

lemma or_exit_sbind:
  assumes "came_to fl n m"
  shows "or_exit (sbind m f) = sbind m (\<lambda>a l. or_exit (f a l))"
  using assms by (auto simp: came_to_def)

lemma came_to_setup:
  assumes "l = take 1 (startup_order fl)"
  shows "came_to fl 4 (or_exit (SetupWithManager lib l))"
proof -
  have "l @ [NginxStarted] = take 2 (startup_order fl)" using assms by (simp add: startup_order_def)
  note dyn = came_to_dynamic [OF this, of lib]
  have "came_to fl 4 (or_exit (attempt ControllerAdded (lb_NewController lib) l'))" if "l' = take 3 (startup_order fl)" for l'
    using came_to_attempt [OF that, of ControllerAdded] by (simp add: startup_order_def)
  then have "came_to fl 4 (sbind (createDynamicClientSet lib (l @ [NginxStarted]))
      (\<lambda>_ l'. or_exit (attempt ControllerAdded (lb_NewController lib) l')))"
    by (intro came_to_step [OF dyn]) simp_all
  then show ?thesis unfolding SetupWithManager_def or_exit_sbind [OF dyn] .
qed

text \<open>C34. The start makes its steps in one order, whatever fails: a run that returns has made all of them,
  and any other ends the process after some of them. The goroutine of nginx starts before the
  controller is registered. Unless HTTP/2 is switched on, every server of the manager offers HTTP/1.1
  only.\<close>

theorem startup_in_order:
  "came_to fl 8 (main_steps lib fl) \<and> length (startup_order fl) = 8 \<and>
   NextProtos (fold (\<lambda>f. f) (mo_MetricsTLSOpts (manager_options_of fl)) c) =
     (if enableHTTP2 fl then NextProtos c else [''http/1.1'']) \<and>
   mo_WebhookTLSOpts (manager_options_of fl) = mo_MetricsTLSOpts (manager_options_of fl)"
proof (intro conjI)
  show "came_to fl 8 (main_steps lib fl)"
  proof (cases "lb_GetConfig lib")
    case (Inl e)
    then show ?thesis by (auto simp: main_steps_def came_to_def intro: exI [of _ 0])
  next
    case (Inr cfg)
    have last: "came_to fl 8 (or_exit (attempt ManagerStarted err l))" if "l = take 7 (startup_order fl)" for l err
      using came_to_attempt [OF that, of ManagerStarted] by (simp add: startup_order_def)
    have ready: "came_to fl 7 (or_exit (attempt (CheckAdded ''readyz'') err l))" if "l = take 6 (startup_order fl)" for l err
      using came_to_attempt [OF that, of "CheckAdded ''readyz''"] by (simp add: startup_order_def)
    have health: "came_to fl 6 (or_exit (attempt (CheckAdded ''healthz'') err l))" if "l = take 5 (startup_order fl)" for l err
      using came_to_attempt [OF that, of "CheckAdded ''healthz''"] by (simp add: startup_order_def)
    have hook: "came_to fl 5 (or_exit (attempt WebhookAdded err l))" if "l = take 4 (startup_order fl)" for l err
      using came_to_attempt [OF that, of WebhookAdded] by (simp add: startup_order_def)
    have first: "came_to fl 1 (or_exit (attempt (ManagerMade (manager_options_of fl)) err []))" for err
      using came_to_attempt [of "[]" 0 fl "ManagerMade (manager_options_of fl)"] by (simp add: startup_order_def)
    show ?thesis
      unfolding main_steps_def Inr sum.case SetupWebhookWithManager_def
      by (intro came_to_step [OF first] came_to_step [OF came_to_setup] came_to_step [OF hook]
          came_to_step [OF health] came_to_step [OF ready] last) simp_all
  qed
qed (simp_all add: startup_order_def manager_options_of_def tlsOpts_def disableHTTP2_def)

end
