(* ===== verification/Watcher.thy ===== *)
theory Watcher
  imports NginxReload
begin

text \<open>
  Watching the directories and starting nginx: \<^verbatim>\<open>pkg/utils/file/file_watcher.go\<close> and
  \<^verbatim>\<open>Start\<close>, \<^verbatim>\<open>dirWatcher\<close> of \<^verbatim>\<open>internal/nginx/nginx.go\<close>. A watcher is a loop over what
  its two channels deliver; the library that delivers it is outside the repository. The goroutine of
  \<^verbatim>\<open>Start\<close> is a step relation, since the order in which the timer, the channel and the
  process become ready is not fixed.
\<close>

section \<open>A watcher\<close>

datatype fs_op = CreateOp | WriteOp | RemoveOp | RenameOp | ChmodOp

text \<open>An event carries a set of operations: \<^verbatim>\<open>Has\<close> asks for one of them.\<close>

type_synonym fs_event = "fs_op list"

definition event_Has :: "fs_event \<Rightarrow> fs_op \<Rightarrow> bool" where
  "event_Has event h = (h \<in> set event)"

datatype delivery =
    Event fs_event
  | EventsClosed
  | WatchError string
  | ErrorsClosed

text \<open>The function a watcher calls is always \<^verbatim>\<open>reloadIfWatchFileCurd\<close>; the pointer to the watcher of the
  library is set or nil.\<close>

record WatcherFile =
  wf_dir :: string
  wf_watcher :: bool

text \<open>The two calls of the library that can fail: the first after some watchers were made, the second for a directory.\<close>

record fsnotify =
  fn_NewWatcher :: "WatcherFile list \<Rightarrow> go_error option"
  fn_Add :: "string \<Rightarrow> go_error option"

text \<open>
  The method \<^verbatim>\<open>watch\<close> up to its return: the goroutine is started before the directory is added, so it
  runs also when that fails. The list holds the watchers whose goroutine was started.
\<close>

definition start_watch ::
    "fsnotify \<Rightarrow> WatcherFile \<Rightarrow> WatcherFile list \<Rightarrow> (WatcherFile \<times> go_error option) \<times> WatcherFile list" where
  "start_watch lib w running =
     (case fn_NewWatcher lib running of
        Some err \<Rightarrow> ((w, Some err), running)
      | None \<Rightarrow>
          (let w1 = w\<lparr>wf_watcher := True\<rparr>
           in ((w1, fn_Add lib (wf_dir w1)), running @ [w1])))"

definition NewFileWatcher ::
    "fsnotify \<Rightarrow> string \<Rightarrow> WatcherFile list \<Rightarrow> (WatcherFile \<times> go_error option) \<times> WatcherFile list" where
  "NewFileWatcher lib dir running = start_watch lib \<lparr>wf_dir = dir, wf_watcher = False\<rparr> running"

definition calls_back :: "WatcherFile \<Rightarrow> fs_event \<Rightarrow> bool" where
  "calls_back w event =
     (if wf_dir w = ConfDir \<and> event_Has event RemoveOp then True
      else if wf_dir w = SslPath \<and> (event_Has event WriteOp \<or> event_Has event CreateOp) then True
      else False)"

text \<open>The loop, over the deliveries in the order they are taken; it ends when a channel is closed.\<close>

fun watch :: "nginx_env \<Rightarrow> WatcherFile \<Rightarrow> delivery list \<Rightarrow> world \<Rightarrow> unit result \<times> world" where
  "watch env fw [] w = (Inr (), w)"
| "watch env fw (Event e # ds) w =
     (if calls_back fw e
      then sbind (reloadIfWatchFileCurd env w) (\<lambda>_ w1. watch env fw ds w1)
      else watch env fw ds w)"
| "watch env fw (EventsClosed # ds) w = (Inr (), w)"
| "watch env fw (WatchError m # ds) w = watch env fw ds w"
| "watch env fw (ErrorsClosed # ds) w = (Inr (), w)"

text \<open>The two watchers that are set up; \<^verbatim>\<open>klog.Fatal\<close> ends the process.\<close>

definition dirWatcher :: "fsnotify \<Rightarrow> WatcherFile list \<Rightarrow> unit result \<times> WatcherFile list" where
  "dirWatcher lib running =
     (case NewFileWatcher lib SslPath running of
        ((_, Some err), running1) \<Rightarrow> (Inl Exit, running1)
      | ((_, None), running1) \<Rightarrow>
          (case NewFileWatcher lib ConfDir running1 of
             ((_, Some err), running2) \<Rightarrow> (Inl Exit, running2)
           | ((_, None), running2) \<Rightarrow> (Inr (), running2)))"

section \<open>Starting nginx\<close>

datatype phase =
    Polling
  | Watching      \<comment> \<open>\<^verbatim>\<open>dirWatcher\<close> was called and the goroutine returned\<close>
  | TimedOut
  | Crashed       \<comment> \<open>closing a closed channel panics\<close>
  | Ended         \<comment> \<open>a directory cannot be watched: the process is ended\<close>

record start_state =
  sa_phase :: phase
  sa_done :: bool        \<comment> \<open>the channel \<^verbatim>\<open>done\<close> is closed\<close>
  sa_timer :: bool       \<comment> \<open>the timer has fired\<close>
  sa_seen :: bool        \<comment> \<open>\<^verbatim>\<open>isRunning\<close> has answered yes\<close>
  sa_watchers :: "WatcherFile list"   \<comment> \<open>the watchers that were started\<close>

definition start_init :: start_state where
  "start_init = \<lparr>sa_phase = Polling, sa_done = False, sa_timer = False, sa_seen = False, sa_watchers = []\<rparr>"

text \<open>\<^verbatim>\<open>close(done)\<close>.\<close>

definition close_done :: "start_state \<Rightarrow> start_state" where
  "close_done s = (if sa_done s then s\<lparr>sa_phase := Crashed\<rparr> else s\<lparr>sa_done := True\<rparr>)"

text \<open>
  One turn of the loop. A case that is ready may be taken, in no fixed order; the default only when
  none is. The timer fires by itself.
\<close>

inductive start_step :: "fsnotify \<Rightarrow> start_state \<Rightarrow> start_state \<Rightarrow> bool" for lib where
  fire: "\<not> sa_timer s \<Longrightarrow> start_step lib s (s\<lparr>sa_timer := True\<rparr>)"
| timeout: "sa_phase s = Polling \<Longrightarrow> sa_timer s \<Longrightarrow> start_step lib s (s\<lparr>sa_phase := TimedOut\<rparr>)"
| done_case: "sa_phase s = Polling \<Longrightarrow> sa_done s \<Longrightarrow> dirWatcher lib (sa_watchers s) = (r, ws) \<Longrightarrow>
    start_step lib s (s\<lparr>sa_phase := (case r of Inr _ \<Rightarrow> Watching | Inl _ \<Rightarrow> Ended), sa_watchers := ws\<rparr>)"
| poll_running: "sa_phase s = Polling \<Longrightarrow> \<not> sa_timer s \<Longrightarrow> \<not> sa_done s \<Longrightarrow>
    start_step lib s (close_done (s\<lparr>sa_seen := True\<rparr>))"
| poll_waiting: "sa_phase s = Polling \<Longrightarrow> \<not> sa_timer s \<Longrightarrow> \<not> sa_done s \<Longrightarrow> start_step lib s s"

text \<open>The process itself: the command runs as long as nginx does, and its failure ends the controller.\<close>

definition start_nginx :: "run_result \<Rightarrow> unit result" where
  "start_nginx r = (case r of RunOk \<Rightarrow> Inr () | _ \<Rightarrow> Inl Exit)"

inductive_cases start_stepE: "start_step lib s s'"

section \<open>Facts\<close>

lemma gracefulRestart_log:
  assumes "gracefulRestart env w = (r, w')"
  shows "files w' = files w \<and> (\<exists>es. events w' = events w @ es \<and> (es = [] \<or> (\<exists>pid. es = [Hup pid (files w)])))"
  using gracefulRestart_frame [OF assms] by auto

lemma reloadIfWatchFileCurd_log:
  assumes "reloadIfWatchFileCurd env w = (r, w')"
  shows "files w' = files w \<and>
    (\<exists>es. events w' = events w @ Tested (files w) # es \<and> signals_tested env (Tested (files w) # es) \<and>
       (es = [] \<or> (\<exists>pid. es = [Hup pid (files w)])))"
proof (cases "failed_run (ne_test env (files w))")
  case True
  then obtain m where "ne_test env (files w) = RunExit m" by (cases "ne_test env (files w)") auto
  then show ?thesis using assms by (auto simp: reloadIfWatchFileCurd_def nginx_t_def)
next
  case False
  let ?w1 = "log_event (Tested (files w)) w"
  obtain q w2 where g: "gracefulRestart env ?w1 = (q, w2)" by (meson surj_pair)
  have "w' = w2"
    using assms False g
    by (cases "ne_test env (files w)") (auto simp: reloadIfWatchFileCurd_def nginx_t_def split: sum.splits fault.splits)
  with gracefulRestart_log [OF g] False show ?thesis by auto
qed

lemma watch_log:
  "files (snd (watch env fw ds w)) = files w \<and>
   (\<exists>es. events (snd (watch env fw ds w)) = events w @ es \<and> signals_tested env es)"
proof (induction env fw ds w rule: watch.induct)
  case (2 env fw e ds w)
  show ?case
  proof (cases "calls_back fw e")
    case True
    obtain r w1 where r: "reloadIfWatchFileCurd env w = (r, w1)" by (meson surj_pair)
    from reloadIfWatchFileCurd_log [OF r] obtain es where
      es: "files w1 = files w" "events w1 = events w @ es" "signals_tested env es" by auto
    show ?thesis
    proof (cases r)
      case (Inl f)
      with True r es show ?thesis by auto
    next
      case (Inr u)
      with 2(1) [OF True, of u w1] obtain es' where
        es': "files (snd (watch env fw ds w1)) = files w1" "events (snd (watch env fw ds w1)) = events w1 @ es'"
        "signals_tested env es'" using r by auto
      with True r Inr es show ?thesis
        by (auto intro!: exI [of _ "es @ es'"] signals_tested_append)
    qed
  qed (use 2 in simp)
qed auto

section \<open>Properties\<close>

text \<open>A watcher changes no file, and every signal it sends to nginx comes right after a
  configuration test of the files at hand that did not fail.\<close>

theorem watcher_tests_before_signal:
  "files (snd (watch env fw ds w)) = files w \<and>
   (\<exists>es. events (snd (watch env fw ds w)) = events w @ es \<and> signals_tested env es)"
  by (rule watch_log)

text \<open>Deleting a file of the configuration directory makes its watcher test the remaining files and,
  when the test does not fail and the restart works, signal nginx once.\<close>

theorem removal_reloads:
  assumes "wf_dir fw = ConfDir" and "event_Has e RemoveOp"
    and "\<not> failed_run (ne_test env (files w))"
    and "restarts env pid (log_event (Tested (files w)) w)"
  shows "events (snd (watch env fw [Event e] w)) = events w @ [Tested (files w), Hup pid (files w)]"
proof -
  have "calls_back fw e" using assms(1,2) by (simp add: calls_back_def)
  moreover have "reloadIfWatchFileCurd env w = (Inr (), log_event (Hup pid (files w)) (log_event (Tested (files w)) w))"
    using assms(3) gracefulRestart_ok [OF assms(4)]
    by (cases "ne_test env (files w)") (auto simp: reloadIfWatchFileCurd_def nginx_t_def)
  ultimately show ?thesis by simp
qed

theorem removal_reloads_witness:
  "events (snd (watch (sample_env RunOk) \<lparr>wf_dir = ConfDir, wf_watcher = True\<rparr> [Event [RemoveOp]] (sample_world sample_files))) =
     [Tested sample_files, Hup 17 sample_files]"
proof -
  have "atoi (trim_space (''17'' @ [CHR 0x0A])) = Some 17" by code_simp
  then have "restarts (sample_env RunOk) 17 (log_event e (sample_world sample_files))" for e
    using sample_facts(6) by (simp add: restarts_def sample_env_def isRunning_def sample_facts)
  moreover have "event_Has [RemoveOp] RemoveOp" by (simp add: event_Has_def)
  moreover have "\<not> failed_run (ne_test (sample_env RunOk) f)" for f by (simp add: sample_env_def)
  ultimately show ?thesis
    using removal_reloads [of "\<lparr>wf_dir = ConfDir, wf_watcher = True\<rparr>" "[RemoveOp]" "sample_env RunOk" "sample_world sample_files" 17]
    unfolding sample_facts by simp
qed

text \<open>Setting up the watchers: both are there, or the process is ended because the library refused something.\<close>

lemma dirWatcher_outcome:
  "(fst (dirWatcher lib running) = Inr () \<and>
      snd (dirWatcher lib running) = running @ [\<lparr>wf_dir = SslPath, wf_watcher = True\<rparr>, \<lparr>wf_dir = ConfDir, wf_watcher = True\<rparr>]) \<or>
   (fst (dirWatcher lib running) = Inl Exit \<and>
      ((\<exists>ws. fn_NewWatcher lib ws \<noteq> None) \<or> fn_Add lib SslPath \<noteq> None \<or> fn_Add lib ConfDir \<noteq> None))"
  by (auto simp: dirWatcher_def NewFileWatcher_def start_watch_def Let_def split: option.split)

lemma start_invariant:
  assumes "(start_step lib)\<^sup>*\<^sup>* start_init s"
  shows "sa_phase s \<noteq> Crashed \<and> (sa_done s \<longrightarrow> sa_seen s) \<and> (sa_phase s = Polling \<or> sa_phase s = TimedOut \<longrightarrow> sa_watchers s = []) \<and>
    (sa_phase s = Watching \<or> sa_phase s = Ended \<longrightarrow> sa_done s) \<and>
    (sa_phase s = Watching \<longrightarrow>
       sa_watchers s = [\<lparr>wf_dir = SslPath, wf_watcher = True\<rparr>, \<lparr>wf_dir = ConfDir, wf_watcher = True\<rparr>]) \<and>
    (sa_phase s = Ended \<longrightarrow> (\<exists>ws. fn_NewWatcher lib ws \<noteq> None) \<or> fn_Add lib SslPath \<noteq> None \<or> fn_Add lib ConfDir \<noteq> None)"
  using assms
proof (induction rule: rtranclp_induct)
  case base
  then show ?case by (simp add: start_init_def)
next
  case (step s t)
  from step.hyps(2) show ?case
  proof (cases rule: start_step.cases)
    case (done_case r ws)
    with dirWatcher_outcome [of lib "sa_watchers s"] step.IH show ?thesis by auto
  qed (use step.IH in \<open>auto simp: close_done_def\<close>)
qed

text \<open>C33. While nginx is being started the channel is closed at most once, so the goroutine never panics;
  no directory is watched before the process has been seen, and then both are, or the process ends
  because the library refused to watch one.\<close>

theorem start_watches_running_nginx:
  assumes "(start_step lib)\<^sup>*\<^sup>* start_init s"
  shows "sa_phase s \<noteq> Crashed \<and> (sa_watchers s \<noteq> [] \<longrightarrow> sa_seen s) \<and>
    (sa_phase s = Watching \<longrightarrow> map wf_dir (sa_watchers s) = [SslPath, ConfDir]) \<and>
    (sa_phase s = Ended \<longrightarrow> (\<exists>ws. fn_NewWatcher lib ws \<noteq> None) \<or> fn_Add lib SslPath \<noteq> None \<or> fn_Add lib ConfDir \<noteq> None)"
proof -
  note inv = start_invariant [OF assms]
  then have "sa_watchers s \<noteq> [] \<longrightarrow> sa_seen s" by (cases "sa_phase s") auto
  with inv show ?thesis by simp
qed

theorem start_watches_running_nginx_witness:
  "\<exists>lib s. (start_step lib)\<^sup>*\<^sup>* start_init s \<and> sa_phase s = Watching \<and> map wf_dir (sa_watchers s) = [SslPath, ConfDir]"
proof -
  let ?lib = "\<lparr>fn_NewWatcher = \<lambda>_. None, fn_Add = \<lambda>_. None\<rparr> :: fsnotify"
  let ?s1 = "close_done (start_init\<lparr>sa_seen := True\<rparr>)"
  obtain r ws where d: "dirWatcher ?lib (sa_watchers ?s1) = (r, ws)" by (meson surj_pair)
  then have ok: "r = Inr ()" using dirWatcher_outcome [of ?lib "sa_watchers ?s1"] by simp
  let ?s2 = "?s1\<lparr>sa_phase := (case r of Inr _ \<Rightarrow> Watching | Inl _ \<Rightarrow> Ended), sa_watchers := ws\<rparr>"
  have "start_step ?lib start_init ?s1" by (rule poll_running) (simp_all add: start_init_def)
  moreover have "start_step ?lib ?s1 ?s2"
    by (rule done_case [OF _ _ d]) (simp_all add: start_init_def close_done_def)
  ultimately have r: "(start_step ?lib)\<^sup>*\<^sup>* start_init ?s2"
    by (meson converse_rtranclp_into_rtranclp rtranclp.rtrancl_refl)
  have phase: "sa_phase ?s2 = Watching" using ok by simp
  have "map wf_dir (sa_watchers ?s2) = [SslPath, ConfDir]"
    using start_watches_running_nginx [OF r] phase by blast
  with r phase show ?thesis by (intro exI [of _ ?lib] exI [of _ ?s2] conjI)
qed

text \<open>Every turn of the loop makes progress, but for a turn that finds nginx not running.\<close>

definition start_rank :: "start_state \<Rightarrow> nat" where
  "start_rank s = (if sa_phase s = Polling then 1 else 0) + (if sa_timer s then 0 else 1) + (if sa_done s then 0 else 2)"

lemma start_progress:
  "start_step lib s t \<Longrightarrow> t = s \<and> \<not> sa_timer s \<or> start_rank t < start_rank s"
  by (erule start_stepE) (auto simp: start_rank_def close_done_def split: sum.split)

lemma start_timer_stays: "start_step lib s t \<Longrightarrow> sa_timer s \<Longrightarrow> sa_timer t"
  by (erule start_stepE) (auto simp: close_done_def)

text \<open>The goroutine that waits for nginx does not run for ever: in no infinite run does the timer ever
  fire, so once it has, the goroutine returns after finitely many turns, whatever nginx does.\<close>

theorem start_terminates:
  "\<not> (\<exists>run. (\<forall>i. start_step lib (run i) (run (Suc i))) \<and> sa_timer (run k))"
proof
  assume "\<exists>run. (\<forall>i. start_step lib (run i) (run (Suc i))) \<and> sa_timer (run k)"
  then obtain run where step: "\<And>i. start_step lib (run i) (run (Suc i))" and fired: "sa_timer (run k)" by blast
  have "sa_timer (run (k + i))" for i
    by (induction i) (use fired start_timer_stays [OF step] in auto)
  then have "start_rank (run (Suc (k + i))) < start_rank (run (k + i))" for i
    using start_progress [OF step [of "k + i"]] by blast
  then have "start_rank (run (k + i)) + i \<le> start_rank (run k)" for i
  proof (induction i)
    case (Suc i)
    then show ?case using Suc.prems [of i] Suc.IH by fastforce
  qed simp
  from this [of "Suc (start_rank (run k))"] show False by simp
qed

end
