(* ===== verification/Interleaving.thy ===== *)
theory Interleaving
  imports NginxReload
begin

text \<open>
  The reload of a configuration and the reload of a watcher run in different goroutines, and nothing
  keeps them apart: the mutex of the generator belongs to an object that is made for one call. Here
  both are given as sequences of the calls they make to the operating system, one step for each
  call, so that their steps can be interleaved. Run alone, the sequences are the functions of
  \<open>NginxReload\<close>.
\<close>

section \<open>Sequences of calls\<close>

datatype 'a act =
    Done 'a
  | Call "world \<Rightarrow> 'a act \<times> world"

lemma act_induct [case_names Done Call]:
  assumes "\<And>a. P (Done a)" and "\<And>f. (\<And>w p w1. f w = (p, w1) \<Longrightarrow> P p) \<Longrightarrow> P (Call f)"
  shows "P p"
proof (induction p)
  case (Call f)
  have "P p" if "f w = (p, w1)" for w p w1
    using Call [of "f w" p] that rangeI [of f w] by (simp add: fsts.simps)
  then show ?case by (rule assms(2))
qed (rule assms(1))

primrec run_act :: "'a act \<Rightarrow> world \<Rightarrow> 'a \<times> world" where
  "run_act (Done a) = (\<lambda>w. (a, w))"
| "run_act (Call f) = (\<lambda>w. (\<lambda>(k, w1). k w1) (map_prod run_act id (f w)))"

primrec abind :: "'a act \<Rightarrow> ('a \<Rightarrow> 'b act) \<Rightarrow> 'b act" where
  "abind (Done a) k = k a"
| "abind (Call f) k = Call (\<lambda>w. map_prod (\<lambda>p. abind p k) id (f w))"

text \<open>One call; the same with the early return after an error; the clean-up of a deferred call.\<close>

definition os_call :: "(world \<Rightarrow> 'a \<times> world) \<Rightarrow> 'a act" where
  "os_call op = Call (\<lambda>w. map_prod Done id (op w))"

definition look :: "(world \<Rightarrow> 'a) \<Rightarrow> 'a act" where
  "look f = os_call (\<lambda>w. (f w, w))"

definition and_then :: "unit result act \<Rightarrow> unit result act \<Rightarrow> unit result act" where
  "and_then p q = abind p (\<lambda>r. case r of Inl f \<Rightarrow> Done (Inl f) | Inr _ \<Rightarrow> q)"

lemma run_abind: "run_act (abind p k) w = (case run_act p w of (a, w1) \<Rightarrow> run_act (k a) w1)"
proof (induction p arbitrary: w rule: act_induct)
  case (Call f)
  obtain p w1 where f: "f w = (p, w1)" by (meson surj_pair)
  with Call [OF f, of w1] show ?case by simp
qed simp

lemma run_os_call [simp]: "run_act (os_call op) w = op w"
  by (cases "op w") (simp add: os_call_def)

lemma run_look [simp]: "run_act (look f) w = (f w, w)"
  by (simp add: look_def)

lemma run_and_then: "run_act (and_then p q) w = sbind (run_act p w) (\<lambda>_. run_act q)"
  by (auto simp: and_then_def run_abind split: prod.split sum.split)

section \<open>The operations as sequences\<close>

text \<open>\<^verbatim>\<open>os.WriteFile\<close> makes two calls: it opens the file, which truncates it, and writes. The handle
  is taken to stand for the file of that name, and what is written to a file that was removed is lost.\<close>

definition os_create :: "string \<Rightarrow> world \<Rightarrow> go_error option \<times> world" where
  "os_create p w =
     (if wfault w p = OpenFails then (Some (PathError (''open '' @ p @ '': permission denied'')), w)
      else (None, set_file p (Some []) w))"

definition os_put :: "string \<Rightarrow> string \<Rightarrow> world \<Rightarrow> go_error option \<times> world" where
  "os_put p b w =
     (let store = (\<lambda>c. if files w p = None then w else set_file p (Some c) w)
      in case wfault w p of
           Breaks n \<Rightarrow> (Some (PathError (''write '' @ p @ '': no space left on device'')), store (take n b))
         | _ \<Rightarrow> (None, store b))"

definition os_write_calls :: "string \<Rightarrow> string \<Rightarrow> go_error option act" where
  "os_write_calls p b =
     abind (os_call (os_create p)) (\<lambda>err. case err of
         Some e \<Rightarrow> Done (Some e)
       | None \<Rightarrow> os_call (os_put p b))"

definition generateConf_calls :: "string \<Rightarrow> string \<Rightarrow> unit result act" where
  "generateConf_calls src dst =
     abind (look (os_read src)) (\<lambda>r. case r of
         Inl _ \<Rightarrow> Done (Inr ())
       | Inr b \<Rightarrow>
           abind (os_write_calls dst b) (\<lambda>err. case err of
               Some e \<Rightarrow> Done (Inl (Err e))
             | None \<Rightarrow>
                 (let fail = Done (Inl (Err (Errorf (''failed to generate nginx configuration file and cannot proceed to the next step, file: '' @ dst))))
                  in abind (look (os_stat dst)) (\<lambda>stat. case stat of
                         Inl _ \<Rightarrow> fail
                       | Inr n \<Rightarrow>
                           if n = 0 then fail
                           else abind (look (SHA1 src)) (\<lambda>a. abind (look (SHA1 dst)) (\<lambda>b.
                             if a \<noteq> b then fail else Done (Inr ())))))))"

fun CleanConf_calls :: "string list \<Rightarrow> unit act" where
  "CleanConf_calls [] = Done ()"
| "CleanConf_calls (v # fs) =
     abind (look (os_stat v)) (\<lambda>stat. case stat of
         Inl _ \<Rightarrow> CleanConf_calls fs
       | Inr _ \<Rightarrow> abind (os_call (os_remove v)) (\<lambda>_. CleanConf_calls fs))"

definition deferred_calls :: "string list \<Rightarrow> unit result act \<Rightarrow> unit result act" where
  "deferred_calls fs p =
     abind p (\<lambda>r. if r = Inl Exit then Done r else abind (CleanConf_calls fs) (\<lambda>_. Done r))"

definition backupConf_calls :: "string \<Rightarrow> string \<Rightarrow> string \<Rightarrow> unit result act" where
  "backupConf_calls src dstTest dstBak =
     deferred_calls [dstTest] (and_then (generateConf_calls src dstBak) (generateConf_calls dstTest src))"

definition rolloutConf_calls :: "string \<Rightarrow> string \<Rightarrow> unit result act" where
  "rolloutConf_calls src dst = and_then (generateConf_calls src dst) (Done (Inr ()))"

definition gracefulRestart_calls :: "nginx_env \<Rightarrow> unit result act" where
  "gracefulRestart_calls env =
     abind (look (\<lambda>w. ne_cat env (files w))) (\<lambda>cat. case cat of
         Inl e \<Rightarrow> Done (Inl (Err e))
       | Inr out \<Rightarrow>
           (case atoi (trim_space out) of
              None \<Rightarrow> Done (Inl (Err (Errorf (''strconv.Atoi: parsing '' @ trim_space out))))
            | Some ngxPid \<Rightarrow>
                abind (os_call (\<lambda>w. case ne_kill env ngxPid of
                    Some e \<Rightarrow> (Some e, w)
                  | None \<Rightarrow> (None, log_event (Hup ngxPid (files w)) w))) (\<lambda>err. case err of
                      Some e \<Rightarrow> Done (Inl (Err e))
                    | None \<Rightarrow>
                        abind (look (isRunning env)) (\<lambda>running.
                          Done (if running then Inr () else Inl Exit)))))"

definition test_and_restart_calls :: "nginx_env \<Rightarrow> bool \<Rightarrow> string \<Rightarrow> string \<Rightarrow> string \<Rightarrow> unit result act" where
  "test_and_restart_calls env isFirstReload productConf testConf backupFile =
     abind (os_call (nginx_t env)) (\<lambda>res. case res of
         RunExit m \<Rightarrow>
           if \<not> isFirstReload
           then and_then (rolloutConf_calls backupFile productConf) (Done (Inl (Err (ExitError m))))
           else Done (Inl (Err (ExitError m)))
       | _ \<Rightarrow> and_then (generateConf_calls testConf productConf) (gracefulRestart_calls env))"

definition reload_calls :: "nginx_env \<Rightarrow> string \<Rightarrow> unit result act" where
  "reload_calls env name =
     (let productConf = name @ ''.conf''; testConf = name @ ''-test.conf''; backupFile = name @ ''.tmp''
      in deferred_calls [backupFile, testConf]
           (abind (look (os_stat productConf)) (\<lambda>stat. case stat of
               Inr _ \<Rightarrow>
                 abind (look (SHA1 productConf)) (\<lambda>a. abind (look (SHA1 testConf)) (\<lambda>b.
                   if a = b then Done (Inr ())
                   else and_then (backupConf_calls productConf testConf backupFile)
                          (test_and_restart_calls env False productConf testConf backupFile)))
             | Inl _ \<Rightarrow> test_and_restart_calls env True productConf testConf backupFile)))"

definition watcher_calls :: "nginx_env \<Rightarrow> unit result act" where
  "watcher_calls env =
     abind (os_call (nginx_t env)) (\<lambda>res. case res of
         RunExit _ \<Rightarrow> Done (Inr ())
       | _ \<Rightarrow> abind (gracefulRestart_calls env) (\<lambda>r. Done (if r = Inl Exit then r else Inr ())))"

section \<open>Run alone\<close>

lemma set_file_twice: "set_file p c (set_file p d w) = set_file p c w"
  by (simp add: set_file_def)

lemma run_os_write [simp]: "run_act (os_write_calls p b) = os_write p b"
  by (rule ext) (auto simp: os_write_calls_def run_abind os_create_def os_put_def os_write_def set_file_twice Let_def
      split: write_fault.split)

lemma run_generateConf: "run_act (generateConf_calls src dst) = generateConf src dst"
  by (rule ext) (auto simp: generateConf_calls_def generateConf_def run_abind Let_def
      split: sum.splits option.splits prod.splits)

lemma run_CleanConf: "run_act (CleanConf_calls fs) w = ((), CleanConf fs w)"
proof (induction fs arbitrary: w)
  case (Cons v fs)
  then show ?case
    by (cases "os_remove v w") (auto simp: run_abind CleanConf_def CleanConf1_def split: sum.splits)
qed (simp add: CleanConf_def)

lemma run_deferred: "run_act (deferred_calls fs p) w = deferred fs (run_act p w)"
proof (cases "run_act p w")
  case (Pair r w1)
  then show ?thesis
    by (cases "(fs, r, w1)" rule: deferred.cases) (auto simp: deferred_calls_def run_abind run_CleanConf)
qed

lemma run_backupConf: "run_act (backupConf_calls s t b) = backupConf s t b"
  by (rule ext) (simp add: backupConf_calls_def backupConf_def run_deferred run_and_then run_generateConf)

lemma run_rolloutConf: "run_act (rolloutConf_calls s d) = rolloutConf s d"
proof
  fix w
  have "(\<lambda>_. run_act (Done (Inr ()))) = (\<lambda>_ w1. (Inr (), w1))" by simp
  then show "run_act (rolloutConf_calls s d) w = rolloutConf s d w"
    by (simp add: rolloutConf_calls_def rolloutConf_def run_and_then run_generateConf)
qed

lemma run_gracefulRestart: "run_act (gracefulRestart_calls env) = gracefulRestart env"
  by (rule ext) (auto simp: gracefulRestart_calls_def gracefulRestart_def run_abind Let_def
      split: sum.splits option.splits prod.splits)

lemma run_test_and_restart: "run_act (test_and_restart_calls env b p t k) = test_and_restart env b p t k"
  by (rule ext) (auto simp: test_and_restart_calls_def test_and_restart_def nginx_t_def run_abind run_and_then
      run_rolloutConf run_generateConf run_gracefulRestart split: run_result.splits)

lemma run_reload: "run_act (reload_calls env name) w = reload env name w"
  by (auto simp: reload_calls_def reload_def Let_def run_deferred run_abind run_and_then run_backupConf
      run_test_and_restart split: sum.splits)

lemma run_watcher: "run_act (watcher_calls env) w = reloadIfWatchFileCurd env w"
proof -
  have "run_act (watcher_calls env) w = (case nginx_t env w of
      (RunExit _, w1) \<Rightarrow> (Inr (), w1)
    | (_, w1) \<Rightarrow> (case gracefulRestart env w1 of (r, w2) \<Rightarrow> (if r = Inl Exit then r else Inr (), w2)))"
    by (auto simp: watcher_calls_def run_abind run_gracefulRestart split: prod.splits run_result.splits)
  then show ?thesis
    by (auto simp: reloadIfWatchFileCurd_def split: prod.splits run_result.splits sum.splits fault.splits)
qed

section \<open>Interleaving\<close>

text \<open>
  The goroutines that can be under way at once: the reloads of some configurations, and the watchers.
  A step is the next call of one of them; none is made once the process was ended.
\<close>

fun ended :: "unit result act \<Rightarrow> bool" where
  "ended (Done (Inl Exit)) = True"
| "ended _ = False"

inductive sys_step :: "unit result act list \<times> world \<Rightarrow> unit result act list \<times> world \<Rightarrow> bool" where
  call: "\<forall>t\<in>set ts. \<not> ended t \<Longrightarrow> i < length ts \<Longrightarrow> ts ! i = Call f \<Longrightarrow> f w = (p, w1) \<Longrightarrow>
    sys_step (ts, w) (ts[i := p], w1)"

inductive_cases sys_stepE: "sys_step (ts, w) s"

definition goroutines :: "nginx_env \<Rightarrow> string list \<Rightarrow> nat \<Rightarrow> unit result act list" where
  "goroutines env names watchers = map (reload_calls env) names @ replicate watchers (watcher_calls env)"

lemma sys_step_possible:
  assumes "\<forall>t\<in>set ts. \<not> ended t"
  shows "(\<exists>s. sys_step (ts, w) s) \<longleftrightarrow> (\<exists>t\<in>set ts. \<exists>f. t = Call f)"
proof
  assume "\<exists>t\<in>set ts. \<exists>f. t = Call f"
  then obtain i f where "i < length ts" "ts ! i = Call f" by (auto simp: in_set_conv_nth)
  moreover obtain p w1 where "f w = (p, w1)" by (meson surj_pair)
  ultimately show "\<exists>s. sys_step (ts, w) s" using assms sys_step.call by blast
next
  assume "\<exists>s. sys_step (ts, w) s"
  then obtain i f where "i < length ts" "ts ! i = Call f" by (auto elim!: sys_stepE)
  then show "\<exists>t\<in>set ts. \<exists>f. t = Call f" by (metis nth_mem)
qed

subsection \<open>How long they take\<close>

text \<open>A sequence of at most so many calls, whatever they answer.\<close>

inductive within :: "'a act \<Rightarrow> nat \<Rightarrow> bool" where
  Done: "within (Done a) n"
| Call: "(\<And>w. within (fst (f w)) n) \<Longrightarrow> within (Call f) (Suc n)"

inductive_cases within_CallE: "within (Call f) n"

lemma within_mono: "within p n \<Longrightarrow> n \<le> m \<Longrightarrow> within p m"
proof (induction arbitrary: m rule: within.induct)
  case (Call f n)
  then obtain k where "m = Suc k" "n \<le> k" by (cases m) auto
  with Call.IH show ?case by (auto intro: within.Call)
qed (rule within.Done)

lemma within_bind:
  assumes "within p n" and "n \<le> l" and "\<And>a. within (k a) (l - n)"
  shows "within (abind p k) l"
proof -
  have "within (abind p k) (n + m)" if "\<And>a. within (k a) m" for m
    using assms(1)
  proof (induction rule: within.induct)
    case (Done a n)
    show ?case using within_mono [OF that [of a], of "n + m"] by simp
  next
    case (Call f n)
    have "fst (map_prod (\<lambda>p. abind p k) id (f w)) = abind (fst (f w)) k" for w by (simp add: map_prod_def split_beta)
    with Call.IH show ?case by (auto intro!: within.Call)
  qed
  from this [OF assms(3)] assms(2) show ?thesis by simp
qed

lemma within_os_call: "within (os_call op) 1"
  unfolding os_call_def One_nat_def by (rule within.Call) (simp add: map_prod_def split_beta within.Done)

lemma within_look: "within (look f) 1"
  unfolding look_def by (rule within_os_call)

lemmas within_first = within_bind [OF within_os_call] within_bind [OF within_look]

text \<open>Branches need as much as the longer one.\<close>

lemma within_cases:
  "(\<And>a. within (f a) n) \<Longrightarrow> (\<And>b. within (g b) n) \<Longrightarrow> within (case s of Inl a \<Rightarrow> f a | Inr b \<Rightarrow> g b) n"
  "within q n \<Longrightarrow> (\<And>c. within (k c) n) \<Longrightarrow> within (case x of None \<Rightarrow> q | Some c \<Rightarrow> k c) n"
  "within q n \<Longrightarrow> (\<And>m. within (h m) n) \<Longrightarrow> (\<And>m. within (h' m) n) \<Longrightarrow> 
    within (case r of RunOk \<Rightarrow> q | RunExit m \<Rightarrow> h m | RunFail m \<Rightarrow> h' m) n"
  "within q n \<Longrightarrow> within q' n \<Longrightarrow> within (if d then q else q') n"
  by (auto split: sum.split option.split run_result.split)

lemma within_and_then: "within p n \<Longrightarrow> n \<le> l \<Longrightarrow> within q (l - n) \<Longrightarrow> within (and_then p q) l"
  unfolding and_then_def by (erule within_bind, assumption, intro within_cases within.Done)

lemma within_os_write: "within (os_write_calls p b) 2"
  unfolding os_write_calls_def
  by (intro within_first within_cases within.Done within_mono [OF within_os_call]) simp_all

lemma within_generateConf: "within (generateConf_calls src dst) 6"
  unfolding generateConf_calls_def Let_def
  by (intro within_first within_bind [OF within_os_write] within_cases within.Done) simp_all

lemma within_CleanConf: "within (CleanConf_calls fs) (2 * length fs)"
proof (induction fs)
  case (Cons v fs)
  have "within (CleanConf_calls fs) (2 * length (v # fs) - 1)" by (rule within_mono [OF Cons]) simp
  moreover have "within (CleanConf_calls fs) (2 * length (v # fs) - 1 - 1)" by (rule within_mono [OF Cons]) simp
  ultimately show ?case unfolding CleanConf_calls.simps by (intro within_first within_cases) simp_all
qed (simp add: within.Done)

lemma within_deferred:
  assumes "within p n" and "n + 2 * length fs \<le> l"
  shows "within (deferred_calls fs p) l"
proof -
  have "within (if r = Inl Exit then Done r else abind (CleanConf_calls fs) (\<lambda>_. Done r)) (l - n)" for r :: "unit result"
    using assms(2) by (intro within_cases within.Done within_bind [OF within_CleanConf]) simp
  then show ?thesis unfolding deferred_calls_def using assms by (intro within_bind [OF assms(1)]) simp_all
qed

lemma within_backupConf: "within (backupConf_calls s t b) 14"
  unfolding backupConf_calls_def
  by (rule within_deferred [where n = 12])
     (intro within_and_then [OF within_generateConf] within_mono [OF within_generateConf], simp_all)

lemma within_restart: "within (gracefulRestart_calls env) 3"
  unfolding gracefulRestart_calls_def by (intro within_first within_cases within.Done) simp_all

lemma within_rolloutConf: "within (rolloutConf_calls s d) 6"
  unfolding rolloutConf_calls_def by (intro within_and_then [OF within_generateConf] within.Done) simp

lemma within_test_and_restart: "within (test_and_restart_calls env b p t x) 10"
  unfolding test_and_restart_calls_def
  by (intro within_first within_cases within.Done within_and_then [OF within_rolloutConf]
      within_and_then [OF within_generateConf] within_mono [OF within_restart]) simp_all

lemma within_reload: "within (reload_calls env name) 31"
  unfolding reload_calls_def Let_def
  by (rule within_deferred [where n = 27])
     (intro within_first within_cases within.Done within_and_then [OF within_backupConf]
       within_mono [OF within_test_and_restart], simp_all)

lemma within_watcher: "within (watcher_calls env) 4"
  unfolding watcher_calls_def
  by (intro within_first within_cases within.Done within_bind [OF within_restart]) simp_all

lemma sys_step_within:
  assumes "sys_step (ts, w) (ts', w')" and "list_all2 within ts ns"
  shows "\<exists>ns'. list_all2 within ts' ns' \<and> Suc (sum_list ns') = sum_list ns"
  using assms(1)
proof (cases rule: sys_step.cases)
  case (call i f p)
  from assms(2) call(3) have i: "i < length ns" by (simp add: list_all2_lengthD)
  have "within (Call f) (ns ! i)" using assms(2) call(3,4) by (metis list_all2_nthD)
  then obtain m where m: "ns ! i = Suc m" "within (fst (f w)) m" by (auto elim: within_CallE)
  have "list_all2 within (ts[i := p]) (ns[i := m])"
    using assms(2) m(2) call(5) by (intro list_all2_update_cong) simp_all
  moreover have "sum_list (ns[i := m]) + ns ! i = sum_list ns + m"
    using i elem_le_sum_list [OF i] by (simp add: sum_list_update)
  ultimately show ?thesis using call(1) m(1) by (intro exI [of _ "ns[i := m]"]) simp
qed


lemma goroutines_within:
  "list_all2 within (fst (goroutines env names watchers, w)) (replicate (length names) 31 @ replicate watchers 4)"
  unfolding goroutines_def fst_conv
  by (intro list_all2_appendI) (auto simp: list_all2_conv_all_nth within_reload within_watcher)

text \<open>So every execution can be carried on until none has a next call.\<close>

lemma within_end: "list_all2 within (fst s) ns \<Longrightarrow> \<exists>t. sys_step\<^sup>*\<^sup>* s t \<and> (\<nexists>u. sys_step t u)"
proof (induction "sum_list ns" arbitrary: s ns rule: less_induct)
  case less
  show ?case
  proof (cases "\<exists>u. sys_step s u")
    case True
    then obtain ts w us v where st: "s = (ts, w)" "sys_step (ts, w) (us, v)" by (metis surj_pair)
    from sys_step_within [OF st(2), of ns] less.prems st(1) obtain ns' where
      n: "list_all2 within us ns'" "Suc (sum_list ns') = sum_list ns" by auto
    then have "sum_list ns' < sum_list ns" by simp
    from less.hyps [OF this, of "(us, v)"] n(1) obtain t where "sys_step\<^sup>*\<^sup>* (us, v) t" "\<nexists>u. sys_step t u" by auto
    with st show ?thesis by (meson converse_rtranclp_into_rtranclp)
  qed blast
qed

lemma goroutines_end: "\<exists>t. sys_step\<^sup>*\<^sup>* (goroutines env names watchers, w) t \<and> (\<nexists>u. sys_step t u)"
  by (rule within_end [OF goroutines_within])


subsection \<open>Signals are paid for by tests\<close>

fun signals :: "event list \<Rightarrow> nat" where
  "signals [] = 0"
| "signals (Hup _ _ # es) = Suc (signals es)"
| "signals (Tested _ # es) = signals es"

fun passes :: "nginx_env \<Rightarrow> event list \<Rightarrow> nat" where
  "passes env [] = 0"
| "passes env (Hup _ _ # es) = passes env es"
| "passes env (Tested f # es) = (if failed_run (ne_test env f) then passes env es else Suc (passes env es))"

lemma signals_append [simp]: "signals (es @ es') = signals es + signals es'"
  by (induction es rule: signals.induct) auto

lemma passes_append [simp]: "passes env (es @ es') = passes env es + passes env es'"
  by (induction es rule: signals.induct) auto

text \<open>A sequence that logs nothing, and one that signals only as often as it has tests in hand.\<close>

inductive quiet :: "'a act \<Rightarrow> bool" where
  Done: "quiet (Done a)"
| Call: "(\<And>w p w1. f w = (p, w1) \<Longrightarrow> events w1 = events w \<and> quiet p) \<Longrightarrow> quiet (Call f)"

inductive paid :: "nginx_env \<Rightarrow> nat \<Rightarrow> 'a act \<Rightarrow> bool" for env where
  Done: "paid env k (Done a)"
| Call: "(\<And>w p w1. f w = (p, w1) \<Longrightarrow> \<exists>es j. events w1 = events w @ es \<and> paid env j p \<and>
      j + signals es \<le> k + passes env es) \<Longrightarrow> paid env k (Call f)"

inductive_cases paid_CallE: "paid env k (Call f)"

lemma quiet_paid: "quiet p \<Longrightarrow> paid env k p"
proof (induction rule: quiet.induct)
  case (Call f)
  show ?case
  proof (rule paid.Call)
    fix w p w1 assume "f w = (p, w1)"
    with Call show "\<exists>es j. events w1 = events w @ es \<and> paid env j p \<and> j + signals es \<le> k + passes env es"
      by (intro exI [of _ "[]"] exI [of _ k]) auto
  qed
qed (rule paid.Done)

lemma quiet_abind: "quiet p \<Longrightarrow> (\<And>a. quiet (k a)) \<Longrightarrow> quiet (abind p k)"
proof (induction rule: quiet.induct)
  case (Call f)
  have "events w1 = events w \<and> quiet p" if "map_prod (\<lambda>p. abind p k) id (f w) = (p, w1)" for w p w1
  proof -
    from that obtain q where "f w = (q, w1)" and p: "p = abind q k" by (cases "f w") auto
    with Call show ?thesis unfolding p by blast
  qed
  then show ?case unfolding abind.simps by (rule quiet.Call)
qed simp

lemma paid_abind: "paid env k p \<Longrightarrow> (\<And>a. quiet (h a)) \<Longrightarrow> paid env k (abind p h)"
proof (induction rule: paid.induct)
  case (Done k a)
  then show ?case by (simp add: quiet_paid)
next
  case (Call f k)
  have "\<exists>es j. events w1 = events w @ es \<and> paid env j p \<and> j + signals es \<le> k + passes env es"
    if "map_prod (\<lambda>p. abind p h) id (f w) = (p, w1)" for w p w1
  proof -
    from that obtain q where "f w = (q, w1)" and p: "p = abind q h" by (cases "f w") auto
    with Call.IH Call.prems show ?thesis unfolding p by blast
  qed
  then show ?case unfolding abind.simps by (rule paid.Call)
qed

lemma paid_quiet_abind: "quiet p \<Longrightarrow> (\<And>a. paid env k (h a)) \<Longrightarrow> paid env k (abind p h)"
proof (induction rule: quiet.induct)
  case (Call f)
  have "\<exists>es j. events w1 = events w @ es \<and> paid env j p \<and> j + signals es \<le> k + passes env es"
    if "map_prod (\<lambda>p. abind p h) id (f w) = (p, w1)" for w p w1
  proof -
    from that obtain q where "f w = (q, w1)" and p: "p = abind q h" by (cases "f w") auto
    with Call show ?thesis unfolding p by (intro exI [of _ "[]"] exI [of _ k]) simp
  qed
  then show ?case unfolding abind.simps by (rule paid.Call)
qed simp

lemma quiet_os_call: "(\<And>w. events (snd (op w)) = events w) \<Longrightarrow> quiet (os_call op)"
  unfolding os_call_def
proof (rule quiet.Call)
  fix w p w1
  assume same: "\<And>w. events (snd (op w)) = events w" and "map_prod Done id (op w) = (p, w1)"
  then obtain a where "op w = (a, w1)" "p = Done a" by (cases "op w") auto
  with same [of w] show "events w1 = events w \<and> quiet p" by (simp add: quiet.Done)
qed

lemma quiet_look: "quiet (look f)"
  unfolding look_def by (rule quiet_os_call) simp

lemma os_calls_quiet: "quiet (os_call (os_create p))" "quiet (os_call (os_put p b))" "quiet (os_call (os_remove p))"
    apply (rule quiet_os_call, simp add: os_create_def set_file_def)
   apply (rule quiet_os_call, simp add: os_put_def set_file_def Let_def split: write_fault.split)
  apply (rule quiet_os_call, metis os_remove_touches surj_pair snd_conv)
  done

lemma quiet_os_write: "quiet (os_write_calls p b)"
  unfolding os_write_calls_def by (intro quiet_abind os_calls_quiet) (auto intro: quiet.Done os_calls_quiet split: option.split)

lemmas quiet_rules = quiet.Done quiet_abind quiet_look os_calls_quiet quiet_os_write

lemma quiet_generateConf: "quiet (generateConf_calls src dst)"
  unfolding generateConf_calls_def Let_def
  by (intro quiet_rules; auto intro!: quiet_rules split: sum.split option.split)+

lemma quiet_CleanConf: "quiet (CleanConf_calls fs)"
proof (induction fs)
  case (Cons v fs)
  have "quiet (abind (os_call (os_remove v)) (\<lambda>_. CleanConf_calls fs))"
    by (intro quiet_abind os_calls_quiet Cons)
  with Cons show ?case by (auto intro!: quiet_abind quiet_look split: sum.split)
qed (simp add: quiet.Done)

lemma quiet_and_then: "quiet p \<Longrightarrow> quiet q \<Longrightarrow> quiet (and_then p q)"
  unfolding and_then_def by (rule quiet_abind) (auto intro: quiet.Done split: sum.split)

lemma quiet_deferred_tail: "quiet (if r = Inl Exit then Done r else abind (CleanConf_calls fs) (\<lambda>_. Done r))"
  by (auto intro!: quiet_abind quiet_CleanConf quiet.Done)

lemma quiet_backupConf: "quiet (backupConf_calls s t b)"
  unfolding backupConf_calls_def deferred_calls_def
  by (intro quiet_abind quiet_deferred_tail quiet_and_then quiet_generateConf)

lemma paid_and_then: "quiet p \<Longrightarrow> paid env k q \<Longrightarrow> paid env k (and_then p q)"
  unfolding and_then_def by (rule paid_quiet_abind) (auto intro: paid.Done split: sum.split)

lemma paid_kill:
  assumes "\<And>r. quiet (h r)"
  shows "paid env (Suc k) (abind (os_call (\<lambda>w. case ne_kill env pid of
      Some e \<Rightarrow> (Some e, w) | None \<Rightarrow> (None, log_event (Hup pid (files w)) w))) h)"
proof (rule paid_abind [OF _ assms], unfold os_call_def, rule paid.Call)
  fix w p w1
  assume "map_prod Done id (case ne_kill env pid of
      Some e \<Rightarrow> (Some e, w) | None \<Rightarrow> (None, log_event (Hup pid (files w)) w)) = (p, w1)"
  then consider "events w1 = events w @ []" "paid env (Suc k) p"
    | "events w1 = events w @ [Hup pid (files w)]" "paid env k p"
    using paid.Done by (cases "ne_kill env pid") (fastforce simp: log_event_def)+
  then show "\<exists>es j. events w1 = events w @ es \<and> paid env j p \<and> j + signals es \<le> Suc k + passes env es"
  proof cases
    case 1
    then show ?thesis by (intro exI [of _ "[]"] exI [of _ "Suc k"]) simp
  next
    case 2
    then show ?thesis by (intro exI [of _ "[Hup pid (files w)]"] exI [of _ k]) simp
  qed
qed

lemma paid_restart: "paid env (Suc k) (gracefulRestart_calls env)"
  unfolding gracefulRestart_calls_def
  by (intro paid_quiet_abind quiet_look)
     (auto intro!: paid_kill paid.Done quiet_abind quiet_look quiet.Done split: sum.split option.split)

lemma paid_tested:
  assumes "\<And>m. paid env k (h (RunExit m))" and "\<And>r. \<not> failed_run r \<Longrightarrow> paid env (Suc k) (h r)"
  shows "paid env k (abind (os_call (nginx_t env)) h)"
  unfolding os_call_def abind.simps
proof (rule paid.Call)
  fix w p w1
  assume "map_prod (\<lambda>p. abind p h) id (map_prod Done id (nginx_t env w)) = (p, w1)"
  then have p: "p = h (ne_test env (files w))" and w1: "events w1 = events w @ [Tested (files w)]"
    by (auto simp: nginx_t_def log_event_def)
  show "\<exists>es j. events w1 = events w @ es \<and> paid env j p \<and> j + signals es \<le> k + passes env es"
  proof (cases "failed_run (ne_test env (files w))")
    case True
    then have "paid env k p" using assms(1) p by (cases "ne_test env (files w)") auto
    with w1 show ?thesis by (intro exI [of _ "[Tested (files w)]"] exI [of _ k]) simp
  next
    case False
    with assms(2) p have "paid env (Suc k) p" by simp
    with w1 False show ?thesis by (intro exI [of _ "[Tested (files w)]"] exI [of _ "Suc k"]) simp
  qed
qed

lemma paid_test_and_restart: "paid env k (test_and_restart_calls env b p t x)"
proof -
  have "paid env k (and_then (rolloutConf_calls x p) (Done r))" for r
    unfolding rolloutConf_calls_def by (intro quiet_paid quiet_and_then quiet_generateConf quiet.Done)
  moreover have "paid env (Suc k) (and_then (generateConf_calls t p) (gracefulRestart_calls env))"
    by (intro paid_and_then quiet_generateConf paid_restart)
  ultimately show ?thesis
    unfolding test_and_restart_calls_def
    by (intro paid_tested) (auto intro: paid.Done split: run_result.split)
qed

lemma paid_reload: "paid env k (reload_calls env name)"
  unfolding reload_calls_def Let_def deferred_calls_def
  by (intro paid_abind quiet_deferred_tail paid_quiet_abind quiet_look)
     (auto intro!: paid_quiet_abind quiet_look paid.Done paid_and_then quiet_backupConf paid_test_and_restart
       split: sum.split)

lemma paid_watcher: "paid env k (watcher_calls env)"
  unfolding watcher_calls_def
  by (rule paid_tested) (auto intro!: paid.Done paid_abind paid_restart quiet.Done split: run_result.split)

text \<open>What the goroutines have in hand together, and what was spent.\<close>

definition solvent :: "nginx_env \<Rightarrow> event list \<Rightarrow> unit result act list \<times> world \<Rightarrow> bool" where
  "solvent env es0 s \<longleftrightarrow>
     (\<exists>ks es. list_all2 (paid env) ks (fst s) \<and> events (snd s) = es0 @ es \<and>
        sum_list ks + signals es \<le> passes env es)"

lemma sys_step_solvent:
  assumes "sys_step (ts, w) (ts', w')" and "solvent env es0 (ts, w)"
  shows "solvent env es0 (ts', w')"
  using assms(1)
proof (cases rule: sys_step.cases)
  case (call i f p)
  from assms(2) obtain ks es where ks: "list_all2 (paid env) ks ts" and es: "events w = es0 @ es"
    and sum: "sum_list ks + signals es \<le> passes env es" by (auto simp: solvent_def)
  from ks call(3) have i: "i < length ks" by (simp add: list_all2_lengthD)
  from ks i call(3,4) have "paid env (ks ! i) (Call f)" by (metis list_all2_nthD)
  then obtain new j where new: "events w' = events w @ new" and j: "paid env j p"
    and le: "j + signals new \<le> ks ! i + passes env new"
    using call(5) by (blast elim: paid_CallE)
  have "list_all2 (paid env) (ks[i := j]) (ts[i := p])"
    using ks j by (rule list_all2_update_cong)
  moreover have "sum_list (ks[i := j]) + ks ! i = sum_list ks + j"
    using i elem_le_sum_list [OF i] by (simp add: sum_list_update)
  ultimately show ?thesis
    unfolding solvent_def using call(1) es new sum le
    by (intro exI [of _ "ks[i := j]"] exI [of _ "es @ new"]) simp
qed

lemma solvent_start: "solvent env (events w) (goroutines env names watchers, w)"
proof -
  have "list_all2 (paid env) (replicate (length names + watchers) 0) (goroutines env names watchers)"
    by (auto simp: goroutines_def list_all2_conv_all_nth nth_append paid_reload paid_watcher)
  then show ?thesis
    unfolding solvent_def by (intro exI [of _ "replicate (length names + watchers) 0"] exI [of _ "[]"]) simp
qed

text \<open>C16. However the reloads and the watchers are interleaved, nginx is signalled at most as often as a
  configuration test did not fail.\<close>

theorem interleaved_signals_paid:
  assumes "sys_step\<^sup>*\<^sup>* (goroutines env names watchers, w) (ts, w')"
  shows "\<exists>es. events w' = events w @ es \<and> signals es \<le> passes env es"
proof -
  have "solvent env (events w) s" if "sys_step\<^sup>*\<^sup>* (goroutines env names watchers, w) s" for s
    using that
  proof (induction rule: rtranclp_induct)
    case (step s s')
    then show ?case using sys_step_solvent by (cases s, cases s') blast
  qed (rule solvent_start)
  from this [OF assms] show ?thesis by (auto simp: solvent_def dest: add_leD2)
qed

subsection \<open>A signal for a configuration that was not tested\<close>

lemma abind_assoc: "abind (abind p k) h = abind p (\<lambda>a. abind (k a) h)"
proof (induction p rule: act_induct)
  case (Call f)
  have "map_prod (\<lambda>p. abind p h) id (map_prod (\<lambda>p. abind p k) id (f w)) =
      map_prod (\<lambda>p. abind p (\<lambda>a. abind (k a) h)) id (f w)" for w
    using Call by (cases "f w") auto
  then show ?case by simp
qed simp

lemma not_ended_abind_Call: "\<not> ended (abind (Call f) k)"
  by simp

text \<open>One goroutine goes on alone through a part of its sequence.\<close>

lemma runs_alone:
  assumes "\<forall>t\<in>set ts. \<not> ended t" and "i < length ts" and "ts ! i = abind p k" and "run_act p w = (a, w1)"
  shows "sys_step\<^sup>*\<^sup>* (ts, w) (ts[i := k a], w1)"
  using assms
proof (induction p arbitrary: ts w rule: act_induct)
  case (Done b)
  then have "ts[i := k a] = ts" by (metis abind.simps(1) list_update_id prod.inject run_act.simps(1))
  with Done show ?case by simp
next
  case (Call f)
  obtain q w2 where q: "f w = (q, w2)" by (meson surj_pair)
  have first: "sys_step (ts, w) (ts[i := abind q k], w2)"
    using Call.prems q by (intro sys_step.call [of ts i "\<lambda>w. map_prod (\<lambda>p. abind p k) id (f w)"]) auto
  have rest: "run_act q w2 = (a, w1)" using Call.prems(4) q by simp
  show ?case
  proof (cases q)
    case (Done b)
    then show ?thesis using first rest by auto
  next
    case inner: (Call g)
    have "\<forall>t\<in>set (ts[i := abind q k]). \<not> ended t"
      using Call.prems(1) inner set_update_subset_insert [of ts i "abind q k"] by fastforce
    with Call.IH [OF q, of "ts[i := abind q k]" w2] Call.prems(2) rest
    have "sys_step\<^sup>*\<^sup>* (ts[i := abind q k], w2) (ts[i := abind q k, i := k a], w1)" by simp
    with first show ?thesis by simp
  qed
qed

lemma alone_0:
  assumes "sys_step\<^sup>*\<^sup>* s ([abind p k, t], w)" and "\<not> ended (abind p k)" "\<not> ended t" and "run_act p w = (a, w1)"
  shows "sys_step\<^sup>*\<^sup>* s ([k a, t], w1)"
  using rtranclp_trans [OF assms(1) runs_alone [of "[abind p k, t]" 0 p k w a w1]] assms(2-) by simp

lemma alone_1:
  assumes "sys_step\<^sup>*\<^sup>* s ([t, abind p k], w)" and "\<not> ended (abind p k)" "\<not> ended t" and "run_act p w = (a, w1)"
  shows "sys_step\<^sup>*\<^sup>* s ([t, k a], w1)"
  using rtranclp_trans [OF assms(1) runs_alone [of "[t, abind p k]" 1 p k w a w1]] assms(2-) by simp

lemma calls_not_ended [simp]:
  "\<not> ended (abind (look g) k)" "\<not> ended (abind (os_call op) k)"
  "\<not> ended (abind (generateConf_calls src dst) h)"
  by (simp_all add: look_def os_call_def generateConf_calls_def abind_assoc)

lemma backup_not_ended [simp]: "\<not> ended (abind (backupConf_calls src tst bak) k)"
  by (simp add: backupConf_calls_def deferred_calls_def and_then_def abind_assoc)

lemma restart_not_ended [simp]: "\<not> ended (abind (gracefulRestart_calls env) k)"
  by (simp add: gracefulRestart_calls_def abind_assoc)

lemma test_not_ended [simp]: "\<not> ended (abind (test_and_restart_calls env b p t x) k)"
  by (simp add: test_and_restart_calls_def abind_assoc)

text \<open>The reload up to its backup, while the other goroutine waits: the digests differ.\<close>

lemma reload_up_to_backup:
  assumes "healthy_conf w name"
    and "files w (name @ ''.conf'') = Some old" and "files w (name @ ''-test.conf'') = Some new"
    and "sha1_hex old \<noteq> sha1_hex new" and "\<not> ended t"
  shows "\<exists>k. sys_step\<^sup>*\<^sup>* ([reload_calls env name, t], w)
     ([abind (backupConf_calls (name @ ''.conf'') (name @ ''-test.conf'') (name @ ''.tmp'')) (\<lambda>r. abind (case r of
         Inl f \<Rightarrow> Done (Inl f)
       | Inr _ \<Rightarrow> test_and_restart_calls env False (name @ ''.conf'') (name @ ''-test.conf'') (name @ ''.tmp'')) k), t], w)"
proof -
  let ?c = "name @ ''.conf''" and ?t = "name @ ''-test.conf''" and ?b = "name @ ''.tmp''"
  define D where "D = (\<lambda>r :: unit result. if r = Inl Exit then Done r else abind (CleanConf_calls [?b, ?t]) (\<lambda>_. Done r))"
  let ?B = "\<lambda>r. abind (case r of Inl f \<Rightarrow> Done (Inl f) | Inr _ \<Rightarrow> test_and_restart_calls env False ?c ?t ?b) D"
  let ?S = "\<lambda>a b. if a = b then abind (Done (Inr ())) D else abind (backupConf_calls ?c ?t ?b) ?B"
  have branch: "(\<lambda>b. abind (if a = b then Done (Inr ()) else and_then (backupConf_calls ?c ?t ?b)
      (test_and_restart_calls env False ?c ?t ?b)) D) = ?S a" for a
    by (auto simp: and_then_def abind_assoc)
  have start: "reload_calls env name = abind (look (os_stat ?c)) (\<lambda>stat. case stat of
      Inr _ \<Rightarrow> abind (look (SHA1 ?c)) (\<lambda>a. abind (look (SHA1 ?t)) (?S a))
    | Inl _ \<Rightarrow> abind (test_and_restart_calls env True ?c ?t ?b) D)"
    unfolding reload_calls_def Let_def deferred_calls_def D_def [symmetric] abind_assoc
    by (rule arg_cong [where f = "abind (look (os_stat ?c))"])
       (auto simp: fun_eq_iff abind_assoc branch split: sum.split)
  let ?s = "([reload_calls env name, t], w)"
  have "sys_step\<^sup>*\<^sup>* ?s ([abind (look (os_stat ?c)) (\<lambda>stat. case stat of
      Inr _ \<Rightarrow> abind (look (SHA1 ?c)) (\<lambda>a. abind (look (SHA1 ?t)) (?S a))
    | Inl _ \<Rightarrow> abind (test_and_restart_calls env True ?c ?t ?b) D), t], w)" using start by simp
  from alone_0 [OF this, of "Inr (length old)" w] assms(2,5)
  have "sys_step\<^sup>*\<^sup>* ?s ([abind (look (SHA1 ?c)) (\<lambda>a. abind (look (SHA1 ?t)) (?S a)), t], w)"
    by (simp add: os_stat_simps)
  from alone_0 [OF this, of "sha1_hex old" w] assms(1,2,5)
  have "sys_step\<^sup>*\<^sup>* ?s ([abind (look (SHA1 ?t)) (?S (sha1_hex old)), t], w)"
    by (simp add: SHA1_healthy healthy_conf_def)
  from alone_0 [OF this, of "sha1_hex new" w] assms(1,3,4,5)
  have "sys_step\<^sup>*\<^sup>* ?s ([abind (backupConf_calls ?c ?t ?b) ?B, t], w)"
    by (simp add: SHA1_healthy healthy_conf_def)
  then show ?thesis by blast
qed

text \<open>The reload up to its test.\<close>

lemma reload_up_to_test:
  assumes "healthy_conf w name"
    and "files w (name @ ''.conf'') = Some old" "old \<noteq> []"
    and "files w (name @ ''-test.conf'') = Some new" "new \<noteq> []"
    and "sha1_hex old \<noteq> sha1_hex new" and "\<not> ended t"
  shows "\<exists>k. sys_step\<^sup>*\<^sup>* ([reload_calls env name, t], w)
     ([abind (test_and_restart_calls env False (name @ ''.conf'') (name @ ''-test.conf'') (name @ ''.tmp'')) k, t],
      w\<lparr>files := under_test name old new (files w)\<rparr>)"
proof -
  have swapped: "backupConf (name @ ''.conf'') (name @ ''-test.conf'') (name @ ''.tmp'') w =
      (Inr (), w\<lparr>files := under_test name old new (files w)\<rparr>)"
    using assms by (subst backupConf_ok) (auto simp: healthy_conf_def under_test_def set_file_def)
  from reload_up_to_backup [OF assms(1,2,4,6,7), of env] obtain k where
    "sys_step\<^sup>*\<^sup>* ([reload_calls env name, t], w)
       ([abind (backupConf_calls (name @ ''.conf'') (name @ ''-test.conf'') (name @ ''.tmp'')) (\<lambda>r. abind (case r of
           Inl f \<Rightarrow> Done (Inl f)
         | Inr _ \<Rightarrow> test_and_restart_calls env False (name @ ''.conf'') (name @ ''-test.conf'') (name @ ''.tmp'')) k), t], w)" by blast
  from alone_0 [OF this] swapped assms(7) show ?thesis by (fastforce simp: run_backupConf)
qed

text \<open>A copy up to the calls of its write.\<close>

definition write_call ::
    "string \<Rightarrow> (unit result \<Rightarrow> 'a act) \<Rightarrow> (go_error option \<Rightarrow> 'a act) \<Rightarrow> go_error + string \<Rightarrow> 'a act" where
  "write_call dst k H r =
     (case r of
        Inl _ \<Rightarrow> k (Inr ())
      | Inr b \<Rightarrow> abind (os_call (os_create dst)) (\<lambda>err. case err of
          None \<Rightarrow> abind (os_call (os_put dst b)) H | Some e \<Rightarrow> H (Some e)))"

lemma generateConf_up_to_write:
  "\<exists>H. abind (generateConf_calls src dst) k = abind (look (os_read src)) (write_call dst k H)"
proof -
  define G where "G = (\<lambda>err. case err of Some e \<Rightarrow> Done (Inl (Err e)) | None \<Rightarrow>
    (let fail = Done (Inl (Err (Errorf (''failed to generate nginx configuration file and cannot proceed to the next step, file: '' @ dst))))
     in abind (look (os_stat dst)) (\<lambda>stat. case stat of
            Inl _ \<Rightarrow> fail
          | Inr n \<Rightarrow>
              if n = 0 then fail
              else abind (look (SHA1 src)) (\<lambda>a. abind (look (SHA1 dst)) (\<lambda>b.
                if a \<noteq> b then fail else Done (Inr ()))))))"
  have "(\<lambda>r. abind (case r of Inl _ \<Rightarrow> Done (Inr ()) | Inr b \<Rightarrow> abind (os_write_calls dst b) G) k) =
      write_call dst k (\<lambda>err. abind (G err) k)"
    by (auto simp: fun_eq_iff write_call_def os_write_calls_def abind_assoc intro!: arg_cong [where f = "abind _"]
        split: sum.split option.split)
  then show ?thesis
    unfolding generateConf_calls_def G_def [symmetric] abind_assoc by (intro exI [of _ "\<lambda>err. abind (G err) k"]) simp
qed

text \<open>The reload up to the middle of the write that puts the new configuration in place.\<close>

definition truncated :: "string \<Rightarrow> string \<Rightarrow> file_map \<Rightarrow> file_map" where
  "truncated name old f = f(name @ ''.tmp'' := Some old, name @ ''.conf'' := Some [])"

lemma reload_up_to_truncation:
  assumes "healthy_conf w name"
    and "files w (name @ ''.conf'') = Some old" "old \<noteq> []"
    and "files w (name @ ''-test.conf'') = Some new"
    and "sha1_hex old \<noteq> sha1_hex new" and "\<not> ended t"
  shows "\<exists>k. sys_step\<^sup>*\<^sup>* ([reload_calls env name, t], w)
     ([abind (os_call (os_put (name @ ''.conf'') new)) k, t], w\<lparr>files := truncated name old (files w)\<rparr>)"
proof -
  let ?c = "name @ ''.conf''" and ?t = "name @ ''-test.conf''" and ?b = "name @ ''.tmp''"
  let ?w1 = "set_file ?b (Some old) w"
  have h: "healthy w ?c" "healthy w ?t" "healthy w ?b" using assms(1) by (simp_all add: healthy_conf_def)
  from reload_up_to_backup [OF assms(1,2,4-6), of env] obtain k where
    at: "sys_step\<^sup>*\<^sup>* ([reload_calls env name, t], w) ([abind (backupConf_calls ?c ?t ?b) k, t], w)" by blast
  from at obtain k1 where "sys_step\<^sup>*\<^sup>* ([reload_calls env name, t], w)
      ([abind (generateConf_calls ?c ?b) (\<lambda>r. abind (case r of Inl f \<Rightarrow> Done (Inl f) | Inr _ \<Rightarrow> generateConf_calls ?t ?c) k1), t], w)"
    by (auto simp: backupConf_calls_def deferred_calls_def and_then_def abind_assoc)
  moreover have "run_act (generateConf_calls ?c ?b) w = (Inr (), ?w1)"
    using h assms(2,3) by (simp add: run_generateConf generateConf_ok)
  ultimately have "sys_step\<^sup>*\<^sup>* ([reload_calls env name, t], w) ([abind (generateConf_calls ?t ?c) k1, t], ?w1)"
    using assms(6) by (fastforce dest: alone_0)
  moreover obtain H where "abind (generateConf_calls ?t ?c) k1 = abind (look (os_read ?t)) (write_call ?c k1 H)"
    using generateConf_up_to_write by blast
  ultimately have r: "sys_step\<^sup>*\<^sup>* ([reload_calls env name, t], w) ([abind (look (os_read ?t)) (write_call ?c k1 H), t], ?w1)"
    by simp
  have "run_act (look (os_read ?t)) ?w1 = (Inr new, ?w1)" using h(2) assms(4) by (simp add: os_read_healthy)
  from alone_0 [OF r _ assms(6) this]
  have c: "sys_step\<^sup>*\<^sup>* ([reload_calls env name, t], w) ([abind (os_call (os_create ?c)) (\<lambda>err. case err of
      None \<Rightarrow> abind (os_call (os_put ?c new)) H | Some e \<Rightarrow> H (Some e)), t], ?w1)"
    by (simp add: write_call_def)
  have "run_act (os_call (os_create ?c)) ?w1 = (None, w\<lparr>files := truncated name old (files w)\<rparr>)"
    using h(1) by (simp add: os_create_def healthy_def set_file_def truncated_def)
  from alone_0 [OF c _ assms(6) this] show ?thesis by auto
qed

lemma restart_signals:
  assumes "sys_step\<^sup>*\<^sup>* s ([q, abind (gracefulRestart_calls env) W], w)" and "\<not> ended q"
    and "ne_cat env (files w) = Inr out" and "atoi (trim_space out) = Some pid" and "ne_kill env pid = None"
  shows "\<exists>p. sys_step\<^sup>*\<^sup>* s ([q, p], log_event (Hup pid (files w)) w)"
proof -
  let ?kill = "\<lambda>w. case ne_kill env pid of Some e \<Rightarrow> (Some e, w) | None \<Rightarrow> (None, log_event (Hup pid (files w)) w)"
  from alone_1 [OF assms(1) [unfolded gracefulRestart_calls_def abind_assoc], of "Inr out" w] assms(2-4)
  obtain h where "sys_step\<^sup>*\<^sup>* s ([q, abind (os_call ?kill) h], w)"
    by (auto simp: abind_assoc)
  from alone_1 [OF this, of None "log_event (Hup pid (files w)) w"] assms(2,5) show ?thesis by auto
qed

text \<open>The watcher between its test and its signal, while the reload has not begun.\<close>

lemma watcher_tested:
  assumes "\<not> failed_run (ne_test env (files w))"
  shows "\<exists>W. sys_step\<^sup>*\<^sup>* (goroutines env [name] 1, w)
    ([reload_calls env name, abind (gracefulRestart_calls env) W], log_event (Tested (files w)) w)"
proof -
  have alive: "\<not> ended (reload_calls env name)"
    by (simp add: reload_calls_def Let_def deferred_calls_def abind_assoc)
  have "sys_step\<^sup>*\<^sup>* (goroutines env [name] 1, w) ([reload_calls env name, watcher_calls env], w)"
    by (simp add: goroutines_def)
  from alone_1 [OF this [unfolded watcher_calls_def], of "ne_test env (files w)" "log_event (Tested (files w)) w"] alive assms
  show ?thesis by (cases "ne_test env (files w)") (auto simp: nginx_t_def)
qed

text \<open>The signal, whatever the reload has done to the files by then.\<close>

lemma signalled_between:
  assumes "\<not> failed_run (ne_test env (files w))"
    and "\<And>t. \<not> ended t \<Longrightarrow> \<exists>q. \<not> ended q \<and> sys_step\<^sup>*\<^sup>* ([reload_calls env name, t], log_event (Tested (files w)) w)
      ([q, t], (log_event (Tested (files w)) w)\<lparr>files := f\<rparr>)"
    and "ne_cat env f = Inr out" and "atoi (trim_space out) = Some pid" and "ne_kill env pid = None"
  shows "\<exists>ts w'. sys_step\<^sup>*\<^sup>* (goroutines env [name] 1, w) (ts, w') \<and>
    events w' = events w @ [Tested (files w), Hup pid f] \<and> files w' = f"
proof -
  let ?w2 = "(log_event (Tested (files w)) w)\<lparr>files := f\<rparr>"
  from watcher_tested [OF assms(1), of name] obtain W where
    1: "sys_step\<^sup>*\<^sup>* (goroutines env [name] 1, w)
      ([reload_calls env name, abind (gracefulRestart_calls env) W], log_event (Tested (files w)) w)" by blast
  from assms(2) [of "abind (gracefulRestart_calls env) W"] obtain q where q: "\<not> ended q"
    and 2: "sys_step\<^sup>*\<^sup>* ([reload_calls env name, abind (gracefulRestart_calls env) W], log_event (Tested (files w)) w)
      ([q, abind (gracefulRestart_calls env) W], ?w2)" by auto
  have "ne_cat env (files ?w2) = Inr out" using assms(3) by simp
  from restart_signals [OF rtranclp_trans [OF 1 2] q this assms(4,5)] obtain p where
    "sys_step\<^sup>*\<^sup>* (goroutines env [name] 1, w) ([q, p], log_event (Hup pid f) ?w2)" by auto
  moreover have "events (log_event (Hup pid f) ?w2) = events w @ [Tested (files w), Hup pid f]"
    "files (log_event (Hup pid f) ?w2) = f"
    by (simp_all add: log_event_def)
  ultimately show ?thesis by blast
qed

text \<open>C38. A watcher that runs beside a reload can signal nginx for a configuration that nginx rejects: its
  test passes on the old files, the reload puts the new configuration in place to test it, and the
  watcher sends the signal before the reload has rolled back.\<close>

theorem interleaved_signal_untested:
  assumes "healthy_conf w name"
    and "files w (name @ ''.conf'') = Some old" "old \<noteq> []"
    and "files w (name @ ''-test.conf'') = Some new" "new \<noteq> []"
    and "sha1_hex old \<noteq> sha1_hex new"
    and "\<not> failed_run (ne_test env (files w))"
    and "failed_run (ne_test env (under_test name old new (files w)))"
    and "ne_cat env (under_test name old new (files w)) = Inr out"
    and "atoi (trim_space out) = Some pid" and "ne_kill env pid = None"
  shows "\<exists>ts w'. sys_step\<^sup>*\<^sup>* (goroutines env [name] 1, w) (ts, w') \<and>
    events w' = events w @ [Tested (files w), Hup pid (under_test name old new (files w))] \<and>
    failed_run (ne_test env (files w'))"
proof -
  let ?w1 = "log_event (Tested (files w)) w"
  have "\<exists>q. \<not> ended q \<and> sys_step\<^sup>*\<^sup>* ([reload_calls env name, t], ?w1)
      ([q, t], ?w1\<lparr>files := under_test name old new (files w)\<rparr>)" if "\<not> ended t" for t
    using reload_up_to_test [of ?w1 name old new t env] assms(1-6) that test_not_ended by fastforce
  from signalled_between [OF assms(7) this assms(9-11)] assms(8) show ?thesis by fastforce
qed

text \<open>C17. A watcher that runs beside a reload can signal nginx while the installed configuration is an
  empty file, although the old and the new one have content and nginx accepts both: the write that puts
  the new one in place truncates the file first.\<close>

theorem interleaved_signal_truncated:
  assumes "healthy_conf w name"
    and "files w (name @ ''.conf'') = Some old" "old \<noteq> []"
    and "files w (name @ ''-test.conf'') = Some new"
    and "sha1_hex old \<noteq> sha1_hex new"
    and "\<not> failed_run (ne_test env (files w))"
    and "ne_cat env (truncated name old (files w)) = Inr out"
    and "atoi (trim_space out) = Some pid" and "ne_kill env pid = None"
  shows "\<exists>ts w'. sys_step\<^sup>*\<^sup>* (goroutines env [name] 1, w) (ts, w') \<and>
    events w' = events w @ [Tested (files w), Hup pid (files w')] \<and> files w' (name @ ''.conf'') = Some []"
proof -
  let ?w1 = "log_event (Tested (files w)) w"
  have "\<exists>q. \<not> ended q \<and> sys_step\<^sup>*\<^sup>* ([reload_calls env name, t], ?w1)
      ([q, t], ?w1\<lparr>files := truncated name old (files w)\<rparr>)" if "\<not> ended t" for t
    using reload_up_to_truncation [of ?w1 name old new t env] assms(1-5) that calls_not_ended(2) by fastforce
  from signalled_between [OF assms(6) this assms(7-9)] show ?thesis by (fastforce simp: truncated_def)
qed

theorem interleaved_signal_truncated_witness:
  "\<exists>ts w'. sys_step\<^sup>*\<^sup>* (goroutines (sample_env RunOk) [sample_name] 1, sample_world sample_files) (ts, w') \<and>
    events w' = [Tested sample_files, Hup 17 (files w')] \<and> files w' (sample_name @ ''.conf'') = Some []"
proof -
  have "truncated sample_name ''server a'' sample_files Pid = Some (''17'' @ [CHR 0x0A])"
    by (simp add: truncated_def sample_facts, simp add: sample_name_def Pid_def)
  moreover have "atoi (trim_space (''17'' @ [CHR 0x0A])) = Some 17" by code_simp
  note pid = this
  ultimately show ?thesis
    using interleaved_signal_truncated [of "sample_world sample_files" sample_name "''server a''" "''server b''" "sample_env RunOk", OF _ _ _ _ _ _ _ pid]
      sample_digests by (simp add: sample_facts sample_env_def)
qed

text \<open>An nginx that rejects the new configuration.\<close>

definition choosy_env :: nginx_env where
  "choosy_env = (sample_env RunOk)\<lparr>ne_test :=
     (\<lambda>f. if f (sample_name @ ''.conf'') = Some ''server b'' then RunExit ''unknown directive'' else RunOk)\<rparr>"

theorem interleaved_signal_untested_witness:
  "\<exists>ts w'. sys_step\<^sup>*\<^sup>* (goroutines choosy_env [sample_name] 1, sample_world sample_files) (ts, w') \<and>
    events w' = [Tested sample_files, Hup 17 (under_test sample_name ''server a'' ''server b'' sample_files)] \<and>
    failed_run (ne_test choosy_env (files w'))"
proof -
  have pid: "under_test sample_name ''server a'' ''server b'' sample_files Pid = Some (''17'' @ [CHR 0x0A])"
    by (simp add: under_test_def sample_facts, simp add: sample_name_def Pid_def)
  have "atoi (trim_space (''17'' @ [CHR 0x0A])) = Some 17" by code_simp
  from interleaved_signal_untested [of "sample_world sample_files" sample_name "''server a''" "''server b''" choosy_env, OF _ _ _ _ _ _ _ _ _ this]
    pid sample_digests show ?thesis
    by (simp add: sample_facts choosy_env_def sample_env_def)
qed

lemma abind_Done: "abind p Done = p"
proof (induction p rule: act_induct)
  case (Call f)
  have "map_prod (\<lambda>p. abind p Done) id (f w) = f w" for w using Call by (cases "f w") auto
  then show ?case by simp
qed simp

theorem interleaved_signals_paid_witness:
  "\<exists>ts w'. sys_step\<^sup>*\<^sup>* (goroutines (sample_env RunOk) [] 1, sample_world sample_files) (ts, w') \<and>
    events w' = [Tested sample_files, Hup 17 sample_files] \<and>
    signals (events w') \<le> passes (sample_env RunOk) (events w')"
proof -
  let ?env = "sample_env RunOk" and ?w = "sample_world sample_files"
  let ?w1 = "log_event (Hup 17 sample_files) (log_event (Tested sample_files) ?w)"
  have "restarts ?env 17 (log_event (Tested sample_files) ?w)"
  proof -
    have "atoi (trim_space (''17'' @ [CHR 0x0A])) = Some 17" by code_simp
    then show ?thesis by (simp add: restarts_def sample_env_def sample_facts isRunning_def)
  qed
  from gracefulRestart_ok [OF this] have "gracefulRestart ?env (log_event (Tested sample_files) ?w) = (Inr (), ?w1)"
    by (simp add: sample_facts)
  moreover have "nginx_t ?env ?w = (RunOk, log_event (Tested sample_files) ?w)"
    by (simp add: nginx_t_def sample_facts, simp add: sample_env_def)
  ultimately have "run_act (watcher_calls ?env) ?w = (Inr (), ?w1)"
    by (simp add: run_watcher reloadIfWatchFileCurd_def)
  moreover have "\<not> ended (watcher_calls ?env)" by (simp add: watcher_calls_def)
  ultimately have reached: "sys_step\<^sup>*\<^sup>* (goroutines ?env [] 1, ?w) ([Done (Inr ())], ?w1)"
    using runs_alone [of "[watcher_calls ?env]" 0 "watcher_calls ?env" Done ?w] by (simp add: abind_Done goroutines_def)
  from interleaved_signals_paid [OF this] have "signals (events ?w1) \<le> passes ?env (events ?w1)"
    by (simp add: sample_facts)
  with reached show ?thesis by (intro exI conjI) (assumption, simp_all add: sample_facts)
qed

end
