(* ===== verification/Undisturbed.thy ===== *)
theory Undisturbed
  imports Interleaving
begin

text \<open>
  Watchers do not disturb a reload. They add to the log and change no file, and nothing a reload does to
  the files depends on the log, so beside any number of watchers, whatever the interleaving, it leaves
  what the abstract operation of \<open>NginxReload\<close> says.
\<close>

section \<open>Sequences that do not see the log\<close>

text \<open>The world without its log. A sequence is blind when the log has no influence on it, silent when
  all it does is to add to the log.\<close>

definition no_log :: "world \<Rightarrow> world" where
  "no_log w = w\<lparr>events := []\<rparr>"

lemma no_log_eqD:
  "no_log w = no_log v \<Longrightarrow> files w = files v \<and> wfault w = wfault v \<and> rfault w = rfault v \<and> rmfault w = rmfault v"
  unfolding no_log_def by (cases w, cases v) simp

lemma no_log_simps [simp]:
  "no_log (set_file p c w) = set_file p c (no_log w)" "no_log (log_event e w) = no_log w"
  "files (no_log w) = files w"
  by (simp_all add: no_log_def set_file_def log_event_def)

definition blind_op :: "(world \<Rightarrow> 'b \<times> world) \<Rightarrow> bool" where
  "blind_op f \<longleftrightarrow> (\<forall>w v. no_log w = no_log v \<longrightarrow> fst (f w) = fst (f v) \<and> no_log (snd (f w)) = no_log (snd (f v)))"

inductive blind :: "'a act \<Rightarrow> bool" where
  Done: "blind (Done a)"
| Call: "(\<And>w. blind (fst (f w))) \<Longrightarrow> blind_op f \<Longrightarrow> blind (Call f)"

inductive silent :: "'a act \<Rightarrow> bool" where
  Done: "silent (Done a)"
| Call: "(\<And>w. silent (fst (f w)) \<and> no_log (snd (f w)) = no_log w) \<Longrightarrow> silent (Call f)"

text \<open>Whatever the calls answer, the result has a property.\<close>

inductive yields :: "('a \<Rightarrow> bool) \<Rightarrow> 'a act \<Rightarrow> bool" for P where
  Done: "P a \<Longrightarrow> yields P (Done a)"
| Call: "(\<And>w. yields P (fst (f w))) \<Longrightarrow> yields P (Call f)"

lemma blind_Call: "blind (Call f) \<Longrightarrow> blind (fst (f w)) \<and> blind_op f"
  by (erule blind.cases) simp_all

lemma blind_opD:
  "blind_op f \<Longrightarrow> no_log w = no_log v \<Longrightarrow> fst (f w) = fst (f v) \<and> no_log (snd (f w)) = no_log (snd (f v))"
  unfolding blind_op_def by blast

lemma blind_opI:
  "(\<And>w v. no_log w = no_log v \<Longrightarrow> fst (f w) = fst (f v) \<and> no_log (snd (f w)) = no_log (snd (f v))) \<Longrightarrow> blind_op f"
  unfolding blind_op_def by blast

lemma silent_Call: "silent (Call f) \<Longrightarrow> silent (fst (f w)) \<and> no_log (snd (f w)) = no_log w"
  by (erule silent.cases) simp_all

lemma yields_Done: "yields P (Done a) \<Longrightarrow> P a"
  by (erule yields.cases) simp_all

lemma yields_Call: "yields P (Call f) \<Longrightarrow> yields P (fst (f w))"
  by (erule yields.cases) simp_all

lemma fst_abind: "fst (map_prod (\<lambda>p. abind p k) id x) = abind (fst x) k"
  by (simp add: map_prod_def split_beta)

lemma blind_run:
  "blind p \<Longrightarrow> no_log w = no_log v \<Longrightarrow>
   fst (run_act p w) = fst (run_act p v) \<and> no_log (snd (run_act p w)) = no_log (snd (run_act p v))"
proof (induction arbitrary: w v rule: blind.induct)
  case (Call f)
  from blind_opD [OF Call.hyps(2) Call.prems] have n: "fst (f w) = fst (f v)" "no_log (snd (f w)) = no_log (snd (f v))" by simp_all
  have "run_act (Call f) u = run_act (fst (f u)) (snd (f u))" for u by (simp add: split_beta)
  with Call.IH [OF n(2), of w] n(1) show ?case by metis
qed simp

lemma yields_run: "yields P p \<Longrightarrow> P (fst (run_act p w))"
proof (induction arbitrary: w rule: yields.induct)
  case (Call f)
  then show ?case by (simp add: split_beta)
qed simp

lemma blind_bind: "blind p \<Longrightarrow> (\<And>a. blind (k a)) \<Longrightarrow> blind (abind p k)"
proof (induction rule: blind.induct)
  case (Call f)
  have "blind_op (\<lambda>w. map_prod (\<lambda>p. abind p k) id (f w))"
  proof (rule blind_opI)
    fix w v assume "no_log w = no_log v"
    from blind_opD [OF Call.hyps(2) this]
    show "fst (map_prod (\<lambda>p. abind p k) id (f w)) = fst (map_prod (\<lambda>p. abind p k) id (f v)) \<and>
        no_log (snd (map_prod (\<lambda>p. abind p k) id (f w))) = no_log (snd (map_prod (\<lambda>p. abind p k) id (f v)))"
      unfolding fst_abind snd_map_prod id_apply by (elim conjE) (simp only: simp_thms)
  qed
  with Call.IH [OF Call.prems] show ?case unfolding abind.simps by (intro blind.Call) (simp_all add: fst_abind)
qed simp

lemma silent_bind: "silent p \<Longrightarrow> (\<And>a. silent (k a)) \<Longrightarrow> silent (abind p k)"
proof (induction rule: silent.induct)
  case (Call f)
  then show ?case unfolding abind.simps by (intro silent.Call) (simp add: fst_abind)
qed simp

lemma yields_bind: "yields Q p \<Longrightarrow> (\<And>a. Q a \<Longrightarrow> yields P (k a)) \<Longrightarrow> yields P (abind p k)"
proof (induction rule: yields.induct)
  case (Call f)
  then show ?case unfolding abind.simps by (intro yields.Call) (simp add: fst_abind)
qed simp

lemma yields_any: "yields (\<lambda>_. True) p"
  by (induction p rule: act_induct) (auto intro!: yields.intros simp: prod_eq_iff)

lemma fst_os_call: "fst (map_prod Done id x) = Done (fst x)"
  by (simp add: map_prod_def split_beta)

lemma blind_os_call:
  assumes "\<And>w v. no_log w = no_log v \<Longrightarrow> fst (op w) = fst (op v) \<and> no_log (snd (op w)) = no_log (snd (op v))"
  shows "blind (os_call op)"
proof -
  have "blind_op (\<lambda>w. map_prod Done id (op w))" 
  proof (rule blind_opI)
    fix w v assume "no_log w = no_log v"
    from assms [OF this] show "fst (map_prod Done id (op w)) = fst (map_prod Done id (op v)) \<and>
        no_log (snd (map_prod Done id (op w))) = no_log (snd (map_prod Done id (op v)))"
      unfolding fst_os_call snd_map_prod id_apply by (elim conjE) (simp only: simp_thms)
  qed
  then show ?thesis unfolding os_call_def by (intro blind.Call) (simp_all add: fst_os_call blind.Done)
qed

lemma silent_os_call: "(\<And>w. no_log (snd (op w)) = no_log w) \<Longrightarrow> silent (os_call op)"
  unfolding os_call_def by (rule silent.Call) (simp add: fst_os_call silent.Done)

lemma yields_os_call: "(\<And>w. P (fst (op w))) \<Longrightarrow> yields P (os_call op)"
  unfolding os_call_def by (rule yields.Call) (simp add: fst_os_call yields.Done)

lemma blind_look:
  assumes "\<And>w v. no_log w = no_log v \<Longrightarrow> f w = f v"
  shows "blind (look f)"
  unfolding look_def
proof (rule blind_os_call)
  fix w v assume "no_log w = no_log v"
  from assms [OF this] this show "fst (f w, w) = fst (f v, v) \<and> no_log (snd (f w, w)) = no_log (snd (f v, v))"
    unfolding fst_conv snd_conv by (rule conjI)
qed

lemma silent_look: "silent (look f)"
  unfolding look_def by (rule silent_os_call) simp

lemma blind_reads: "blind (look (os_read p))" "blind (look (os_stat p))" "blind (look (SHA1 p))"
  "blind (look (\<lambda>w. ne_cat env (files w)))"
  by (rule blind_look; drule no_log_eqD; simp add: SHA1_def os_read_def os_stat_def split: option.split)+

lemma blind_writes: "blind (os_call (os_create p))" "blind (os_call (os_put p b))" "blind (os_call (os_remove p))"
  "blind (os_call (nginx_t env))"
  "blind (os_call (\<lambda>w. case ne_kill env pid of Some e \<Rightarrow> (Some e, w) | None \<Rightarrow> (None, log_event (Hup pid (files w)) w)))"
  by (rule blind_os_call; frule no_log_eqD;
      auto simp: os_create_def os_put_def os_remove_def nginx_t_def Let_def split: write_fault.split option.split)+

lemma blind_cases:
  "(\<And>a. blind (f a)) \<Longrightarrow> (\<And>b. blind (g b)) \<Longrightarrow> blind (case s of Inl a \<Rightarrow> f a | Inr b \<Rightarrow> g b)"
  "blind q \<Longrightarrow> (\<And>c. blind (k c)) \<Longrightarrow> blind (case x of None \<Rightarrow> q | Some c \<Rightarrow> k c)"
  "blind q \<Longrightarrow> (\<And>m. blind (h m)) \<Longrightarrow> (\<And>m. blind (h' m)) \<Longrightarrow>
    blind (case r of RunOk \<Rightarrow> q | RunExit m \<Rightarrow> h m | RunFail m \<Rightarrow> h' m)"
  "blind q \<Longrightarrow> blind q' \<Longrightarrow> blind (if d then q else q')"
  by (auto split: sum.split option.split run_result.split)

lemma blind_and_then: "blind p \<Longrightarrow> blind q \<Longrightarrow> blind (and_then p q)"
  unfolding and_then_def by (intro blind_bind blind_cases blind.Done)

lemmas blind_rules = blind_bind blind_and_then blind_cases blind.Done blind_reads blind_writes

lemma blind_generateConf: "blind (generateConf_calls src dst)"
  unfolding generateConf_calls_def os_write_calls_def Let_def by (intro blind_rules)

lemma blind_CleanConf: "blind (CleanConf_calls fs)"
  by (induction fs) (simp_all only: CleanConf_calls.simps, intro blind_rules, intro blind_rules)

lemma blind_deferred: "blind p \<Longrightarrow> blind (deferred_calls fs p)"
  unfolding deferred_calls_def by (intro blind_rules blind_CleanConf)

lemma blind_running: "(\<And>v. isRunning env v) \<Longrightarrow> blind (look (isRunning env))"
  by (rule blind_look) simp

lemma blind_restart: "(\<And>v. isRunning env v) \<Longrightarrow> blind (gracefulRestart_calls env)"
  unfolding gracefulRestart_calls_def by (intro blind_rules blind_running)

lemma blind_reload: "(\<And>v. isRunning env v) \<Longrightarrow> blind (reload_calls env name)"
  unfolding reload_calls_def Let_def backupConf_calls_def test_and_restart_calls_def rolloutConf_calls_def
  by (intro blind_deferred blind_rules blind_generateConf blind_restart)

lemma silent_watcher: "silent (watcher_calls env)"
proof -
  have test: "silent (os_call (nginx_t env))" by (rule silent_os_call) (simp add: nginx_t_def)
  have kill: "silent (os_call (\<lambda>w. case ne_kill env pid of Some e \<Rightarrow> (Some e, w)
      | None \<Rightarrow> (None, log_event (Hup pid (files w)) w)))" for pid
    by (rule silent_os_call) (simp split: option.split)
  have "silent (gracefulRestart_calls env)"
    unfolding gracefulRestart_calls_def
    by (intro silent_bind silent_look; auto intro!: silent_bind silent_look kill silent.Done split: sum.split option.split)
  then show ?thesis
    unfolding watcher_calls_def
    by (intro silent_bind test) (auto intro!: silent_bind silent.Done split: run_result.split)
qed

text \<open>While nginx runs no goroutine ends the process.\<close>

abbreviation survives :: "unit result act \<Rightarrow> bool" where
  "survives \<equiv> yields (\<lambda>r. r \<noteq> Inl Exit)"

lemma yields_cases:
  "(\<And>a. yields P (f a)) \<Longrightarrow> (\<And>b. yields P (g b)) \<Longrightarrow> yields P (case s of Inl a \<Rightarrow> f a | Inr b \<Rightarrow> g b)"
  "yields P q \<Longrightarrow> (\<And>c. yields P (k c)) \<Longrightarrow> yields P (case x of None \<Rightarrow> q | Some c \<Rightarrow> k c)"
  "yields P q \<Longrightarrow> (\<And>m. yields P (h m)) \<Longrightarrow> (\<And>m. yields P (h' m)) \<Longrightarrow>
    yields P (case r of RunOk \<Rightarrow> q | RunExit m \<Rightarrow> h m | RunFail m \<Rightarrow> h' m)"
  "yields P q \<Longrightarrow> yields P q' \<Longrightarrow> yields P (if d then q else q')"
  by (auto split: sum.split option.split run_result.split)

lemmas yields_then = yields_bind [OF yields_any]

lemma survives_and_then: "survives p \<Longrightarrow> survives q \<Longrightarrow> survives (and_then p q)"
  unfolding and_then_def by (erule yields_bind) (auto intro: yields.Done split: sum.split)

lemma survives_Done: "r \<noteq> Inl Exit \<Longrightarrow> survives (Done r)"
  by (rule yields.Done)

lemma survives_generateConf: "survives (generateConf_calls src dst)"
  unfolding generateConf_calls_def Let_def
  by (intro yields_then yields_cases survives_Done) simp_all

lemma survives_deferred: "survives p \<Longrightarrow> survives (deferred_calls fs p)"
  unfolding deferred_calls_def by (erule yields_bind) (auto intro!: yields_then survives_Done)

lemma survives_restart:
  assumes "\<And>v. isRunning env v"
  shows "survives (gracefulRestart_calls env)"
proof -
  have "yields (\<lambda>b. b) (look (isRunning env))"
    unfolding look_def by (rule yields_os_call) (simp add: assms)
  moreover define ending where "ending = abind (look (isRunning env)) (\<lambda>running. Done (if running then Inr () else Inl Exit))"
  ultimately have "survives ending"
    unfolding ending_def by (elim yields_bind) (simp add: survives_Done)
  then show ?thesis
    unfolding gracefulRestart_calls_def ending_def [symmetric] by (intro yields_then yields_cases survives_Done) simp_all
qed

lemma survives_reload: "(\<And>v. isRunning env v) \<Longrightarrow> survives (reload_calls env name)"
  unfolding reload_calls_def Let_def backupConf_calls_def test_and_restart_calls_def rolloutConf_calls_def
  by (intro survives_deferred survives_and_then yields_then yields_cases survives_generateConf survives_restart survives_Done) simp_all

lemma survives_watcher: "(\<And>v. isRunning env v) \<Longrightarrow> survives (watcher_calls env)"
  unfolding watcher_calls_def
  by (intro yields_then yields_cases yields_bind [OF survives_restart] survives_Done) simp_all

text \<open>What holds all along: the reload has the outcome before it that it would have alone.\<close>

definition undisturbed :: "unit result \<Rightarrow> world \<Rightarrow> unit result act list \<times> world \<Rightarrow> bool" where
  "undisturbed r v s \<longleftrightarrow>
     (\<exists>p ts. fst s = p # ts \<and> blind p \<and> (\<forall>t\<in>set ts. silent t) \<and> (\<forall>t\<in>set (fst s). survives t) \<and>
        fst (run_act p (snd s)) = r \<and> no_log (snd (run_act p (snd s))) = no_log v)"

lemma sys_step_undisturbed:
  assumes "sys_step (us, w) (us', w')" and "undisturbed r v (us, w)"
  shows "undisturbed r v (us', w')"
  using assms(1)
proof (cases rule: sys_step.cases)
  case (call i f q)
  from assms(2) obtain p ts where us: "us = p # ts" and p: "blind p" and ts: "\<forall>t\<in>set ts. silent t"
    and live: "\<forall>t\<in>set us. survives t" and run: "fst (run_act p w) = r" "no_log (snd (run_act p w)) = no_log v"
    by (auto simp: undisturbed_def)
  have fw: "fst (f w) = q" "snd (f w) = w'" using call(5) by simp_all
  have "survives (Call f)" using live call(3,4) by (metis nth_mem)
  then have "survives q" using yields_Call fw(1) by metis
  then have live': "\<forall>t\<in>set us'. survives t" using live call(1) set_update_subset_insert by fastforce
  show ?thesis
  proof (cases i)
    case 0
    then have "p = Call f" using call(4) us by simp
    moreover from this have "blind q" using blind_Call p fw(1) by metis
    ultimately show ?thesis
      using us ts live' run call(1) 0 fw unfolding undisturbed_def by (auto simp: split_beta)
  next
    case (Suc j)
    then have j: "j < length ts" "ts ! j = Call f" using call(3,4) us by simp_all
    then have "silent (Call f)" using ts by (metis nth_mem)
    from silent_Call [OF this, of w] have q: "silent q" "no_log w' = no_log w" using fw by simp_all
    from blind_run [OF p q(2)] run have "fst (run_act p w') = r" "no_log (snd (run_act p w')) = no_log v" by simp_all
    moreover have "\<forall>t\<in>set (ts[j := q]). silent t" using ts q(1) set_update_subset_insert by fastforce
    ultimately show ?thesis using us p live' call(1) Suc unfolding undisturbed_def by auto
  qed
qed

lemma goroutines_undisturbed:
  assumes "\<And>v. isRunning env v"
  shows "undisturbed (fst (reload env name w)) (snd (reload env name w)) (goroutines env [name] watchers, w)"
  using blind_reload [OF assms, of name] survives_reload [OF assms, of name] survives_watcher [OF assms] silent_watcher
  by (auto simp: undisturbed_def goroutines_def run_reload)

lemma reload_clears:
  assumes "healthy_conf w name" and "fst (reload env name w) \<noteq> Inl Exit"
  shows "files (snd (reload env name w)) (name @ ''-test.conf'') = None \<and> files (snd (reload env name w)) (name @ ''.tmp'') = None"
proof -
  obtain r w1 where d: "reload env name w = deferred [name @ ''.tmp'', name @ ''-test.conf''] (r, w1)"
    and t: "touches_only {name @ ''.conf'', name @ ''-test.conf'', name @ ''.tmp''} w w1" by (metis reload_body)
  have "healthy_conf w1 name" using assms(1) touches_only_healthy [OF t] by (simp add: healthy_conf_def)
  moreover have "r \<noteq> Inl Exit" using assms(2) d by (cases "r = Inl Exit") auto
  ultimately show ?thesis using d by (simp add: deferred_returns CleanConf_settled settled_def)
qed

fun finished :: "'a act \<Rightarrow> bool" where
  "finished (Done _) = True"
| "finished (Call _) = False"

lemma finished_iff: "finished t \<longleftrightarrow> (\<forall>f. t \<noteq> Call f)"
  by (cases t) simp_all

section \<open>Properties\<close>

text \<open>C19. A reload with any number of watchers beside it, while nginx runs: however their calls are
  interleaved, when none has a call left all of them have returned, and the files are what the abstract
  operation says: the installed configuration is the generated content or the old one, by the verdict of
  nginx, the temporary files are gone and no other file has changed.\<close>

theorem reload_beside_watchers:
  assumes "sys_step\<^sup>*\<^sup>* (goroutines env [name] watchers, w) (ts, w')" and "\<nexists>s. sys_step (ts, w') s"
    and "\<And>v. isRunning env v"
    and "healthy_conf w name" and "files w (name @ ''-test.conf'') = Some new" and "new \<noteq> []"
  shows "list_all finished ts \<and>
    installed name w' = install (nginx_accepts env name new w) new (installed name w) \<and>
    files w' (name @ ''-test.conf'') = None \<and> files w' (name @ ''.tmp'') = None \<and>
    (\<forall>p. p \<notin> {name @ ''.conf'', name @ ''-test.conf'', name @ ''.tmp''} \<longrightarrow> files w' p = files w p)"
proof -
  let ?r = "fst (reload env name w)" and ?v = "snd (reload env name w)"
  have "undisturbed ?r ?v s" if "sys_step\<^sup>*\<^sup>* (goroutines env [name] watchers, w) s" for s
    using that
  proof (induction rule: rtranclp_induct)
    case (step s s')
    then show ?case using sys_step_undisturbed by (cases s, cases s') blast
  qed (rule goroutines_undisturbed [OF assms(3)])
  from this [OF assms(1)] obtain p us where ts: "ts = p # us" and live: "\<forall>t\<in>set ts. survives t"
    and run: "fst (run_act p w') = ?r" "no_log (snd (run_act p w')) = no_log ?v" by (auto simp: undisturbed_def)
  have alive: "\<not> ended t" if "t \<in> set ts" for t
    using live that yields_Done [of "\<lambda>r. r \<noteq> Inl Exit"] by (cases t rule: ended.cases) auto
  then have over: "list_all finished ts"
    using sys_step_possible [of ts w'] assms(2) by (auto simp: list_all_iff finished_iff)
  then obtain r where "p = Done r" using ts by (cases p) auto
  with run have files: "files w' = files ?v" by (auto dest: no_log_eqD)
  have "?r \<noteq> Inl Exit"
    using yields_run [OF survives_reload [OF assms(3)], of name w] by (simp add: run_reload)
  from reload_clears [OF assms(4) this] reload_outcome [OF assms(4-6), of env] over
  show ?thesis by (simp add: installed_def files)
qed

theorem reload_beside_watchers_witness:
  "\<exists>ts w'. sys_step\<^sup>*\<^sup>* (goroutines (sample_env RunOk) [sample_name] 1, sample_world sample_files) (ts, w') \<and>
    list_all finished ts \<and> installed sample_name w' = Some ''server b''"
proof -
  let ?env = "sample_env RunOk" and ?w = "sample_world sample_files"
  obtain ts w' where run: "sys_step\<^sup>*\<^sup>* (goroutines ?env [sample_name] 1, ?w) (ts, w')" "\<nexists>s. sys_step (ts, w') s"
    using goroutines_end by (metis surj_pair)
  have running: "isRunning ?env v" for v by (simp add: isRunning_def sample_env_def)
  have "nginx_accepts ?env sample_name ''server b'' ?w" by (simp add: nginx_accepts_def sample_env_def)
  with reload_beside_watchers [OF run running, of "''server b''"] sample_digests
  have "list_all finished ts \<and> installed sample_name w' = Some ''server b''"
    by (simp add: sample_facts installed_def)
  with run(1) show ?thesis by blast
qed

end
