(* ===== verification/Reactions.thy ===== *)
theory Reactions
  imports Convergence Watcher Undisturbed
begin

text \<open>
  The controller and the watcher of the configuration directory together. A reconciliation is given once
  more as a sequence of calls, so that the files between them can be seen; the library of the watcher
  turns every change of the directory into deliveries, which wake the loop of \<open>Watcher\<close>. The
  library is a parameter: a function from a directory and its files before and after a call to the
  deliveries for it.
\<close>

section \<open>A reconciliation as a sequence of calls\<close>

text \<open>
  Every call of a reload is a step of its own. The certificates, the rendering with the file it writes to
  be tested, and the clearing of a configuration are one step each; what only computes or asks the
  cluster is no step.
\<close>

definition update_calls :: "template_rest \<Rightarrow> nginx_env \<Rightarrow> configure \<Rightarrow> unit result act" where
  "update_calls tr env cfg =
     and_then (os_call (generateConfigureBytes tr cfg)) (reload_calls env (cf_ConfName cfg))"

definition generateBackendTemplate_calls ::
    "template_rest \<Rightarrow> nginx_env \<Rightarrow> NginxController \<Rightarrow> ing_annotations \<Rightarrow> unit result act" where
  "generateBackendTemplate_calls tr env n ann =
     abind (os_call (getBackendConfigure n ann)) (\<lambda>r. case r of
         Inl f \<Rightarrow> Done (Inl f)
       | Inr serversCfg \<Rightarrow> update_calls tr env (backend_configure n ann serversCfg))"

definition generateDefaultBackendTemplate_calls ::
    "template_rest \<Rightarrow> nginx_env \<Rightarrow> NginxController \<Rightarrow> ing_annotations \<Rightarrow> unit result act" where
  "generateDefaultBackendTemplate_calls tr env n ann =
     (case getDefaultBackendConfigure n ann of
        Inl f \<Rightarrow> Done (Inl f)
      | Inr defaultCfg \<Rightarrow> update_calls tr env (default_configure ann defaultCfg))"

definition GenerateConfigure_calls ::
    "template_rest \<Rightarrow> nginx_env \<Rightarrow> NginxController \<Rightarrow> ing_annotations \<Rightarrow> unit result act" where
  "GenerateConfigure_calls tr env n ann =
     and_then
       (if length (Rules (ing_Spec (nc_ingress n))) > 0 then generateBackendTemplate_calls tr env n ann else Done (Inr ()))
       (if DefaultBackend (ing_Spec (nc_ingress n)) \<noteq> None
        then generateDefaultBackendTemplate_calls tr env n ann else Done (Inr ()))"

text \<open>The delay of the next reconciliation after the generator returned.\<close>

definition requeue :: "unit result \<Rightarrow> nat result" where
  "requeue r = (case r of Inl (Err _) \<Rightarrow> Inr 15 | Inl f \<Rightarrow> Inl f | Inr _ \<Rightarrow> Inr 0)"

definition generate_calls :: "'c outside \<Rightarrow> ingress \<Rightarrow> 'c \<Rightarrow> nat result act" where
  "generate_calls out ic c =
     (let rr = info_resolver (info_at (rc_api out) ic c)
      in case Extract (rc_mergo out) (rc_order out (NewAnnotationExtractor rr)) ic of
           Inl (Err _) \<Rightarrow> Done (Inr 15)
         | Inl f \<Rightarrow> Done (Inl f)
         | Inr parsed \<Rightarrow>
             abind (GenerateConfigure_calls (rc_tr out) (rc_env out) \<lparr>nc_rr = rr, nc_ingress = ic\<rparr> parsed)
               (\<lambda>r. Done (requeue r)))"

definition resources_then_generate_calls :: "'c outside \<Rightarrow> ingress \<Rightarrow> 'c \<Rightarrow> (nat result \<times> 'c) act" where
  "resources_then_generate_calls out ic c =
     (case ReconcileResource (rc_api out) ic c of
        (Inl (Err _), c1) \<Rightarrow> Done (Inr 15, c1)
      | (Inl f, c1) \<Rightarrow> Done (Inl f, c1)
      | (Inr _, c1) \<Rightarrow> abind (generate_calls out ic c1) (\<lambda>r. Done (r, c1)))"

definition Reconcile_calls :: "'c outside \<Rightarrow> object_key \<Rightarrow> 'c \<Rightarrow> (nat result \<times> 'c) act" where
  "Reconcile_calls out req c =
     (let cl = ap_view (rc_api out) c
      in case cl_Ingress cl req of
           Inl _ \<Rightarrow> abind (os_call (clearConf (rc_tr out) (rc_env out) req)) (\<lambda>r. Done (ebind r (\<lambda>_. Inr 0), c))
         | Inr ic \<Rightarrow>
             if checkController cl ic \<noteq> None then Done (Inr 30, c)
             else
               (case (case DefaultBackend (ing_Spec ic) of None \<Rightarrow> Inr [] | Some d \<Rightarrow> check_backend cl ic d) of
                  Inl f \<Rightarrow> Done (Inl f, c)
                | Inr (e # _) \<Rightarrow> Done (Inr 30, c)
                | Inr [] \<Rightarrow>
                    (case check_rules cl ic of
                       Inl f \<Rightarrow> Done (Inl f, c)
                     | Inr errList \<Rightarrow>
                         if length errList > 0 then Done (Inr 30, c)
                         else resources_then_generate_calls out ic c)))"

lemma run_update: "run_act (update_calls tr env cfg) w =
    sbind (generateConfigureBytes tr cfg w) (\<lambda>_ w2. Reload env (cf_ConfName cfg) w2)"
proof -
  have "run_act (reload_calls env name) = reload env name" for name by (rule ext) (rule run_reload)
  then show ?thesis by (simp add: update_calls_def run_and_then Reload_def)
qed

lemma run_GenerateConfigure: "run_act (GenerateConfigure_calls tr env n ann) w = GenerateConfigure tr env n ann w"
proof -
  have b: "run_act (generateBackendTemplate_calls tr env n ann) w = generateBackendTemplate tr env n ann w" for w
    by (cases "getBackendConfigure n ann w")
       (auto simp: generateBackendTemplate_calls_def generateBackendTemplate_def run_abind run_update split: sum.split)
  have d: "run_act (generateDefaultBackendTemplate_calls tr env n ann) w = generateDefaultBackendTemplate tr env n ann w" for w
    by (cases "getDefaultBackendConfigure n ann")
       (simp_all add: generateDefaultBackendTemplate_calls_def generateDefaultBackendTemplate_def run_update)
  then have "run_act (generateDefaultBackendTemplate_calls tr env n ann) = generateDefaultBackendTemplate tr env n ann" by (rule ext)
  then show ?thesis
    by (simp add: GenerateConfigure_calls_def GenerateConfigure_def run_and_then b if_distrib [where f = run_act] cong: if_cong)
qed

lemma run_generate: "run_act (generate_calls out ic c) w = generate out ic c w"
  by (auto simp: generate_calls_def generate_def Let_def run_abind run_GenerateConfigure requeue_def
      split: sum.split fault.split prod.split)

lemma run_Reconcile:
  "run_act (Reconcile_calls out req c) w = (case Reconcile out req c w of (r, c1, w1) \<Rightarrow> ((r, c1), w1))"
proof -
  have "run_act (resources_then_generate_calls out ic c) w =
      (case resources_then_generate out ic c w of (r, c1, w1) \<Rightarrow> ((r, c1), w1))" for ic
    by (auto simp: resources_then_generate_calls_def resources_then_generate_def run_abind run_generate
        split: sum.split fault.split prod.split)
  then show ?thesis
    by (auto simp: Reconcile_calls_def Reconcile_def Let_def run_abind split: sum.split prod.split list.split)
qed

section \<open>The files from call to call\<close>

text \<open>The worlds before and after each call of a sequence that runs from a world.\<close>

primrec steps :: "'a act \<Rightarrow> world \<Rightarrow> (world \<times> world) list" where
  "steps (Done a) = (\<lambda>w. [])"
| "steps (Call f) = (\<lambda>w. (\<lambda>(k, w1). (w, w1) # k w1) (map_prod steps id (f w)))"

lemma steps_abind: "steps (abind p k) w = steps p w @ (case run_act p w of (a, w1) \<Rightarrow> steps (k a) w1)"
proof (induction p arbitrary: w rule: act_induct)
  case (Call f)
  obtain p w1 where f: "f w = (p, w1)" by (meson surj_pair)
  with Call [OF f, of w1] show ?case by simp
qed simp

lemma steps_os_call: "steps (os_call op) w = [(w, snd (op w))]"
  by (cases "op w") (simp add: os_call_def)

lemma steps_look: "steps (look f) w = [(w, w)]"
  by (simp add: look_def steps_os_call)

text \<open>Cleaning up removes the files that are there.\<close>

lemma steps_CleanConf:
  assumes "v \<in> set fs" and "files w v \<noteq> None" and "list_all (healthy w) fs"
  shows "\<exists>u. (u, set_file v None u) \<in> set (steps (CleanConf_calls fs) w) \<and> files u v \<noteq> None"
  using assms
proof (induction fs arbitrary: w)
  case (Cons x fs)
  have h: "healthy w x" "list_all (healthy w) fs" using Cons.prems(3) by simp_all
  show ?case
  proof (cases "files w x")
    case None
    then have "v \<noteq> x" using Cons.prems(2) by auto
    with Cons.IH [of w] Cons.prems(1,2) h(2) None show ?thesis
      by (auto simp: steps_abind steps_look os_stat_def)
  next
    case (Some c)
    have S: "set (steps (CleanConf_calls (x # fs)) w) =
        {(w, w), (w, set_file x None w)} \<union> set (steps (CleanConf_calls fs) (set_file x None w))"
      using Some os_remove_healthy [OF h(1)] by (cases "os_remove x w") (auto simp: steps_abind steps_look steps_os_call os_stat_def)
    show ?thesis
    proof (cases "v = x")
      case True
      with S Cons.prems(2) show ?thesis by blast
    next
      case False
      with Cons.IH [of "set_file x None w"] Cons.prems(1,2) h(2) S show ?thesis by auto
    qed
  qed
qed simp

lemma steps_deferred:
  assumes "run_act p w = (r, w1)" and "r \<noteq> Inl Exit"
  shows "set (steps (CleanConf_calls fs) w1) \<subseteq> set (steps (deferred_calls fs p) w)"
  using assms by (auto simp: deferred_calls_def steps_abind split: prod.split)

text \<open>A reload that finds the content unchanged removes the file that was to be tested.\<close>

lemma unchanged_reload_removes:
  assumes "healthy_conf w name" and "files w (name @ ''.conf'') = Some old" and "files w (name @ ''-test.conf'') = Some new"
    and "sha1_hex old = sha1_hex new"
  shows "\<exists>u. (u, set_file (name @ ''-test.conf'') None u) \<in> set (steps (reload_calls env name) w) \<and>
    files u (name @ ''-test.conf'') \<noteq> None"
proof -
  let ?body = "abind (look (os_stat (name @ ''.conf''))) (\<lambda>stat. case stat of
      Inr _ \<Rightarrow> abind (look (SHA1 (name @ ''.conf''))) (\<lambda>a. abind (look (SHA1 (name @ ''-test.conf''))) (\<lambda>b.
        if a = b then Done (Inr ()) else and_then (backupConf_calls (name @ ''.conf'') (name @ ''-test.conf'') (name @ ''.tmp''))
          (test_and_restart_calls env False (name @ ''.conf'') (name @ ''-test.conf'') (name @ ''.tmp''))))
    | Inl _ \<Rightarrow> test_and_restart_calls env True (name @ ''.conf'') (name @ ''-test.conf'') (name @ ''.tmp''))"
  have "run_act ?body w = (Inr (), w)"
    using assms by (simp add: run_abind os_stat_simps SHA1_healthy healthy_conf_def)
  from steps_deferred [OF this, of "[name @ ''.tmp'', name @ ''-test.conf'']"]
  have "set (steps (CleanConf_calls [name @ ''.tmp'', name @ ''-test.conf'']) w) \<subseteq> set (steps (reload_calls env name) w)"
    by (simp add: reload_calls_def Let_def)
  moreover have "\<exists>u. (u, set_file (name @ ''-test.conf'') None u) \<in> set (steps (CleanConf_calls [name @ ''.tmp'', name @ ''-test.conf'']) w) \<and>
      files u (name @ ''-test.conf'') \<noteq> None"
    using assms(1,3) by (intro steps_CleanConf) (simp_all add: healthy_conf_def)
  ultimately show ?thesis by blast
qed

section \<open>What the library delivers\<close>

type_synonym notifier = "string \<Rightarrow> file_map \<Rightarrow> file_map \<Rightarrow> delivery list"

definition removed_in :: "string \<Rightarrow> file_map \<Rightarrow> file_map \<Rightarrow> string \<Rightarrow> bool" where
  "removed_in dir f f' name \<longleftrightarrow> CHR ''/'' \<notin> set name \<and> f (dir @ ''/'' @ name) \<noteq> None \<and> f' (dir @ ''/'' @ name) = None"

text \<open>A file that is removed from a directory is reported, and the channels of a watcher that nobody closes
  stay open.\<close>

definition reports_removals :: "notifier \<Rightarrow> bool" where
  "reports_removals notify \<longleftrightarrow>
     (\<forall>dir f f'. EventsClosed \<notin> set (notify dir f f') \<and> ErrorsClosed \<notin> set (notify dir f f') \<and>
        ((\<exists>name. removed_in dir f f' name) \<longrightarrow> (\<exists>e. Event e \<in> set (notify dir f f') \<and> event_Has e RemoveOp)))"

text \<open>What the library makes of the calls of a sequence, one after the other, and the watcher taking it once
  the sequence is over.\<close>

definition deliveries :: "notifier \<Rightarrow> string \<Rightarrow> (world \<times> world) list \<Rightarrow> delivery list" where
  "deliveries notify dir ss = concat (map (\<lambda>(v, v'). notify dir (files v) (files v')) ss)"

definition react :: "nginx_env \<Rightarrow> notifier \<Rightarrow> WatcherFile \<Rightarrow> (world \<times> world) list \<Rightarrow> world \<Rightarrow> world" where
  "react env notify fw ss w = snd (watch env fw (deliveries notify (wf_dir fw) ss) w)"

section \<open>Facts\<close>

lemma wakes_once:
  assumes "accepts_all env" and "\<And>w. restarts env pid w"
  shows "reloadIfWatchFileCurd env w = (Inr (), log_event (Hup pid (files w)) (log_event (Tested (files w)) w))"
proof -
  have "\<not> failed_run (ne_test env (files w))" using assms(1) by (simp add: accepts_all_def)
  with gracefulRestart_ok [OF assms(2), of "log_event (Tested (files w)) w"] show ?thesis
    by (cases "ne_test env (files w)") (simp_all add: reloadIfWatchFileCurd_def nginx_t_def)
qed

text \<open>A watcher makes one test and one signal for every delivery it has an answer to.\<close>

fun answers :: "WatcherFile \<Rightarrow> delivery \<Rightarrow> bool" where
  "answers fw (Event e) = calls_back fw e"
| "answers fw _ = False"

lemma watch_answers:
  assumes "accepts_all env" and "\<And>w. restarts env pid w" and "EventsClosed \<notin> set ds" and "ErrorsClosed \<notin> set ds"
  shows "events (snd (watch env fw ds w)) =
    events w @ concat (replicate (length (filter (answers fw) ds)) [Tested (files w), Hup pid (files w)])"
  using assms(3,4)
proof (induction ds arbitrary: w)
  case (Cons d ds)
  then show ?case by (cases d) (simp_all add: wakes_once [OF assms(1,2)])
qed simp

lemma react_to_removal:
  assumes "accepts_all env" and "\<And>w. restarts env pid w" and "reports_removals notify"
    and "wf_dir fw = ConfDir" and "(v, v') \<in> set ss" and "removed_in ConfDir (files v) (files v') name"
  shows "\<exists>n. events (react env notify fw ss w) = events w @ concat (replicate (Suc n) [Tested (files w), Hup pid (files w)])"
proof -
  let ?ds = "deliveries notify ConfDir ss"
  have open_channels: "EventsClosed \<notin> set ?ds" "ErrorsClosed \<notin> set ?ds"
    using assms(3) by (auto simp: deliveries_def reports_removals_def)
  from assms(3,6) obtain e where "Event e \<in> set (notify ConfDir (files v) (files v'))" "event_Has e RemoveOp"
    unfolding reports_removals_def by blast
  then have "Event e \<in> set (filter (answers fw) ?ds)"
    using assms(4,5) by (auto simp: calls_back_def deliveries_def)
  then have "filter (answers fw) ?ds \<noteq> []" by (metis empty_iff empty_set)
  then obtain d ds' where "filter (answers fw) ?ds = d # ds'" by (meson list.exhaust)
  then have "length (filter (answers fw) ?ds) = Suc (length ds')" by simp
  with watch_answers [OF assms(1,2) open_channels, of fw w] assms(4) show ?thesis
    unfolding react_def by (intro exI [of _ "length ds'"]) simp
qed

lemma react_files: "files (react env notify fw ss w) = files w"
  by (simp add: react_def watch_log)

text \<open>The calls of a reconciliation of an ingress that is ready are those of the update of its back ends.\<close>

lemma Reconcile_calls_ready:
  assumes "libraries_ok out" and "ready out c ic" and "cl_Ingress (ap_view (rc_api out) c) req = Inr ic"
  shows "\<exists>t ann. desired_conf (ap_view (rc_api out) c) ic = Inr t \<and> plain_text t \<and>
    desired_text (controller_of (ap_view (rc_api out) c) ic) ann = Inr t \<and>
    Reconcile_calls out req c = abind (abind (abind
      (generateBackendTemplate_calls (rc_tr out) (rc_env out) (controller_of (ap_view (rc_api out) c) ic) ann)
      (\<lambda>r. case r of Inl f \<Rightarrow> Done (Inl f) | Inr _ \<Rightarrow> Done (Inr ()))) (\<lambda>r. Done (requeue r))) (\<lambda>r. Done (r, c))"
proof -
  let ?cl = "ap_view (rc_api out) c"
  from assms(2) obtain t where t: "desired_conf ?cl ic = Inr t" "plain_text t" by (auto simp: ready_def)
  then obtain ann where ann: "desired_annotations (NewIngressInfo ?cl ic) ic = Inr ann"
      "desired_text (controller_of ?cl ic) ann = Inr t"
    by (auto simp: desired_conf_def ebind_eq_Inr)
  have n: "\<lparr>nc_rr = info_resolver (info_at (rc_api out) ic c), nc_ingress = ic\<rparr> = controller_of ?cl ic"
    by (simp add: controller_of_def info_at_def)
  have "Extract (rc_mergo out) (rc_order out (NewAnnotationExtractor (info_resolver (info_at (rc_api out) ic c)))) ic = Inr ann"
    using Extract_ready [OF assms(1), of ic c ann] ann(1) by simp
  then have "generate_calls out ic c = abind (GenerateConfigure_calls (rc_tr out) (rc_env out) (controller_of ?cl ic) ann)
      (\<lambda>r. Done (requeue r))"
    by (simp add: generate_calls_def Let_def n)
  moreover have "GenerateConfigure_calls (rc_tr out) (rc_env out) (controller_of ?cl ic) ann =
      abind (generateBackendTemplate_calls (rc_tr out) (rc_env out) (controller_of ?cl ic) ann)
        (\<lambda>r. case r of Inl f \<Rightarrow> Done (Inl f) | Inr _ \<Rightarrow> Done (Inr ()))"
    using assms(2) by (simp add: GenerateConfigure_calls_def and_then_def ready_def)
  moreover have "Reconcile_calls out req c = abind (generate_calls out ic c) (\<lambda>r. Done (r, c))"
    using assms(2,3) by (simp add: Reconcile_calls_def resources_then_generate_calls_def ready_def)
  ultimately show ?thesis using t ann(2) by (intro exI [of _ t] exI [of _ ann]) simp
qed

lemma settled_reconcile_removes:
  assumes "libraries_ok out" and "ready out c ic" and "cl_Ingress (ap_view (rc_api out) c) req = Inr ic"
    and "healthy_disk w" and "templates_there w" and "in_sync (ap_view (rc_api out) c) ic w"
  shows "\<exists>w1 v v'. Reconcile out req c w = (Inr 0, c, w1) \<and> events w1 = events w \<and>
    (v, v') \<in> set (steps (Reconcile_calls out req c) w) \<and>
    removed_in ConfDir (files v) (files v') (ing_Name ic @ ''-'' @ ing_Namespace ic @ ''-test.conf'')"
proof -
  let ?cl = "ap_view (rc_api out) c" and ?name = "ing_conf ic"
  let ?n = "controller_of ?cl ic"
  from Reconcile_calls_ready [OF assms(1-3)] obtain t ann where
    t: "desired_conf ?cl ic = Inr t" "plain_text t" "desired_text ?n ann = Inr t"
    and calls: "Reconcile_calls out req c = abind (abind (abind (generateBackendTemplate_calls (rc_tr out) (rc_env out) ?n ann)
      (\<lambda>r. case r of Inl f \<Rightarrow> Done (Inl f) | Inr _ \<Rightarrow> Done (Inr ()))) (\<lambda>r. Done (requeue r))) (\<lambda>r. Done (r, c))" by blast
  have plain: "plain_certs ?n" "plain_ingress (nc_ingress ?n)" using assms(2) by (auto simp: ready_def)
  from update_writes_desired [OF assms(4,5) plain t(3,2), of "rc_tr out" "rc_env out"] obtain w0 cfg u where
    w0: "healthy_disk w0" "files w0 (?name @ ''-test.conf'') = Some t" "events w0 = events w"
      "files w0 (?name @ ''.conf'') = files w (?name @ ''.conf'')"
    and pieces: "getBackendConfigure ?n ann w = (Inr cfg, u)"
      "generateConfigureBytes (rc_tr out) (backend_configure ?n ann cfg) u = (Inr (), w0)"
      "cf_ConfName (backend_configure ?n ann cfg) = ?name" by auto
  from assms(6) t(1) obtain cur where cur: "files w0 (?name @ ''.conf'') = Some cur" "sha1_hex cur = sha1_hex t"
    using w0(4) by (auto simp: in_sync_def)
  note quiet = reload_unchanged [OF healthy_disk_conf [OF w0(1)] cur(1) w0(2) cur(2), of "rc_env out"]
  obtain w1 where w1: "reload (rc_env out) ?name w0 = (Inr (), w1)"
    using quiet by (cases "reload (rc_env out) ?name w0") auto
  have update: "run_act (generateBackendTemplate_calls (rc_tr out) (rc_env out) ?n ann) w = (Inr (), w1)"
    using pieces w1 by (simp add: generateBackendTemplate_calls_def run_abind run_update Reload_def)
  have inside: "set (steps (reload_calls (rc_env out) ?name) w0) \<subseteq> set (steps (Reconcile_calls out req c) w)"
    unfolding calls generateBackendTemplate_calls_def update_calls_def and_then_def using pieces
    by (auto simp: steps_abind)
  have "run_act (Reconcile_calls out req c) w = ((Inr 0, c), w1)"
    unfolding calls using update by (simp add: run_abind requeue_def)
  then have "Reconcile out req c w = (Inr 0, c, w1)"
    unfolding run_Reconcile by (simp split: prod.splits)
  moreover have "events w1 = events w" using quiet w1 w0(3) by simp
  moreover from unchanged_reload_removes [OF healthy_disk_conf [OF w0(1)] cur(1) w0(2) cur(2), of "rc_env out"] obtain v where
    v: "(v, set_file (?name @ ''-test.conf'') None v) \<in> set (steps (reload_calls (rc_env out) ?name) w0)"
      "files v (?name @ ''-test.conf'') \<noteq> None" by blast
  then have "removed_in ConfDir (files v) (files (set_file (?name @ ''-test.conf'') None v))
      (ing_Name ic @ ''-'' @ ing_Namespace ic @ ''-test.conf'')"
    using plain(2) by (simp add: removed_in_def ing_conf_def conf_name_def plain_ingress_def)
  ultimately show ?thesis using v(1) inside by blast
qed

section \<open>Properties\<close>

text \<open>C9. A reconciliation that finds everything in place runs no test and sends no signal of its own, but its
  clean-up removes a file of the watched directory. While nginx accepts and restarts, the watcher of
  that directory, woken by nothing but what the library reports of the calls of this reconciliation, then
  tests the files and signals nginx at least once, for a configuration that has not changed. The
  watcher changes no file, so it does not wake itself.\<close>

theorem settled_reconcile_wakes_watcher:
  assumes "libraries_ok out" and "ready out c ic" and "cl_Ingress (ap_view (rc_api out) c) req = Inr ic"
    and "healthy_disk w" and "templates_there w" and "in_sync (ap_view (rc_api out) c) ic w"
    and "accepts_all (rc_env out)" and "nginx_up (rc_env out)"
    and "reports_removals notify" and "wf_dir fw = ConfDir"
  shows "\<exists>w1 w2 pid n. Reconcile out req c w = (Inr 0, c, w1) \<and>
    run_act (Reconcile_calls out req c) w = ((Inr 0, c), w1) \<and> events w1 = events w \<and>
    w2 = react (rc_env out) notify fw (steps (Reconcile_calls out req c) w) w1 \<and>
    events w2 = events w @ concat (replicate (Suc n) [Tested (files w1), Hup pid (files w1)]) \<and> files w2 = files w1"
proof -
  let ?ss = "steps (Reconcile_calls out req c) w"
  from settled_reconcile_removes [OF assms(1-6)] obtain w1 v v' where
    w1: "Reconcile out req c w = (Inr 0, c, w1)" "events w1 = events w" and v: "(v, v') \<in> set ?ss"
    and gone: "removed_in ConfDir (files v) (files v') (ing_Name ic @ ''-'' @ ing_Namespace ic @ ''-test.conf'')" by blast
  from assms(8) obtain pid where "\<And>w. restarts (rc_env out) pid w" by (auto simp: nginx_up_def)
  from react_to_removal [OF assms(7) this assms(9,10) v gone] obtain n where
    "events (react (rc_env out) notify fw ?ss w1) = events w1 @ concat (replicate (Suc n) [Tested (files w1), Hup pid (files w1)])"
    by blast
  moreover have "run_act (Reconcile_calls out req c) w = ((Inr 0, c), w1)" using w1(1) by (simp add: run_Reconcile)
  ultimately show ?thesis
    using w1 by (intro exI [of _ w1] exI [of _ "react (rc_env out) notify fw ?ss w1"] exI [of _ pid] exI [of _ n])
      (simp only: react_files simp_thms)
qed

text \<open>A library that reports every removal and nothing else.\<close>

definition removal_notifier :: notifier where
  "removal_notifier dir f f' = (if \<exists>name. removed_in dir f f' name then [Event [RemoveOp]] else [])"

lemma removal_notifier_reports: "reports_removals removal_notifier"
  by (auto simp: reports_removals_def removal_notifier_def event_Has_def)

theorem settled_reconcile_wakes_watcher_witness:
  "\<exists>w w1 w2 pid n. Reconcile live_outside (key_of (live_ingress ''web'')) () w = (Inr 0, (), w1) \<and> events w1 = events w \<and>
     w2 = react (rc_env live_outside) removal_notifier \<lparr>wf_dir = ConfDir, wf_watcher = True\<rparr>
       (steps (Reconcile_calls live_outside (key_of (live_ingress ''web'')) ()) w) w1 \<and>
     events w2 = events w @ concat (replicate (Suc n) [Tested (files w1), Hup pid (files w1)])"
proof -
  obtain w where w: "in_sync (ap_view (rc_api live_outside) ()) (live_ingress ''web'') w" "healthy_disk w" "templates_there w"
    using live_first by auto
  have r: "cl_Ingress (ap_view (rc_api live_outside) ()) (key_of (live_ingress ''web'')) = Inr (live_ingress ''web'')"
    by (simp add: key_of_def)
  have ready: "ready live_outside () (live_ingress ''web'')" by (rule live_ready) simp_all
  have "wf_dir \<lparr>wf_dir = ConfDir, wf_watcher = True\<rparr> = ConfDir" by simp
  from settled_reconcile_wakes_watcher [OF live_libraries ready r w(2,3,1) live_nginx removal_notifier_reports this]
  show ?thesis by blast
qed

end
