(* ===== verification/Panics.thy ===== *)
theory Panics
  imports DefaultRuns Webhook
begin

text \<open>
  What makes the controller panic: a predicate that says a call does not, closed under the ways calls are
  put together, a condition on an ingress under which no reconciliation of it panics, whatever the
  cluster, the disk, the templates and the commands do, and what the admission webhook lets through.
\<close>

section \<open>Calls that do not panic\<close>

definition calm :: "'a result \<Rightarrow> bool" where
  "calm r \<longleftrightarrow> (\<forall>p. r \<noteq> Inl (Panic p))"

named_theorems calm_intros \<open>calls that do not panic\<close>

lemma calm_basic [simp]: "calm (Inr a)" "calm (Inl (Err e))" "calm (Inl Exit)" "\<not> calm (Inl (Panic p))"
  by (simp_all add: calm_def)

lemma calm_Inl: "calm (Inl f) \<longleftrightarrow> (\<forall>p. f \<noteq> Panic p)"
  by (auto simp: calm_def)

lemma calm_ebind [calm_intros]: "calm m \<Longrightarrow> (\<And>a. m = Inr a \<Longrightarrow> calm (f a)) \<Longrightarrow> calm (ebind m f)"
  by (cases m) (auto simp: calm_def)

lemma calm_sbind [calm_intros]:
  "calm (fst m) \<Longrightarrow> (\<And>a s. m = (Inr a, s) \<Longrightarrow> calm (fst (f a s))) \<Longrightarrow> calm (fst (sbind m f))"
  by (cases "(m, f)" rule: sbind.cases) (auto simp: calm_def)

lemma calm_emap [calm_intros]: "(\<And>x. x \<in> set xs \<Longrightarrow> calm (f x)) \<Longrightarrow> calm (emap f xs)"
  by (induction xs) (auto intro!: calm_ebind)

lemma calm_efold [calm_intros]: "(\<And>x s. x \<in> set xs \<Longrightarrow> calm (f x s)) \<Longrightarrow> calm (efold f xs s)"
  by (induction xs arbitrary: s) (auto intro!: calm_ebind)

lemma calm_lift_err [calm_intros]: "calm (lift_err r)"
  by (auto simp: calm_def)

lemma calm_deferred [calm_intros]: "calm (fst x) \<Longrightarrow> calm (fst (deferred fs x))"
  by (cases "(fs, x)" rule: deferred.cases) (auto simp: calm_def)

section \<open>The reload and the rendering\<close>

lemma calm_generateConf [calm_intros]: "calm (fst (generateConf src dst w))"
  by (simp add: generateConf_def split: sum.split prod.split option.split)

lemma calm_gracefulRestart [calm_intros]: "calm (fst (gracefulRestart env w))"
  by (simp add: gracefulRestart_def Let_def split: sum.split option.split)

lemma calm_reload [calm_intros]: "calm (fst (reload env name w))"
proof -
  have "calm (fst (test_and_restart env b p t x v))" for b p t x v
    unfolding test_and_restart_def rolloutConf_def nginx_t_def
    by (auto intro!: calm_intros split: run_result.split)
  moreover have "calm (fst (backupConf s t b v))" for s t b v
    unfolding backupConf_def by (intro calm_intros)
  ultimately show ?thesis
    unfolding reload_def Let_def by (intro calm_intros) (auto intro!: calm_intros split: sum.split)
qed

lemma calm_bytes [calm_intros]: "calm (fst (generateConfigureBytes tr cfg w))"
proof -
  have "calm (render_servers tr v ss c)" for v ss c
    by (induction ss arbitrary: c) (auto simp: generateServerBytes_def intro!: calm_intros)
  moreover have "calm (fst (write_test_conf name b v))" for name b v
    by (simp add: write_test_conf_def Let_def split: prod.split option.split sum.split)
  ultimately show ?thesis
    unfolding generateConfigureBytes_def include_servers_def by (auto intro!: calm_intros)
qed

lemma calm_clearConf: "calm (fst (clearConf tr env key w))"
proof -
  have "calm (fst (UpdateDefaultConf tr env default_renderer w))"
    unfolding UpdateDefaultConf_def rt_Render_def rt_Generate_def include_servers_def Let_def Reload_def
    by (auto intro!: calm_intros split: prod.split option.split sum.split)
  then have "calm (fst (drop_error (UpdateDefaultConf tr env default_renderer w)))"
    by (cases "UpdateDefaultConf tr env default_renderer w" rule: drop_error.cases) auto
  then show ?thesis by (simp add: clearConf_def Let_def split: sum.split)
qed

section \<open>The ingress\<close>

text \<open>Every pointer the controller follows is there.\<close>

definition complete_path :: "http_path \<Rightarrow> bool" where
  "complete_path p \<longleftrightarrow> ib_Service (hp_Backend p) \<noteq> None \<and> hp_PathType p \<noteq> None"

definition complete_ingress :: "ingress \<Rightarrow> bool" where
  "complete_ingress ic \<longleftrightarrow>
     list_all (\<lambda>v. case ir_HTTP v of None \<Rightarrow> False | Some ps \<Rightarrow> list_all complete_path ps) (Rules (ing_Spec ic)) \<and>
     (case DefaultBackend (ing_Spec ic) of None \<Rightarrow> True | Some d \<Rightarrow> ib_Service d \<noteq> None)"

text \<open>With the weights on, every rule has a path, and every entry has a colon and a service of one of the paths.\<close>

definition path_services :: "ingress \<Rightarrow> string set" where
  "path_services ic = {sb_Name sb | v ps p sb. v \<in> set (Rules (ing_Spec ic)) \<and> ir_HTTP v = Some ps \<and> p \<in> set ps \<and>
     ib_Service (hp_Backend p) = Some sb}"

definition uses_weight :: "ingress \<Rightarrow> bool" where
  "uses_weight ic = or_false (GetBoolAnnotations useWeightAnnotation ic weightAnnotation)"

definition weights_sound :: "ingress \<Rightarrow> bool" where
  "weights_sound ic \<longleftrightarrow>
     (uses_weight ic \<longrightarrow>
        list_all (\<lambda>v. ir_HTTP v \<noteq> Some []) (Rules (ing_Spec ic)) \<and>
        list_all (\<lambda>e. CHR '':'' \<in> set e \<and> hd (split_on CHR '':'' e) \<in> path_services ic)
          (entries (or_empty (GetStringAnnotation setWeightAnnotation ic weightAnnotation))))"

lemma complete_rule:
  assumes "complete_ingress ic" and "v \<in> set (Rules (ing_Spec ic))"
  obtains ps where "ir_HTTP v = Some ps" and "\<And>p. p \<in> set ps \<Longrightarrow> complete_path p"
  using assms unfolding complete_ingress_def list_all_iff by (auto split: option.splits)

lemma complete_pathE:
  assumes "complete_path p"
  obtains sb t where "ib_Service (hp_Backend p) = Some sb" and "hp_PathType p = Some t"
  using assms by (auto simp: complete_path_def)

lemma calm_GetService [calm_intros]: "calm (GetService t name)"
  by (simp add: GetService_def Let_def split: sum.split)

lemma calm_port: "ib_Service b \<noteq> None \<Longrightarrow> calm (port_of_backend t b)"
proof -
  assume "ib_Service b \<noteq> None"
  then obtain sb where "ib_Service b = Some sb" by blast
  moreover have "calm (GetService t (sb_Name sb))" by (rule calm_GetService)
  ultimately show ?thesis by (auto simp: port_of_backend_def calm_Inl split: sum.split fault.split)
qed

text \<open>Looking a service up by its name finds a path that has it, when there is one.\<close>

lemma backend_in_paths_found:
  assumes "\<And>p. p \<in> set ps \<Longrightarrow> complete_path p"
  shows "\<exists>b'. backend_in_paths n ps b = Inr b' \<and> (ib_Service b \<noteq> None \<longrightarrow> ib_Service b' \<noteq> None) \<and>
    ((\<exists>p\<in>set ps. \<exists>sb. ib_Service (hp_Backend p) = Some sb \<and> sb_Name sb = n) \<longrightarrow> ib_Service b' \<noteq> None)"
  using assms
proof (induction ps)
  case (Cons p ps)
  then obtain sb where "ib_Service (hp_Backend p) = Some sb" by (meson complete_pathE list.set_intros(1))
  with Cons show ?case by auto
qed simp

lemma GetBackend_found:
  assumes "complete_ingress ic" and "n \<in> path_services ic"
  shows "\<exists>b. GetBackend (NewIngressInfo cl ic) n = Inr b \<and> ib_Service b \<noteq> None"
proof -
  let ?has = "\<lambda>vs. \<exists>v\<in>set vs. \<exists>ps. ir_HTTP v = Some ps \<and> (\<exists>p\<in>set ps. \<exists>sb. ib_Service (hp_Backend p) = Some sb \<and> sb_Name sb = n)"
  have "\<exists>b'. efold (\<lambda>r backend. ebind (deref (ir_HTTP r)) (\<lambda>paths. backend_in_paths n paths backend)) vs b = Inr b' \<and>
      (ib_Service b \<noteq> None \<or> ?has vs \<longrightarrow> ib_Service b' \<noteq> None)"
    if "set vs \<subseteq> set (Rules (ing_Spec ic))" for vs b
    using that
  proof (induction vs arbitrary: b)
    case (Cons v vs)
    from Cons.prems obtain ps where ps: "ir_HTTP v = Some ps" "\<And>p. p \<in> set ps \<Longrightarrow> complete_path p"
      using complete_rule [OF assms(1)] by (metis list.set_intros(1) subset_iff)
    from backend_in_paths_found [OF ps(2)] obtain b1 where b1: "backend_in_paths n ps b = Inr b1"
      "ib_Service b \<noteq> None \<longrightarrow> ib_Service b1 \<noteq> None"
      "(\<exists>p\<in>set ps. \<exists>sb. ib_Service (hp_Backend p) = Some sb \<and> sb_Name sb = n) \<longrightarrow> ib_Service b1 \<noteq> None" by blast
    with Cons.IH [of b1] Cons.prems ps(1) show ?case by auto
  qed simp
  note loop = this [OF subset_refl, of "\<lparr>ib_Service = None\<rparr>"]
  have "?has (Rules (ing_Spec ic))" using assms(2) by (auto simp: path_services_def)
  with loop show ?thesis by (auto simp: GetBackend_def NewIngressInfo_def)
qed


section \<open>The weights\<close>

lemma calm_weight_entry:
  assumes "complete_ingress ic" and "trim_space a = [] \<or>
    CHR '':'' \<in> set (trim_space a) \<and> hd (split_on CHR '':'' (trim_space a)) \<in> path_services ic"
  shows "calm (weight_entry (info_resolver (NewIngressInfo cl ic)) s a st)"
proof (cases "trim_space a = []")
  case True
  then show ?thesis by (simp add: weight_entry_Nil)
next
  case False
  let ?t = "NewIngressInfo cl ic" and ?v = "split_on CHR '':'' (trim_space a)"
  from False assms(2) have e: "CHR '':'' \<in> set (trim_space a)" "hd ?v \<in> path_services ic" by simp_all
  from e(1) obtain xs ys where "trim_space a = xs @ CHR '':'' # ys" by (meson split_list)
  then have len: "1 < length ?v"
    by (cases "split_on CHR '':'' xs"; cases "split_on CHR '':'' ys") (simp_all add: split_on_append)
  have hd: "?v ! 0 = hd ?v" by (simp add: hd_conv_nth)
  obtain b where b: "GetBackend ?t (hd ?v) = Inr b" "ib_Service b \<noteq> None"
    using GetBackend_found [OF assms(1) e(2), of cl] by blast
  have "calm (case GetService ?t (hd ?v) of Inl (Err _) \<Rightarrow> Inl (Err (NewIsMissResourcesError (hd ?v))) | r \<Rightarrow> r)"
    using calm_GetService [of ?t "hd ?v"] by (auto simp: calm_Inl split: sum.split fault.split)
  moreover have "calm (GetSvcPort ?t (QName (hd ?v)))"
    using b calm_port by (simp add: GetSvcPort_def)
  moreover have "calm (inspectWeightVal v)" if "IsWeightPrefix v" for v
    using inspectWeightVal_ok [OF that] by simp
  ultimately show ?thesis
    using False len hd
    by (auto simp: weight_entry_def Let_def index_def info_resolver_def intro!: calm_ebind)
qed

lemma calm_weight_parse:
  assumes "complete_ingress ic" and "weights_sound ic"
  shows "calm (weight_parse (info_resolver (NewIngressInfo cl ic)) ic)"
proof -
  let ?s = "or_empty (GetStringAnnotation setWeightAnnotation ic weightAnnotation)"
  have "calm (efold (\<lambda>r _. ebind (deref (ir_HTTP r)) (\<lambda>paths. if same_paths [] paths then Inr () else Inl (Err e)))
      (Rules (ing_Spec ic)) ())" for e
    by (auto intro!: calm_intros elim: complete_rule [OF assms(1)])
  moreover have "calm (efold (weight_entry (info_resolver (NewIngressInfo cl ic)) ?s) (split_on CHR '','' ?s) st)"
    if "uses_weight ic" for st
  proof (intro calm_efold calm_weight_entry assms(1))
    fix a assume "a \<in> set (split_on CHR '','' ?s)"
    then have "trim_space a = [] \<or> trim_space a \<in> set (entries ?s)" by (simp add: entries_def)
    with that assms(2) show "trim_space a = [] \<or>
        CHR '':'' \<in> set (trim_space a) \<and> hd (split_on CHR '':'' (trim_space a)) \<in> path_services ic"
      by (auto simp: weights_sound_def list_all_iff)
  qed
  ultimately show ?thesis
    by (auto simp: weight_parse_def weight_check_def uses_weight_def Let_def intro!: calm_ebind)
qed

lemma weight_parse_uses: "weight_parse rr ic = Inr bw \<Longrightarrow> bw_UseWeight bw = uses_weight ic"
  by (auto simp: weight_parse_def weight_check_def uses_weight_def Let_def ebind_eq_Inr split: if_splits prod.splits)

section \<open>The generator\<close>

lemma calm_path_backend:
  assumes "complete_path p" and "nc_rr n = info_resolver t"
  shows "calm (path_backend n ann p)"
proof -
  from assms(1) obtain sb ty where p: "ib_Service (hp_Backend p) = Some sb" "hp_PathType p = Some ty"
    by (rule complete_pathE)
  have "calm (checkIngressContent p ann)" using p(2) by (simp add: checkIngressContent_def)
  moreover have "calm (GetService t (sb_Name sb))" by (rule calm_GetService)
  moreover have "calm (port_of_backend t (hp_Backend p))" using p(1) by (intro calm_port) simp
  ultimately show ?thesis
    using p assms(2) by (auto simp: path_backend_def info_resolver_def GetSvcPort_def intro!: calm_ebind)
qed

lemma calm_rule_server:
  assumes "complete_ingress (nc_ingress n)" and "nc_rr n = info_resolver t" and "v \<in> set (Rules (ing_Spec (nc_ingress n)))"
    and "bw_UseWeight (ia_Weight ann) \<Longrightarrow> ir_HTTP v \<noteq> Some []"
  shows "calm (rule_server n ann tls v)"
proof -
  from complete_rule [OF assms(1,3)] obtain ps where ps: "ir_HTTP v = Some ps" "\<And>p. p \<in> set ps \<Longrightarrow> complete_path p" by blast
  have loop: "calm (backends_loop n ann k qs bs)" if "set qs \<subseteq> set ps" for k qs bs
    using that
  proof (induction qs arbitrary: k bs)
    case (Cons q qs)
    then show ?case using ps(2) assms(2) by (auto intro!: calm_ebind calm_path_backend)
  qed simp
  show ?thesis
  proof (cases "bw_UseWeight (ia_Weight ann)")
    case True
    with assms(4) ps(1) obtain q qs where "ps = q # qs" by (cases ps) auto
    with True ps(1) loop [of "[q]"] show ?thesis
      by (simp add: rule_server_def index_def calm_ebind del: backends_loop.simps)
  next
    case False
    with ps(1) loop [of ps] show ?thesis by (simp add: rule_server_def calm_ebind)
  qed
qed

lemma calm_tls: "nc_rr n = info_resolver t \<Longrightarrow> calm (fst (generateTlsFile n w))"
proof -
  assume n: "nc_rr n = info_resolver t"
  have data: "calm (rs_GetTlsData (nc_rr n) key)" for key
    by (auto simp: n info_resolver_def GetTlsData_def GetSecret_def DecodeBase64_def Let_def intro!: calm_ebind split: sum.split)
  have hosts: "calm (fst (ca_hosts n s hs ssl ht v))" for s hs ssl ht v
  proof (induction hs arbitrary: ssl ht v)
    case (Cons h hs)
    show ?case using data [of "\<lparr>ok_Name = s, ok_Namespace = ing_Namespace (nc_ingress n)\<rparr>"] Cons.IH
      by (auto simp: Let_def calm_Inl split: sum.split fault.split prod.split option.split)
  qed simp
  have "calm (fst (ca_secrets n ts ssl ht v))" for ts ssl ht v
    by (induction ts arbitrary: ssl ht v) (auto intro!: calm_sbind hosts split: option.split)
  then have "calm (fst (generateCaTlsFile n w))" by (auto simp: generateCaTlsFile_def intro!: calm_sbind)
  moreover have "calm (fst (generateCrdTlsFile n w))"
    using data [of "\<lparr>ok_Name = ing_Name (nc_ingress n) @ ''-secret'', ok_Namespace = ing_Namespace (nc_ingress n)\<rparr>"]
    by (auto simp: generateCrdTlsFile_def Let_def calm_Inl split: sum.split fault.split prod.split option.split)
  ultimately show ?thesis by (simp add: generateTlsFile_def)
qed

lemma calm_GenerateConfigure:
  assumes "complete_ingress (nc_ingress n)" and "nc_rr n = info_resolver t"
    and "bw_UseWeight (ia_Weight ann) \<Longrightarrow> list_all (\<lambda>v. ir_HTTP v \<noteq> Some []) (Rules (ing_Spec (nc_ingress n)))"
  shows "calm (fst (GenerateConfigure tr env n ann w))"
proof -
  have "calm (rule_server n ann tls v)" if "v \<in> set (Rules (ing_Spec (nc_ingress n)))" for tls v
    using assms that by (intro calm_rule_server) (auto simp: list_all_iff)
  then have "calm (fst (getBackendConfigure n ann w))" for w
    unfolding getBackendConfigure_def
    by (auto simp: Let_def servers_loop_emap intro!: calm_intros calm_tls [OF assms(2)])
  then have 1: "calm (fst (generateBackendTemplate tr env n ann w))" for w
    unfolding generateBackendTemplate_def Reload_def by (intro calm_intros)
  have "calm (getDefaultBackendConfigure n ann)" if "DefaultBackend (ing_Spec (nc_ingress n)) = Some d" for d
  proof -
    from assms(1) that obtain sb where sb: "ib_Service d = Some sb" by (auto simp: complete_ingress_def)
    have "calm (GetService t (sb_Name sb))" "calm (port_of_backend t d)"
      using sb by (simp_all add: calm_GetService calm_port)
    with that sb assms(2) show ?thesis
      by (auto simp: getDefaultBackendConfigure_def info_resolver_def GetSvcPort_def Let_def intro!: calm_ebind)
  qed
  then have 2: "calm (fst (generateDefaultBackendTemplate tr env n ann w))"
    if "DefaultBackend (ing_Spec (nc_ingress n)) \<noteq> None" for w
    unfolding generateDefaultBackendTemplate_def Reload_def using that by (intro calm_intros) auto
  show ?thesis unfolding GenerateConfigure_def using 1 2 by (auto intro!: calm_sbind)
qed

section \<open>A reconciliation\<close>

lemma calm_resources: "calm (fst (ReconcileResource api ic c))"
proof -
  have "calm (fst (secret_there api ic v))" for v
    by (auto simp: secret_there_def GetSecret_def Let_def intro!: calm_ebind split: sum.split)
  then have "calm (fst (reconcileCert api ic v))" for v
    by (auto simp: reconcileCert_def split: sum.split option.split prod.split)
  moreover have "calm (fst (reconcileIssuer api ic v))" for v
    by (auto simp: reconcileIssuer_def split: sum.split option.split prod.split)
  ultimately show ?thesis by (auto simp: ReconcileResource_def intro!: calm_sbind)
qed

lemma calm_generate:
  assumes "libraries_ok out" and "complete_ingress ic" and "weights_sound ic"
  shows "calm (fst (generate out ic c w))"
proof -
  let ?t = "NewIngressInfo (ap_view (rc_api out) c) ic"
  let ?ex = "Extract (rc_mergo out) (rc_order out (NewAnnotationExtractor (info_resolver ?t))) ic"
  from assms(1) have lib: "mergo_fills (rc_mergo out)"
      "iteration_of (rc_order out (NewAnnotationExtractor (info_resolver ?t))) (NewAnnotationExtractor (info_resolver ?t))"
    by (simp_all add: libraries_ok_def)
  have "calm (weight_parse (info_resolver ?t) ic)" by (rule calm_weight_parse [OF assms(2,3)])
  then have ex: "calm ?ex" using extract_panic [OF lib(2)] by (fastforce simp: calm_def)
  show ?thesis
  proof (cases ?ex)
    case (Inl f)
    with ex show ?thesis by (cases f) (auto simp: generate_def info_at_def Let_def)
  next
    case (Inr parsed)
    then have "bw_UseWeight (ia_Weight parsed) = uses_weight ic"
      using Extract_value [OF lib] weight_parse_uses by auto
    then have "calm (fst (GenerateConfigure (rc_tr out) (rc_env out) \<lparr>nc_rr = info_resolver ?t, nc_ingress = ic\<rparr> parsed w))"
      using assms(2,3) by (intro calm_GenerateConfigure [where t = ?t]) (simp_all add: weights_sound_def)
    with Inr show ?thesis
      by (auto simp: generate_def info_at_def Let_def calm_Inl split: sum.split fault.split prod.split)
  qed
qed

lemma calm_Reconcile:
  assumes "libraries_ok out"
    and "\<And>ic. cl_Ingress (ap_view (rc_api out) c) req = Inr ic \<Longrightarrow> complete_ingress ic \<and> weights_sound ic"
  shows "calm (fst (Reconcile out req c w))"
proof (cases "cl_Ingress (ap_view (rc_api out) c) req")
  case (Inl e)
  have "calm (fst (clearConf (rc_tr out) (rc_env out) req w))" by (rule calm_clearConf)
  with Inl show ?thesis
    by (cases "clearConf (rc_tr out) (rc_env out) req w") (auto simp: Reconcile_def intro!: calm_ebind)
next
  case (Inr ic)
  let ?cl = "ap_view (rc_api out) c"
  from assms(2) [OF Inr] have ic: "complete_ingress ic" "weights_sound ic" by simp_all
  have backend: "calm (check_backend ?cl ic b)" if "ib_Service b \<noteq> None" for b
    using that by (auto simp: check_backend_def split: option.split)
  have d: "calm (case DefaultBackend (ing_Spec ic) of None \<Rightarrow> Inr [] | Some d \<Rightarrow> check_backend ?cl ic d)"
    using ic(1) backend by (auto simp: complete_ingress_def split: option.split)
  have rules: "calm (check_rules ?cl ic)"
    unfolding check_rules_def
    by (intro calm_efold, erule complete_rule [OF ic(1)])
       (auto simp: complete_path_def intro!: calm_intros backend)
  have "calm r" if "generate out ic c1 w = (r, w1)" for r c1 w1
    using calm_generate [OF assms(1) ic, of c1 w] that by simp
  then have "calm (fst (resources_then_generate out ic c w))"
    using calm_resources [of "rc_api out" ic c]
    by (auto simp: resources_then_generate_def calm_Inl split: sum.split fault.split prod.split)
  with d rules show ?thesis
    using Inr by (auto simp: Reconcile_def Let_def calm_Inl split: sum.split list.split)
qed

text \<open>An ingress with two weighted services.\<close>

definition priced_ingress :: ingress where
  "priced_ingress = weighted_ingress\<lparr>ing_Spec := (ing_Spec weighted_ingress)
     \<lparr>Rules := map (\<lambda>v. v\<lparr>ir_HTTP := map_option (map (\<lambda>p. p\<lparr>hp_PathType := Some ''Prefix''\<rparr>)) (ir_HTTP v)\<rparr>)
        (Rules (ing_Spec weighted_ingress))\<rparr>\<rparr>"

lemma in_path_services:
  "n \<in> path_services ic \<longleftrightarrow> list_ex (\<lambda>v. case ir_HTTP v of None \<Rightarrow> False | Some ps \<Rightarrow>
     list_ex (\<lambda>p. case ib_Service (hp_Backend p) of None \<Rightarrow> False | Some sb \<Rightarrow> sb_Name sb = n) ps) (Rules (ing_Spec ic))"
  by (fastforce simp: path_services_def list_ex_iff split: option.splits)

lemma priced_ok: "complete_ingress priced_ingress" "weights_sound priced_ingress" "uses_weight priced_ingress"
proof -
  show "complete_ingress priced_ingress"
    by (simp add: complete_ingress_def complete_path_def priced_ingress_def weighted_ingress_def)
  show "uses_weight priced_ingress" by code_simp
  have e: "entries (or_empty (GetStringAnnotation setWeightAnnotation priced_ingress weightAnnotation)) = [''a:weight=80'', ''b:weight=0'']"
    by code_simp
  have "split_on CHR '':'' ''a:weight=80'' = [''a'', ''weight=80'']" "split_on CHR '':'' ''b:weight=0'' = [''b'', ''weight=0'']"
    by code_simp+
  moreover have "''a'' \<in> path_services priced_ingress" "''b'' \<in> path_services priced_ingress"
    by (simp_all add: in_path_services priced_ingress_def weighted_ingress_def)
  moreover have "list_all (\<lambda>v. ir_HTTP v \<noteq> Some []) (Rules (ing_Spec priced_ingress))"
    by (simp add: priced_ingress_def weighted_ingress_def)
  ultimately show "weights_sound priced_ingress"
    unfolding weights_sound_def e by simp
qed

section \<open>What the webhook lets through\<close>

text \<open>The ingress with resources in the place of the services of its back ends.\<close>

definition drop_services :: "ingress \<Rightarrow> ingress" where
  "drop_services ic = ic\<lparr>ing_Spec := (ing_Spec ic)
     \<lparr>DefaultBackend := map_option (\<lambda>_. \<lparr>ib_Service = None\<rparr>) (DefaultBackend (ing_Spec ic)),
      Rules := map (\<lambda>v. v\<lparr>ir_HTTP := map_option (map (\<lambda>p. p\<lparr>hp_Backend := \<lparr>ib_Service = None\<rparr>\<rparr>)) (ir_HTTP v)\<rparr>)
        (Rules (ing_Spec ic))\<rparr>\<rparr>"

lemma drop_services_simps [simp]:
  "ing_Name (drop_services ic) = ing_Name ic" "ing_Namespace (drop_services ic) = ing_Namespace ic"
  "ing_Annotations (drop_services ic) = ing_Annotations ic"
  "IngressClassName (ing_Spec (drop_services ic)) = IngressClassName (ing_Spec ic)"
  "annotation (drop_services ic) k = annotation ic k"
  by (simp_all add: drop_services_def annotation_def)

lemma drop_services_class: "checkController cl (drop_services ic) = checkController cl ic"
  unfolding checkController_def drop_services_simps ..

lemma drop_services_admitted: "ValidateCreate (drop_services ic) = Inr None \<longleftrightarrow> ValidateCreate ic = Inr None"
proof -
  let ?f = "\<lambda>v. v\<lparr>ir_HTTP := map_option (map (\<lambda>p. p\<lparr>hp_Backend := \<lparr>ib_Service = None\<rparr>\<rparr>)) (ir_HTTP v)\<rparr>"
  have r: "proxied (drop_services ic) = proxied ic" "weights_only (drop_services ic) = weights_only ic"
    by (simp_all add: proxied_def weights_only_def weighted_def)
  have paths: "rule_paths (drop_services ic) (?f v) = rule_paths ic v" for v
    by (cases "ir_HTTP v") (simp_all add: rule_paths_def r)
  have ok: "rule_ok (drop_services ic) (?f v) = rule_ok ic v" for v
    using paths [of v] by (auto simp: rule_ok_def r)
  have "looked_at (drop_services ic) (map ?f vs) = map ?f (looked_at ic vs)" for vs
    using paths by (induction vs) (simp_all add: r)
  then show ?thesis
    using ok by (simp add: ValidateCreate_iff drop_services_def list_all_iff)
qed

lemma drop_services_checks:
  assumes "v \<in> set (Rules (ing_Spec ic))" and "ir_HTTP v = Some ps" and "ps \<noteq> []"
  shows "check_rules cl (drop_services ic) = Inl (Panic NilDereference)"
proof -
  let ?f = "\<lambda>v. v\<lparr>ir_HTTP := map_option (map (\<lambda>p. p\<lparr>hp_Backend := \<lparr>ib_Service = None\<rparr>\<rparr>)) (ir_HTTP v)\<rparr>"
  have "efold (\<lambda>v errs. ebind (deref (ir_HTTP v)) (\<lambda>paths.
         efold (\<lambda>h errs. ebind (check_backend cl (drop_services ic) (hp_Backend h)) (\<lambda>es. Inr (errs @ es))) paths errs))
       (map ?f vs) errs = Inl (Panic NilDereference)" if "v \<in> set vs" for vs errs
    using that
  proof (induction vs arbitrary: errs)
    case (Cons u vs)
    show ?case
    proof (cases "ir_HTTP u")
      case None
      then show ?thesis by simp
    next
      case (Some qs)
      with Cons assms(2,3) show ?thesis by (cases qs) (auto simp: check_backend_def)
    qed
  qed simp
  from this [OF assms(1)] show ?thesis by (simp add: check_rules_def drop_services_def)
qed

section \<open>Properties\<close>

text \<open>C8. An ingress in which every pointer the controller follows is there, and whose weights, if it uses
  them, name services of its paths, never makes a reconciliation panic, whatever the cluster answers,
  the disk does, the templates say and nginx returns.\<close>

theorem reconcile_panic_free:
  assumes "libraries_ok out"
    and "\<And>ic. cl_Ingress (ap_view (rc_api out) c) req = Inr ic \<Longrightarrow> complete_ingress ic \<and> weights_sound ic"
  shows "fst (Reconcile out req c w) \<noteq> Inl (Panic p)"
  using calm_Reconcile [OF assms] by (auto simp: calm_def)

theorem reconcile_panic_free_witness:
  "\<exists>out :: unit outside. uses_weight priced_ingress \<and> cl_Ingress (ap_view (rc_api out) ()) (key_of priced_ingress) = Inr priced_ingress \<and>
     (\<forall>w p. fst (Reconcile out (key_of priced_ingress) () w) \<noteq> Inl (Panic p))"
proof -
  define out where "out = hosted_outside\<lparr>rc_api := (rc_api hosted_outside)\<lparr>ap_view := \<lambda>_. weighted_client
     \<lparr>cl_Ingress := \<lambda>_. Inr priced_ingress\<rparr>\<rparr>\<rparr>"
  have read: "cl_Ingress (ap_view (rc_api out) ()) (key_of priced_ingress) = Inr priced_ingress"
    by (simp add: out_def)
  then have "complete_ingress ic \<and> weights_sound ic"
    if "cl_Ingress (ap_view (rc_api out) ()) (key_of priced_ingress) = Inr ic" for ic
    using that priced_ok by (metis sum.inject(2))
  moreover have "libraries_ok out" using hosted_libraries by (simp add: out_def libraries_ok_def)
  ultimately have "fst (Reconcile out (key_of priced_ingress) () w) \<noteq> Inl (Panic p)" for w p
    by (intro reconcile_panic_free)
  with read priced_ok(3) show ?thesis by blast
qed

text \<open>C10. The webhook does not look at the services of the back ends: an ingress it admits is still admitted
  with resources in their place, and the first reconciliation of that one panics.\<close>

theorem admitted_ingress_panics:
  assumes "ValidateCreate ic = Inr None" and "cl_Ingress (ap_view (rc_api out) c) req = Inr (drop_services ic)"
    and "checkController (ap_view (rc_api out) c) ic = None"
    and "DefaultBackend (ing_Spec ic) \<noteq> None \<or> (\<exists>v ps. v \<in> set (Rules (ing_Spec ic)) \<and> ir_HTTP v = Some ps \<and> ps \<noteq> [])"
  shows "ValidateCreate (drop_services ic) = Inr None \<and>
    Reconcile out req c w = (Inl (Panic NilDereference), c, w)"
proof
  show "ValidateCreate (drop_services ic) = Inr None" using assms(1) drop_services_admitted by blast
  have ctl: "checkController (ap_view (rc_api out) c) (drop_services ic) = None"
    using assms(3) by (simp only: drop_services_class)
  show "Reconcile out req c w = (Inl (Panic NilDereference), c, w)"
  proof (cases "DefaultBackend (ing_Spec ic)")
    case (Some d)
    then have "DefaultBackend (ing_Spec (drop_services ic)) = Some \<lparr>ib_Service = None\<rparr>" by (simp add: drop_services_def)
    with assms(2) ctl show ?thesis by (simp add: Reconcile_def check_backend_def)
  next
    case None
    then have "DefaultBackend (ing_Spec (drop_services ic)) = None" by (simp add: drop_services_def)
    moreover from None assms(4) obtain v ps where "v \<in> set (Rules (ing_Spec ic))" "ir_HTTP v = Some ps" "ps \<noteq> []" by blast
    from drop_services_checks [OF this] have "check_rules (ap_view (rc_api out) c) (drop_services ic) = Inl (Panic NilDereference)" .
    ultimately show ?thesis using assms(2) ctl by (simp add: Reconcile_def)
  qed
qed

theorem admitted_ingress_panics_witness:
  "\<exists>out. \<forall>w. ValidateCreate (drop_services hosted_ingress) = Inr None \<and>
     Reconcile out (key_of hosted_ingress) () w = (Inl (Panic NilDereference), (), w)"
proof -
  define out where "out = hosted_outside\<lparr>rc_api := (rc_api hosted_outside)\<lparr>ap_view := \<lambda>_. live_client
     \<lparr>cl_Ingress := \<lambda>_. Inr (drop_services hosted_ingress)\<rparr>\<rparr>\<rparr>"
  have "ValidateCreate hosted_ingress = Inr None"
    by (simp add: ValidateCreate_iff hosted_ingress_def)
  moreover have "cl_Ingress (ap_view (rc_api out) ()) (key_of hosted_ingress) = Inr (drop_services hosted_ingress)"
    by (simp add: out_def)
  moreover have "checkController (ap_view (rc_api out) ()) hosted_ingress = None"
    by (simp add: checkController_def hosted_ingress_def live_ingress_def annotation_def nginxAnnotationKey_def nginxAnnotationVal_def)
  moreover have "DefaultBackend (ing_Spec hosted_ingress) \<noteq> None" by (simp add: hosted_ingress_def)
  ultimately show ?thesis using admitted_ingress_panics [of hosted_ingress out "()"] by blast
qed

end
