(* ===== verification/Spec2Isabelle.thy ===== *)
theory Spec2Isabelle
  imports DefaultRuns DeepCopy Startup Reactions Panics
begin

text \<open>
  A verification library for the nginx ingress controller of this repository: a Kubernetes operator
  that turns objects of its own kind \<open>Ingress\<close> into nginx configuration files and reloads nginx.

  \<^bold>\<open>The program.\<close> The manager hands the name of an ingress to \<^verbatim>\<open>Reconcile\<close> in
  \<^verbatim>\<open>internal/controller/ingress_controller.go\<close>. It reads the ingress, checks that it belongs to this
  controller and that the services of its back ends exist, creates or updates an issuer and a
  certificate (\<^verbatim>\<open>pkg/resources\<close>), extracts the annotations of the ingress (\<^verbatim>\<open>internal/annotations\<close>, one
  package per group), builds the data of the servers and renders it (\<^verbatim>\<open>internal/controller/nginx.go\<close>),
  and installs the file and signals nginx (\<^verbatim>\<open>internal/nginx/nginx.go\<close>). An ingress that cannot be read
  has its configuration removed. Beside this, a goroutine started with nginx watches the directories
  of the configurations and the certificates and reloads nginx when a file in them changes, and an
  admission webhook (\<^verbatim>\<open>api/v1/ingress_webhook.go\<close>) checks an ingress before it is stored.

  \<^bold>\<open>Conventions.\<close> A Go function that returns an error is a function into
  \<open>fault + 'a\<close>, where a fault is an error value, a panic or the end of the process; the
  monadic combinators of theory \<open>Prelude\<close> are the early returns. A function with effects
  also takes and returns the state it works on: the \<open>world\<close> of theory \<open>GoFiles\<close>
  (the files, the faults of the disk, the log of the tests and the signals) or the state of the
  cluster, whose type is a parameter. Go maps are association lists where the iteration order is
  visible; statements that quantify over the order cover every iteration. Ports are words of 32
  bits. A deferred call runs at every return and not when the process ends.

  \<^bold>\<open>Theories, from the bottom.\<close>

  \<^item> \<open>Prelude\<close>, \<open>GoStrings\<close>, \<open>GoRegex\<close>: the combinators, the parts of
  packages strings, strconv and sort that are used, and the matcher of package regexp (leftmost,
  ordered alternatives), proved against a declarative meaning.
  \<^item> \<open>KErrors\<close> (\<^verbatim>\<open>internal/errors\<close>), \<open>ApiTypes\<close> (\<^verbatim>\<open>api/v1\<close>, \<^verbatim>\<open>internal/config\<close>).
  \<^item> \<open>AnnParser\<close> (\<^verbatim>\<open>internal/annotations/parser\<close>), the groups \<open>AllowCos\<close>,
  \<open>Redirect\<close>, \<open>Rewrite\<close>, \<open>SslStapling\<close>, \<open>Proxy\<close>,
  \<open>IpAllowList\<close>, \<open>IpDenyList\<close>, \<open>Weight\<close>, each the package of its name.
  The contract of a group is the locale \<open>annotation_group\<close>; the two address lists share
  \<open>ip_source_range\<close> of \<open>IpRanges\<close>. Every group interprets its contract.
  \<^item> \<open>Store\<close> (\<^verbatim>\<open>internal/controller/store\<close>): the look-ups of an ingress over the API
  client. The groups that need a service use them through the locales \<open>service_resolver\<close>
  and \<open>port_resolver\<close>.
  \<^item> \<open>Extractor\<close>, \<open>Annotations\<close> (\<^verbatim>\<open>internal/annotations/annotations.go\<close>): the
  loop over the groups and what it returns. The merge library is a parameter; theorems about the
  merged value assume what it documents, that it fills the fields of the zero value.
  \<^item> \<open>Sha1\<close>, \<open>GoFiles\<close>, \<open>NginxReload\<close> (\<^verbatim>\<open>pkg/utils/file/md5.go\<close>,
  \<^verbatim>\<open>internal/nginx/nginx.go\<close>): the digest, the operations of package os with their failures, and the
  reload. The commands nginx, cat, kill and the process list are a parameter. What a caller may rely on is
  the locale \<open>tested_update\<close>, interpreted by the reload and by both updates of the generator.
  \<^item> \<open>Watcher\<close> (\<^verbatim>\<open>internal/nginx/nginx.go\<close>, \<^verbatim>\<open>pkg/utils/file/file_watcher.go\<close>): the start
  of nginx as a step relation, with the watchers it starts, and the loop of a watcher over what its channels
  deliver. The answers of package fsnotify are a parameter.
  \<^item> \<open>Interleaving\<close>: the reload and the reload of a watcher once more, as sequences of the
  calls they make to the operating system, and the steps of any number of them side by side. One call
  is one step; a write is two, the truncation and the bytes. \<open>Undisturbed\<close>: which calls of a
  watcher a reload cannot see, and so what becomes of the files.
  \<^item> \<open>TextTemplate\<close>: the part of package text/template the templates use, from the
  lexer to the execution. Source text outside that part is handed to a parameter.
  \<^item> \<open>TlsFiles\<close>, \<open>Backends\<close>, \<open>NginxConf\<close>
  (\<^verbatim>\<open>internal/controller/nginx.go\<close>, \<^verbatim>\<open>pkg/utils/template_nginx\<close>, \<^verbatim>\<open>internal/controller/default_nginx.go\<close>):
  the certificate files, the data of the servers, rendering, writing and reloading.
  \<^item> \<open>TemplateTypes\<close>, \<open>TemplatePieces\<close>, \<open>ServerTemplate\<close>: a typing
  judgement for templates, parsing a template piece by piece, and the text of
  \<^verbatim>\<open>rootfs/etc/nginx/template/server.tmpl\<close> with a printer for the page it renders.
  \<open>DefaultTemplate\<close> does the same for \<^verbatim>\<open>nginx.tmpl\<close> and \<^verbatim>\<open>defaultBackend.tmpl\<close>.
  \<^item> \<open>Resources\<close> (\<^verbatim>\<open>pkg/resources/resources.go\<close>), \<open>Webhook\<close>
  (\<^verbatim>\<open>api/v1/ingress_webhook.go\<close>), \<open>Reconciler\<close> (\<^verbatim>\<open>internal/controller/ingress_controller.go\<close>),
  \<open>Startup\<close> (\<^verbatim>\<open>cmd/main.go\<close> and the set-up functions of the controller and the webhook).
  \<^item> \<open>DeepCopy\<close> (\<^verbatim>\<open>api/v1/zz_generated.deepcopy.go\<close>): the ingress once more as objects in an explicit
  store, with its generated copies and the validation of the webhook on it. \<open>ingress_at\<close> reads
  the value the other theories work on.
  \<^item> \<open>Convergence\<close>: the controller as a whole. The configuration an ingress should have is
  a function of the cluster, \<^verbatim>\<open>desired_conf\<close>, with neither a disk nor an order in it; the theorems relate a
  reconciliation, and a queue of them, to it.
  \<^item> \<open>ControllerRuns\<close>: runs of reconciliations and changes of the cluster, and the abstract machine
  of installed configurations they follow. \<open>DefaultRuns\<close>: the default back end, which all ingresses
  share one file for.
  \<^item> \<open>Reactions\<close>: a reconciliation as the sequence of its calls, which run alone is
  the reconciliation, and the watcher woken by what the library of the watcher, a parameter, reports of those calls. \<open>Panics\<close>: which ingresses can
  make the controller panic, and that the webhook admits some of them.

  \<^bold>\<open>What the theorems show.\<close> For the reload: on a healthy disk it refines an abstract
  operation that keeps the tested file or the old one, it rolls back a rejected file byte for byte,
  it touches no file but its own three, and a signal is always preceded by a test that did not fail;
  the last also holds on a failing disk, and is carried up through the generator and the
  reconciliation. For the generator: the servers follow the rules, an update that returns no error
  leaves the rendering of its servers installed, and with the templates of the repository that
  rendering is the page of every server in order, because every well-typed template renders what an
  ingress configures. For the annotations: extraction does not depend on the order of the groups,
  its errors are those of the groups, and each group accepts exactly the stated values. For the
  certificates: a reconciliation converges in one step and then changes nothing. For the start: it
  ends, and watches only a running nginx. For reloads and watchers side by side: whatever the interleaving they
  end, after a number of calls that is known beforehand, nginx gets no more signals than tests did not fail,
  and while nginx runs the watchers do not disturb what one reload makes of the files; but a watcher can signal
  while a reload has a rejected or a truncated file in place. For the whole: a reconciliation that is done leaves the desired
  configuration, one that finds it there tests and signals nothing, a queue of ingresses whose services,
  issuer, certificate and annotations are in order and whose file names are their own brings every one of
  them to it while nginx accepts and restarts, and none touches the files of another name; one that nginx rejects is rolled back and tried again.
  An ingress with every pointer in place and sound weights never makes a reconciliation panic; one whose
  back end is a resource does, and the webhook admits it. A reconciliation with nothing to do still
  wakes the watcher of the configuration directory, which signals nginx.
  Runs follow a machine that keeps, removes, or replaces a configuration by a content nginx did not reject,
  so that no other is ever installed, although nginx may judge differently at every step; a test that could
  not be run rejects nothing, as in the code. A default back end is installed in the main configuration, and stays
  there when its ingress is deleted. For the copies: they read as their originals, and
  share the rules with them. Several theorems state what goes wrong: which inputs lose a
  configuration, duplicate an upstream, leak a certificate to another host or make a port
  unresolvable.

  \<^bold>\<open>Bounds.\<close> The lexer of templates consumes its input; the parser of expressions gets
  three units of fuel per token and two more, which covers the deepest nesting that many tokens can
  build; the depth of nested template calls is bounded as in package text/template. The start of
  nginx is a relation, and its termination is a rank on its states. A reload makes at most 31 calls on any
  path, a watcher at most four for one delivery.

  \<^bold>\<open>Not modelled.\<close> The registration of the types with a scheme is a call of a library. Log lines have no effect the program reads. The mutex of the generator belongs to an
  object that is made anew for every call, so it excludes nothing and is left out. Reconciliations
  are one after the other, as the manager runs them; a reload and the watchers are interleaved call by
  call; a whole reconciliation is a sequence of calls too, in which writing the certificates and
  rendering the file to be tested are one step each, and is only run alone. The template snippets
  that no code reads, test code, manifests and build files are left aside.
\<close>

end
